(* ===== verification/Go_Prelude.thy ===== *)
theory Go_Prelude
  imports Main "HOL-Library.Word" "HOL-Library.AList" "HOL-Library.Multiset"
begin

text \<open>
  What the components share: the Go types the model uses, the result of a statement that
  may panic or not return, \<open>sync.Map\<close> and Go's \<open>map\<close> as association lists, the
  \<open>Range\<close> loop with its early exit, and the generic lemmas on lists and association lists.

  \<open>sync.Map\<close> and \<open>map\<close> iterate in an unspecified order. An association list holds the
  entries in some order, and every theorem quantifies over all lists, so over all orders.
\<close>

section \<open>Collections of lemmas\<close>

named_theorems map_simps \<open>lookups, keys and entries of association lists\<close>
named_theorems frame_simps \<open>fields an operation does not write\<close>

section \<open>Go types\<close>

type_synonym uint8 = "8 word"
type_synonym int32 = "32 word" \<comment> \<open>signed: compared and read through \<open>sint\<close>\<close>
type_synonym uint32 = "32 word"
type_synonym int64 = "64 word" \<comment> \<open>signed: compared and read through \<open>sint\<close>\<close>
type_synonym uint64 = "64 word"
type_synonym time = int \<comment> \<open>nanoseconds; also \<open>time.Duration\<close>\<close>

section \<open>Results of statements\<close>

text \<open>
  A Go statement returns, panics, or runs forever. Error values that the code returns
  are ordinary values of a sum type.
\<close>

datatype 'a outcome = Ret 'a | Panic string | Diverge

fun obind :: "'a outcome \<Rightarrow> ('a \<Rightarrow> 'b outcome) \<Rightarrow> 'b outcome" where
  "obind (Ret x) f = f x"
| "obind (Panic e) f = Panic e"
| "obind Diverge f = Diverge"

definition of_loop :: "'a option \<Rightarrow> 'a outcome" where
  "of_loop x = (case x of None \<Rightarrow> Diverge | Some y \<Rightarrow> Ret y)"

lemma of_loop_simps [simp]: "of_loop None = Diverge" "of_loop (Some x) = Ret x"
  by (simp_all add: of_loop_def)

lemma of_loop_eq_Ret [simp]: "of_loop x = Ret y \<longleftrightarrow> x = Some y"
  by (cases x) simp_all

lemma obind_eq_Ret: "obind m f = Ret y \<longleftrightarrow> (\<exists>x. m = Ret x \<and> f x = Ret y)"
  by (cases m) simp_all

lemma obind_RetE [elim]:
  assumes "obind m f = Ret y"
  obtains x where "m = Ret x" and "f x = Ret y"
  using assms by (auto simp: obind_eq_Ret)

text \<open>A loop over a slice whose body updates the state and may panic or diverge.\<close>

fun ofold :: "('x \<Rightarrow> 's \<Rightarrow> 's outcome) \<Rightarrow> 'x list \<Rightarrow> 's \<Rightarrow> 's outcome" where
  "ofold f [] s = Ret s"
| "ofold f (x # xs) s = obind (f x s) (ofold f xs)"

lemma ofold_invariant:
  assumes "ofold f xs s = Ret s'" and "P s"
    and "\<And>x s s'. x \<in> set xs \<Longrightarrow> P s \<Longrightarrow> f x s = Ret s' \<Longrightarrow> P s'"
  shows "P s'"
  using assms
proof (induction xs arbitrary: s)
  case (Cons x xs)
  then obtain t where t: "f x s = Ret t" "ofold f xs t = Ret s'"
    by auto
  have "P t" using Cons.prems(2,3) t(1) by (auto intro: Cons.prems(3)[of x])
  then show ?case
    using Cons.IH[OF t(2)] Cons.prems(3) by auto
qed simp

text \<open>\<open>Range(fn)\<close>: the callback updates the captured state and says whether to go on.\<close>

fun range_loop :: "('x \<Rightarrow> 's \<Rightarrow> 's \<times> bool) \<Rightarrow> 'x list \<Rightarrow> 's \<Rightarrow> 's" where
  "range_loop f [] s = s"
| "range_loop f (x # xs) s = (case f x s of (s', go) \<Rightarrow> if go then range_loop f xs s' else s')"

lemma range_loop_all: "(\<And>x s. snd (f x s)) \<Longrightarrow> range_loop f xs s = fold (\<lambda>x s. fst (f x s)) xs s"
  by (induction xs arbitrary: s) (auto split: prod.splits, metis fst_conv snd_conv)

section \<open>Maps as association lists\<close>

type_synonym ('k, 'v) gomap = "('k \<times> 'v) list"

definition Load :: "('k, 'v) gomap \<Rightarrow> 'k \<Rightarrow> 'v option" where
  "Load m k = map_of m k"

definition Store :: "'k \<Rightarrow> 'v \<Rightarrow> ('k, 'v) gomap \<Rightarrow> ('k, 'v) gomap" where
  "Store k v m = AList.update k v m"

definition Delete :: "'k \<Rightarrow> ('k, 'v) gomap \<Rightarrow> ('k, 'v) gomap" where
  "Delete k m = AList.delete k m"

definition LoadOrStore :: "'k \<Rightarrow> 'v \<Rightarrow> ('k, 'v) gomap \<Rightarrow> ('v \<times> bool) \<times> ('k, 'v) gomap" where
  "LoadOrStore k v m = (case Load m k of Some w \<Rightarrow> ((w, True), m) | None \<Rightarrow> ((v, False), Store k v m))"

abbreviation wf_map :: "('k, 'v) gomap \<Rightarrow> bool" where
  "wf_map m \<equiv> distinct (map fst m)"

lemma Load_Nil [simp, map_simps]: "Load [] k = None"
  by (simp add: Load_def)

lemma Load_Cons [simp, map_simps]: "Load ((k', v) # m) k = (if k' = k then Some v else Load m k)"
  by (simp add: Load_def)

lemma Load_Store [simp, map_simps]: "Load (Store k v m) k' = (if k' = k then Some v else Load m k')"
  by (simp add: Load_def Store_def update_conv')

lemma Load_Delete [simp, map_simps]: "Load (Delete k m) k' = (if k' = k then None else Load m k')"
  by (auto simp: Load_def Delete_def delete_conv')

lemma wf_map_Store [simp, map_simps]: "wf_map (Store k v m) = wf_map m"
proof
  assume "wf_map (Store k v m)"
  then show "wf_map m" by (induction m) (auto simp: Store_def dom_update split: if_splits)
qed (simp add: Store_def distinct_update)

lemma wf_map_Delete [simp, map_simps]: "wf_map m \<Longrightarrow> wf_map (Delete k m)"
  by (simp add: Delete_def distinct_delete)

lemma keys_Store [simp, map_simps]: "fst ` set (Store k v m) = insert k (fst ` set m)"
  by (simp add: Store_def dom_update)

lemma keys_Delete [simp, map_simps]: "fst ` set (Delete k m) = fst ` set m - {k}"
  unfolding Delete_def by (induction m) auto

lemma Load_None_iff [map_simps]: "Load m k = None \<longleftrightarrow> k \<notin> fst ` set m"
  by (simp add: Load_def map_of_eq_None_iff)

lemma Load_Some_iff [map_simps]: "wf_map m \<Longrightarrow> Load m k = Some v \<longleftrightarrow> (k, v) \<in> set m"
  by (simp add: Load_def map_of_eq_Some_iff)

lemma Load_in_set: "Load m k = Some v \<Longrightarrow> (k, v) \<in> set m"
  by (simp add: Load_def map_of_SomeD)

lemma set_Store_fresh: "k \<notin> fst ` set m \<Longrightarrow> Store k v m = m @ [(k, v)]"
  unfolding Store_def by (induction m) auto

lemma length_Store [map_simps]:
  "length (Store k v m) = (if Load m k = None then Suc (length m) else length m)"
  unfolding Store_def Load_def by (induction m) auto

lemma length_Delete [map_simps]:
  "wf_map m \<Longrightarrow> length (Delete k m) = (if Load m k = None then length m else length m - 1)"
proof (induction m)
  case (Cons a m)
  obtain k' v' where a: "a = (k', v')" by (cases a)
  show ?case
  proof (cases "k' = k")
    case True
    then have "Load m k = None"
      using Cons.prems a by (auto simp: Load_def map_of_eq_None_iff)
    then have "AList.delete k m = m"
      by (auto simp: Load_def map_of_eq_None_iff delete_id)
    with True a show ?thesis by (simp add: Delete_def)
  next
    case False
    have "length m \<noteq> 0" if "Load m k \<noteq> None"
      using that by (cases m) auto
    with False a Cons show ?thesis by (auto simp: Delete_def)
  qed
qed (simp add: Delete_def)

section \<open>Lists\<close>

lemma sorted_wrt_filterI: "sorted_wrt P xs \<Longrightarrow> sorted_wrt P (filter Q xs)"
  by (induction xs) auto

lemma sorted_wrt_remove1: "sorted_wrt P xs \<Longrightarrow> sorted_wrt P (remove1 x xs)"
proof (induction xs)
  case (Cons a xs)
  have "set (remove1 x xs) \<subseteq> set xs" by (rule set_remove1_subset)
  with Cons show ?case by auto
qed simp

section \<open>Signed words\<close>

lemma sint_bounds_32: "- (2 ^ 31) \<le> sint (w :: 32 word) \<and> sint w < 2 ^ 31"
  using sint_lt[of w] sint_ge[of w] by simp

lemma sint_range_eq: "- (2 ^ 31) \<le> i \<Longrightarrow> i < 2 ^ 31 \<Longrightarrow> signed_take_bit 31 i = (i :: int)"
  by (simp add: signed_take_bit_int_eq_self)

lemma sint_add_32:
  "- (2 ^ 31) \<le> sint a + sint b \<Longrightarrow> sint a + sint b < 2 ^ 31 \<Longrightarrow>
   sint (a + b :: 32 word) = sint a + sint b"
  by (simp add: sint_word_ariths sint_range_eq)

lemma sint_sub_32:
  "- (2 ^ 31) \<le> sint a - sint b \<Longrightarrow> sint a - sint b < 2 ^ 31 \<Longrightarrow>
   sint (a - b :: 32 word) = sint a - sint b"
  by (simp add: sint_word_ariths sint_range_eq)

lemma sint_mult_32:
  "- (2 ^ 31) \<le> sint a * sint b \<Longrightarrow> sint a * sint b < 2 ^ 31 \<Longrightarrow>
   sint (a * b :: 32 word) = sint a * sint b"
  by (simp add: sint_word_ariths sint_range_eq)

lemma sint_dec_32: "0 < sint (w :: 32 word) \<Longrightarrow> sint (w - 1) = sint w - 1"
  using sint_bounds_32[of w] by (subst sint_sub_32) auto

end
