(* ===== verification/Containers.thy ===== *)
theory Containers
  imports Go_Prelude
begin

text \<open>
  \<open>pkg/container\<close>: the hash set of \<open>set/set.go\<close> and its locked variant of
  \<open>set/safe_set.go\<close>, the list sorted by \<open>SortedValue\<close> of \<open>list/sorted_list.go\<close>
  and the duplicate-free one of \<open>list/sorted_unique_list.go\<close>, which a scheduler task
  keeps its peers in.

  An item's \<open>SortedValue()\<close> is read from the heap at the time of the call, so each
  operation that compares items takes the value function of that moment as an argument.
  The two locales state what clients rely on; each is interpreted on both variants.
\<close>

section \<open>Sets\<close>

text \<open>\<open>type set map[interface{}]struct{}\<close>: the keys, in an arbitrary order.\<close>

type_synonym 'a goset = "'a list"

definition set_New :: "'a goset" where
  "set_New = []"

definition set_Range :: "('a \<Rightarrow> 's \<Rightarrow> 's \<times> bool) \<Rightarrow> 'a goset \<Rightarrow> 's \<Rightarrow> 's" where
  "set_Range f s r = range_loop f s r"

definition set_Values :: "'a goset \<Rightarrow> 'a list" where
  "set_Values s = set_Range (\<lambda>v result. (result @ [v], True)) s []"

definition set_Add :: "'a \<Rightarrow> 'a goset \<Rightarrow> 'a goset \<times> bool" where
  "set_Add v s = (if v \<in> set s then (s, False) else (s @ [v], True))"

definition set_Delete :: "'a \<Rightarrow> 'a goset \<Rightarrow> 'a goset" where
  "set_Delete v s = removeAll v s"

fun set_Contains :: "'a list \<Rightarrow> 'a goset \<Rightarrow> bool" where
  "set_Contains [] s = True"
| "set_Contains (v # vals) s = (if v \<notin> set s then False else set_Contains vals s)"

definition set_Len :: "'a goset \<Rightarrow> nat" where
  "set_Len s = length s"

text \<open>
  \<open>safeSet\<close> guards the same map with a read-write lock. \<open>Add\<close> looks the value up under
  the read lock, gives the lock up, and stores under the write lock: two atomic steps.
\<close>

definition safeSet_Add_found :: "'a \<Rightarrow> 'a goset \<Rightarrow> bool" where
  "safeSet_Add_found v s \<longleftrightarrow> v \<in> set s"

definition safeSet_Add_store :: "'a \<Rightarrow> 'a goset \<Rightarrow> 'a goset" where
  "safeSet_Add_store v s = (if v \<in> set s then s else s @ [v])"

definition safeSet_Add :: "'a \<Rightarrow> 'a goset \<Rightarrow> 'a goset \<times> bool" where
  "safeSet_Add v s =
     (if safeSet_Add_found v s then (s, False) else (safeSet_Add_store v s, True))"

definition safeSet_Delete :: "'a \<Rightarrow> 'a goset \<Rightarrow> 'a goset" where
  "safeSet_Delete v s = removeAll v s"

fun safeSet_Contains :: "'a list \<Rightarrow> 'a goset \<Rightarrow> bool" where
  "safeSet_Contains [] s = True"
| "safeSet_Contains (v # vals) s = (if v \<notin> set s then False else safeSet_Contains vals s)"

definition safeSet_Len :: "'a goset \<Rightarrow> nat" where
  "safeSet_Len s = length s"

definition safeSet_Range :: "('a \<Rightarrow> 's \<Rightarrow> 's \<times> bool) \<Rightarrow> 'a goset \<Rightarrow> 's \<Rightarrow> 's" where
  "safeSet_Range f s r = range_loop f s r"

definition safeSet_Values :: "'a goset \<Rightarrow> 'a list" where
  "safeSet_Values s = safeSet_Range (\<lambda>v result. (result @ [v], True)) s []"

subsection \<open>The set interface\<close>

locale go_set =
  fixes Add :: "'a \<Rightarrow> 's \<Rightarrow> 's \<times> bool"
    and Del :: "'a \<Rightarrow> 's \<Rightarrow> 's"
    and Contains :: "'a list \<Rightarrow> 's \<Rightarrow> bool"
    and Len :: "'s \<Rightarrow> nat"
    and Values :: "'s \<Rightarrow> 'a list"
    and invar :: "'s \<Rightarrow> bool"
  assumes invar_Add: "invar s \<Longrightarrow> invar (fst (Add x s))"
    and invar_Del: "invar s \<Longrightarrow> invar (Del x s)"
    and values_distinct: "invar s \<Longrightarrow> distinct (Values s)"
    and values_Add: "invar s \<Longrightarrow> set (Values (fst (Add x s))) = insert x (set (Values s))"
    and added: "invar s \<Longrightarrow> snd (Add x s) \<longleftrightarrow> x \<notin> set (Values s)"
    and values_Del: "invar s \<Longrightarrow> set (Values (Del x s)) = set (Values s) - {x}"
    and contains: "invar s \<Longrightarrow> Contains xs s \<longleftrightarrow> set xs \<subseteq> set (Values s)"
    and len: "invar s \<Longrightarrow> Len s = length (Values s)"
begin

lemma len_card: "invar s \<Longrightarrow> Len s = card (set (Values s))"
  by (simp add: len distinct_card values_distinct)

lemma len_Add: "invar s \<Longrightarrow> Len (fst (Add x s)) = Len s + (if snd (Add x s) then 1 else 0)"
  by (simp add: len_card values_Add added invar_Add card_insert_if)

lemma Add_Contains: "invar s \<Longrightarrow> Contains [x] (fst (Add x s))"
  by (simp add: contains values_Add invar_Add)

lemma Del_Contains: "invar s \<Longrightarrow> Contains [y] (Del x s) \<longleftrightarrow> y \<noteq> x \<and> Contains [y] s"
  by (auto simp: contains values_Del invar_Del)

lemma Add_Del: "invar s \<Longrightarrow> snd (Add x s) \<Longrightarrow>
    set (Values (Del x (fst (Add x s)))) = set (Values s)"
  by (auto simp: values_Del values_Add invar_Add added)

end

lemma range_loop_append: "range_loop (\<lambda>v result. (result @ [v], True)) xs r = r @ xs"
  by (induction xs arbitrary: r) auto

lemma set_Values_eq [simp]: "set_Values s = s"
  by (simp add: set_Values_def set_Range_def range_loop_append)

lemma safeSet_Values_eq [simp]: "safeSet_Values s = s"
  by (simp add: safeSet_Values_def safeSet_Range_def range_loop_append)

lemma set_Contains_iff [simp]: "set_Contains vals s \<longleftrightarrow> set vals \<subseteq> set s"
  by (induction vals) auto

lemma safeSet_Contains_iff [simp]: "safeSet_Contains vals s \<longleftrightarrow> set vals \<subseteq> set s"
  by (induction vals) auto

interpretation gs: go_set set_Add set_Delete set_Contains set_Len set_Values distinct
  by unfold_locales (auto simp: set_Add_def set_Delete_def set_Len_def distinct_removeAll)

interpretation ss: go_set safeSet_Add safeSet_Delete safeSet_Contains safeSet_Len safeSet_Values distinct
  by unfold_locales (auto simp: safeSet_Add_def safeSet_Add_found_def safeSet_Add_store_def
      safeSet_Delete_def safeSet_Len_def distinct_removeAll)

section \<open>Sorted lists\<close>

text \<open>\<open>sortedList\<close>: \<open>container/list\<close>'s doubly linked list, front first.\<close>

fun sortedList_Insert :: "('a \<Rightarrow> int) \<Rightarrow> 'a \<Rightarrow> 'a list \<Rightarrow> 'a list" where
  "sortedList_Insert SortedValue item [] = [item]"
| "sortedList_Insert SortedValue item (v # l) =
     (if SortedValue v \<ge> SortedValue item then item # v # l
      else v # sortedList_Insert SortedValue item l)"

fun sortedList_Remove :: "'a \<Rightarrow> 'a list \<Rightarrow> 'a list" where
  "sortedList_Remove item [] = []"
| "sortedList_Remove item (v # l) = (if v = item then l else v # sortedList_Remove item l)"

fun sortedList_Contains :: "'a \<Rightarrow> 'a list \<Rightarrow> bool" where
  "sortedList_Contains item [] = False"
| "sortedList_Contains item (v # l) = (if v = item then True else sortedList_Contains item l)"

definition sortedList_Len :: "'a list \<Rightarrow> nat" where
  "sortedList_Len l = length l"

definition sortedList_Range :: "('a \<Rightarrow> 's \<Rightarrow> 's \<times> bool) \<Rightarrow> 'a list \<Rightarrow> 's \<Rightarrow> 's" where
  "sortedList_Range fn l s = range_loop fn l s"

definition sortedList_ReverseRange :: "('a \<Rightarrow> 's \<Rightarrow> 's \<times> bool) \<Rightarrow> 'a list \<Rightarrow> 's \<Rightarrow> 's" where
  "sortedList_ReverseRange fn l s = range_loop fn (rev l) s"

section \<open>Sorted lists without duplicates\<close>

record 'a sortedUniqueList =
  ul_container :: "'a list"
  ul_data :: "'a goset"

definition NewSortedUniqueList :: "'a sortedUniqueList" where
  "NewSortedUniqueList = \<lparr>ul_container = [], ul_data = set_New\<rparr>"

definition ul_Len :: "'a sortedUniqueList \<Rightarrow> nat" where
  "ul_Len ul = sortedList_Len (ul_container ul)"

definition ul_Insert :: "('a \<Rightarrow> int) \<Rightarrow> 'a \<Rightarrow> 'a sortedUniqueList \<Rightarrow> 'a sortedUniqueList" where
  "ul_Insert SortedValue item ul =
     (if set_Contains [item] (ul_data ul)
      then ul\<lparr>ul_container := sortedList_Insert SortedValue item
                               (sortedList_Remove item (ul_container ul))\<rparr>
      else ul\<lparr>ul_data := fst (set_Add item (ul_data ul)),
              ul_container := sortedList_Insert SortedValue item (ul_container ul)\<rparr>)"

definition ul_Remove :: "'a \<Rightarrow> 'a sortedUniqueList \<Rightarrow> 'a sortedUniqueList" where
  "ul_Remove item ul =
     ul\<lparr>ul_data := set_Delete item (ul_data ul),
        ul_container := sortedList_Remove item (ul_container ul)\<rparr>"

definition ul_Contains :: "'a \<Rightarrow> 'a sortedUniqueList \<Rightarrow> bool" where
  "ul_Contains item ul = set_Contains [item] (ul_data ul)"

definition ul_Range :: "('a \<Rightarrow> 's \<Rightarrow> 's \<times> bool) \<Rightarrow> 'a sortedUniqueList \<Rightarrow> 's \<Rightarrow> 's" where
  "ul_Range fn ul s = sortedList_Range fn (ul_container ul) s"

definition ul_ReverseRange :: "('a \<Rightarrow> 's \<Rightarrow> 's \<times> bool) \<Rightarrow> 'a sortedUniqueList \<Rightarrow> 's \<Rightarrow> 's" where
  "ul_ReverseRange fn ul s = sortedList_ReverseRange fn (ul_container ul) s"

text \<open>The list and the set hold the same items, each once.\<close>

definition ul_invar :: "'a sortedUniqueList \<Rightarrow> bool" where
  "ul_invar ul \<longleftrightarrow> distinct (ul_container ul) \<and> distinct (ul_data ul)
     \<and> set (ul_container ul) = set (ul_data ul)"

definition ascending :: "('a \<Rightarrow> int) \<Rightarrow> 'a list \<Rightarrow> bool" where
  "ascending val xs \<longleftrightarrow> sorted_wrt (\<lambda>a b. val a \<le> val b) xs"

subsection \<open>The interface of a sorted container\<close>

datatype 'a list_op = OpInsert 'a | OpRemove 'a

locale sorted_container =
  fixes items :: "'c \<Rightarrow> 'a list"
    and Ins :: "('a \<Rightarrow> int) \<Rightarrow> 'a \<Rightarrow> 'c \<Rightarrow> 'c"
    and Rem :: "'a \<Rightarrow> 'c \<Rightarrow> 'c"
    and Contains :: "'a \<Rightarrow> 'c \<Rightarrow> bool"
    and Len :: "'c \<Rightarrow> nat"
    and invar :: "'c \<Rightarrow> bool"
  assumes invar_Ins: "invar c \<Longrightarrow> invar (Ins val x c)"
    and invar_Rem: "invar c \<Longrightarrow> invar (Rem x c)"
    and set_Ins: "invar c \<Longrightarrow> set (items (Ins val x c)) = insert x (set (items c))"
    and asc_Ins: "invar c \<Longrightarrow> ascending val (items c) \<Longrightarrow> ascending val (items (Ins val x c))"
    and items_Rem: "invar c \<Longrightarrow> items (Rem x c) = remove1 x (items c)"
    and contains: "invar c \<Longrightarrow> Contains x c \<longleftrightarrow> x \<in> set (items c)"
    and len: "invar c \<Longrightarrow> Len c = length (items c)"
begin

primrec step :: "('a \<Rightarrow> int) \<Rightarrow> 'a list_op \<Rightarrow> 'c \<Rightarrow> 'c" where
  "step val (OpInsert x) c = Ins val x c"
| "step val (OpRemove x) c = Rem x c"

lemma asc_Rem: "invar c \<Longrightarrow> ascending val (items c) \<Longrightarrow> ascending val (items (Rem x c))"
  by (simp add: items_Rem ascending_def sorted_wrt_remove1)

lemma step_keeps:
  "invar c \<Longrightarrow> ascending val (items c) \<Longrightarrow> invar (step val e c) \<and> ascending val (items (step val e c))"
  by (cases e) (auto simp: invar_Ins invar_Rem asc_Ins asc_Rem)

lemma run_keeps:
  "invar c \<Longrightarrow> ascending val (items c) \<Longrightarrow>
   invar (fold (step val) es c) \<and> ascending val (items (fold (step val) es c))"
  by (induction es arbitrary: c) (auto dest: step_keeps[of _ val])

lemma contains_Ins: "invar c \<Longrightarrow> Contains y (Ins val x c) \<longleftrightarrow> y = x \<or> Contains y c"
  by (auto simp: contains invar_Ins set_Ins)

end

lemma set_sortedList_Insert [simp]: "set (sortedList_Insert val x l) = insert x (set l)"
  by (induction l) auto

lemma mset_sortedList_Insert: "mset (sortedList_Insert val x l) = add_mset x (mset l)"
  by (induction l) auto

lemma length_sortedList_Insert [simp]: "length (sortedList_Insert val x l) = Suc (length l)"
  by (induction l) auto

lemma distinct_sortedList_Insert [simp]:
  "distinct (sortedList_Insert val x l) \<longleftrightarrow> x \<notin> set l \<and> distinct l"
  by (induction l) auto

lemma ascending_Insert: "ascending val l \<Longrightarrow> ascending val (sortedList_Insert val x l)"
  unfolding ascending_def by (induction l) force+

lemma sortedList_Remove_eq [simp]: "sortedList_Remove x l = remove1 x l"
  by (induction l) auto

lemma sortedList_Contains_iff [simp]: "sortedList_Contains x l \<longleftrightarrow> x \<in> set l"
  by (induction l) auto

interpretation sl: sorted_container "\<lambda>l. l" sortedList_Insert sortedList_Remove
  sortedList_Contains sortedList_Len "\<lambda>_. True"
  by unfold_locales (auto simp: ascending_Insert sortedList_Len_def)

lemma remove1_insert_set: "distinct l \<Longrightarrow> x \<in> set l \<Longrightarrow> insert x (set (remove1 x l)) = set l"
  by (auto simp: set_remove1_eq)

lemma ul_container_Insert:
  "ul_invar ul \<Longrightarrow>
   ul_container (ul_Insert val x ul) = sortedList_Insert val x (remove1 x (ul_container ul))"
  by (simp add: ul_Insert_def ul_invar_def remove1_idem)

lemma ul_invar_Insert: "ul_invar ul \<Longrightarrow> ul_invar (ul_Insert val x ul)"
  by (auto simp: ul_invar_def ul_Insert_def set_Add_def distinct_remove1)

lemma ul_invar_Remove: "ul_invar ul \<Longrightarrow> ul_invar (ul_Remove x ul)"
  by (auto simp: ul_invar_def ul_Remove_def set_Delete_def distinct_remove1 distinct_removeAll)

lemma ul_invar_New [simp]: "ul_invar NewSortedUniqueList"
  by (simp add: ul_invar_def NewSortedUniqueList_def set_New_def)

interpretation sul: sorted_container ul_container ul_Insert ul_Remove ul_Contains ul_Len ul_invar
proof unfold_locales
  fix val and x and c :: "'a sortedUniqueList"
  assume inv: "ul_invar c"
  show "ul_invar (ul_Insert val x c)" "ul_invar (ul_Remove x c)"
    using inv by (simp_all add: ul_invar_Insert ul_invar_Remove)
  show "set (ul_container (ul_Insert val x c)) = insert x (set (ul_container c))"
    using inv by (auto simp: ul_container_Insert ul_invar_def)
  show "ascending val (ul_container c) \<Longrightarrow> ascending val (ul_container (ul_Insert val x c))"
    using inv by (simp add: ul_container_Insert ascending_Insert sorted_wrt_remove1
        ascending_def[of _ "remove1 _ _"] ascending_def[of _ "ul_container _"])
  show "ul_container (ul_Remove x c) = remove1 x (ul_container c)"
    by (simp add: ul_Remove_def)
  show "ul_Contains x c \<longleftrightarrow> x \<in> set (ul_container c)"
    using inv by (simp add: ul_Contains_def ul_invar_def)
  show "ul_Len c = length (ul_container c)"
    by (simp add: ul_Len_def sortedList_Len_def)
qed

text \<open>
  Re-inserting an item whose value changed restores the order, provided the other items
  are in order: this is how a task updates a peer's place.
\<close>

lemma ul_Insert_restores_order:
  assumes "ul_invar ul" and "ascending val (remove1 x (ul_container ul))"
  shows "ascending val (ul_container (ul_Insert val x ul))"
  using assms by (simp add: ul_container_Insert ascending_Insert)

subsection \<open>Refinement\<close>

primrec ul_apply :: "('a \<Rightarrow> int) \<Rightarrow> 'a list_op \<Rightarrow> 'a sortedUniqueList \<Rightarrow> 'a sortedUniqueList" where
  "ul_apply val (OpInsert x) = ul_Insert val x"
| "ul_apply val (OpRemove x) = ul_Remove x"

primrec set_apply :: "'a list_op \<Rightarrow> 'a set \<Rightarrow> 'a set" where
  "set_apply (OpInsert x) = insert x"
| "set_apply (OpRemove x) = (\<lambda>S. S - {x})"

lemma ul_apply_step: "ul_apply val = sul.step val"
proof
  show "ul_apply val e = sul.step val e" for e by (cases e) (simp_all add: fun_eq_iff)
qed

lemma ul_apply_abs: "ul_invar ul \<Longrightarrow> set (ul_container (ul_apply val e ul)) = set_apply e (set (ul_container ul))"
  by (cases e) (auto simp: sul.set_Ins sul.items_Rem ul_invar_def)

lemma ul_run_abs:
  "ul_invar ul \<Longrightarrow> set (ul_container (fold (ul_apply val) es ul)) = fold set_apply es (set (ul_container ul))"
proof (induction es arbitrary: ul)
  case (Cons e es)
  have "ul_invar (ul_apply val e ul)"
    using Cons.prems by (cases e) (simp_all add: ul_invar_Insert ul_invar_Remove)
  with Cons show ?case by (simp add: ul_apply_abs)
qed simp

text \<open>
  C15. After any sequence of insertions and removals the sorted unique list holds exactly the items
  of the set that the same operations build, each once, in ascending order, and \<open>Len\<close> and
  \<open>Contains\<close> answer for that set.
\<close>

theorem unique_list_refines_set:
  fixes val :: "'a \<Rightarrow> int" and es :: "'a list_op list"
  defines "ul \<equiv> fold (ul_apply val) es NewSortedUniqueList" and "S \<equiv> fold set_apply es {}"
  shows "set (ul_container ul) = S \<and> distinct (ul_container ul) \<and> ascending val (ul_container ul) \<and>
    ul_Len ul = card S \<and> (ul_Contains x ul \<longleftrightarrow> x \<in> S)"
proof -
  have new: "ul_container NewSortedUniqueList = []" by (simp add: NewSortedUniqueList_def)
  have run: "ul_invar ul \<and> ascending val (ul_container ul)"
    unfolding ul_def ul_apply_step by (rule sul.run_keeps) (simp_all add: new ascending_def)
  moreover have "set (ul_container ul) = S"
    unfolding ul_def S_def using ul_run_abs[of NewSortedUniqueList val es] by (simp add: new)
  moreover have "card (set (ul_container ul)) = length (ul_container ul)"
    using run by (intro distinct_card) (simp add: ul_invar_def)
  moreover have "distinct (ul_container ul)" using run by (simp add: ul_invar_def)
  ultimately show ?thesis by (auto simp: sul.contains sul.len)
qed

end
