(* ===== verification/Supervisor_Model.thy ===== *)
theory Supervisor_Model
  imports Containers
begin

text \<open>
  The data and the operations of \<open>scheduler/supervisor\<close>: hosts, tasks and peers, the
  managers that register them, the peer tree and the garbage collectors.

  Go shares hosts, tasks, peers and channels by pointer, and the aliasing matters (a host's
  load is read by every peer on it; a peer that a manager has dropped is still some peer's
  parent), so the model has a heap: a reference is a number, each kind of object has a
  total map from references to records and a count of the references in use. A nil
  pointer is \<^term>\<open>None\<close>. Each method is one function on the heap. A method's own lock
  makes it atomic; a handler that calls several methods is modelled as one step.
\<close>

section \<open>Messages\<close>

datatype Code =
  Code_X_UNSPECIFIED | Code_Success | Code_ServerUnavailable | Code_ResourceLacked
  | Code_BadRequest | Code_PeerTaskNotFound | Code_UnknownError | Code_RequestTimeOut
  | Code_ClientError | Code_ClientPieceRequestFail | Code_ClientScheduleTimeout
  | Code_ClientContextCanceled | Code_ClientWaitPieceReady | Code_ClientPieceDownloadFail
  | Code_ClientRequestLimitFail | Code_SchedError | Code_SchedNeedBackSource
  | Code_SchedPeerGone | Code_SchedPeerNotFound | Code_SchedPeerPieceResultReportFail
  | Code_SchedTaskStatusError | Code_CDNError | Code_CDNTaskRegistryFail
  | Code_CDNTaskDownloadFail | Code_CDNTaskNotFound | Code_InvalidResourceType
  | Code_Other int

datatype SizeScope = SizeScope_NORMAL | SizeScope_SMALL | SizeScope_TINY

record UrlMeta =
  um_Digest :: string
  um_Tag :: string
  um_Range :: string
  um_Filter :: string

record PieceInfo =
  PieceNum :: int32
  RangeStart :: uint64
  RangeSize :: uint32
  PieceMd5 :: string
  PieceOffset :: uint64
  PieceStyle :: int

record DestPeer =
  dp_Ip :: string
  dp_RpcPort :: int32
  dp_PeerId :: string

record PeerPacket =
  pp_TaskId :: string
  pp_SrcPid :: string
  pp_ParallelCount :: int32
  pp_MainPeer :: DestPeer
  pp_StealPeers :: "DestPeer list"
  pp_Code :: Code

section \<open>Objects\<close>

type_synonym host_ref = nat
type_synonym task_ref = nat
type_synonym peer_ref = nat
type_synonym chan_ref = nat

record Host =
  h_UUID :: string
  h_IP :: string
  h_HostName :: string
  h_RPCPort :: int32
  h_DownloadPort :: int32
  h_IsCDN :: bool
  h_SecurityDomain :: string
  h_Location :: string
  h_IDC :: string
  h_NetTopology :: string
  h_TotalUploadLoad :: uint32
  h_CurrentUploadLoad :: uint32
  h_peers :: "(string, peer_ref) gomap"

datatype TaskStatus =
  TaskStatusWaiting | TaskStatusRunning | TaskStatusSeeding | TaskStatusSuccess
  | TaskStatusZombie | TaskStatusFail

record Task =
  t_ID :: string
  t_URL :: string
  t_URLMeta :: "UrlMeta option"
  t_DirectPiece :: "uint8 list"
  t_ContentLength :: int64
  t_CreateAt :: time
  t_LastTriggerAt :: time
  t_lastAccessAt :: time
  t_status :: TaskStatus
  t_peers :: "peer_ref sortedUniqueList"
  t_BackToSourceWeight :: int32
  t_backToSourcePeers :: "string list"
  t_pieces :: "(int32, PieceInfo) gomap"
  t_TotalPieceCount :: int32

datatype PeerStatus =
  PeerStatusWaiting | PeerStatusRunning | PeerStatusZombie | PeerStatusFail | PeerStatusSuccess

record Peer =
  p_ID :: string
  p_Task :: task_ref
  p_Host :: host_ref
  p_TotalPieceCount :: int32
  p_CreateAt :: time
  p_lastAccessAt :: time
  p_parent :: "peer_ref option"
  p_children :: "(string, peer_ref) gomap"
  p_status :: PeerStatus
  p_pieceCosts :: "int list"
  p_conn :: "chan_ref option"
  p_leave :: bool

text \<open>
  What the handlers see of a channel. \<open>c_closing\<close>: \<open>Close\<close> has won its compare-and-swap
  and its goroutine has yet to close \<open>done\<close>. \<open>c_sender_waiting\<close>: the send loop is blocked in
  its \<open>select\<close>, so a send on the unbuffered \<open>sender\<close> can proceed. \<open>c_pick_done\<close>: the case
  the runtime takes when both cases of \<open>Send\<close>'s \<open>select\<close> are ready.
\<close>

datatype error = DfError Code string | StreamError string

record Channel =
  c_closed :: bool
  c_closing :: bool
  c_done :: bool
  c_err :: "error option"
  c_sender_waiting :: bool
  c_pick_done :: bool
  c_sent :: "PeerPacket list"

record heap =
  host_at :: "host_ref \<Rightarrow> Host"
  task_at :: "task_ref \<Rightarrow> Task"
  peer_at :: "peer_ref \<Rightarrow> Peer"
  chan_at :: "chan_ref \<Rightarrow> Channel"
  next_host :: nat
  next_task :: nat
  next_peer :: nat
  next_chan :: nat
  hostManager :: "(string, host_ref) gomap"
  taskManager :: "(string, task_ref) gomap"
  peerManager :: "(string, peer_ref) gomap"

record GCConfig =
  PeerTTL :: time
  PeerTTI :: time
  TaskTTL :: time
  TaskTTI :: time

definition upd_host :: "host_ref \<Rightarrow> (Host \<Rightarrow> Host) \<Rightarrow> heap \<Rightarrow> heap" where
  "upd_host r f h = h\<lparr>host_at := (host_at h)(r := f (host_at h r))\<rparr>"

definition upd_task :: "task_ref \<Rightarrow> (Task \<Rightarrow> Task) \<Rightarrow> heap \<Rightarrow> heap" where
  "upd_task r f h = h\<lparr>task_at := (task_at h)(r := f (task_at h r))\<rparr>"

definition upd_peer :: "peer_ref \<Rightarrow> (Peer \<Rightarrow> Peer) \<Rightarrow> heap \<Rightarrow> heap" where
  "upd_peer r f h = h\<lparr>peer_at := (peer_at h)(r := f (peer_at h r))\<rparr>"

definition upd_chan :: "chan_ref \<Rightarrow> (Channel \<Rightarrow> Channel) \<Rightarrow> heap \<Rightarrow> heap" where
  "upd_chan r f h = h\<lparr>chan_at := (chan_at h)(r := f (chan_at h r))\<rparr>"

section \<open>Hosts (\<open>host.go\<close>)\<close>

definition HostMaxLoad :: int32 where
  "HostMaxLoad = 5 * 1000"

definition hostManager_Get :: "string \<Rightarrow> heap \<Rightarrow> host_ref option" where
  "hostManager_Get key h = Load (hostManager h) key"

definition hostManager_Add :: "host_ref \<Rightarrow> heap \<Rightarrow> heap" where
  "hostManager_Add host h = h\<lparr>hostManager := Store (h_UUID (host_at h host)) host (hostManager h)\<rparr>"

definition hostManager_Delete :: "string \<Rightarrow> heap \<Rightarrow> heap" where
  "hostManager_Delete key h = h\<lparr>hostManager := Delete key (hostManager h)\<rparr>"

definition WithTotalUploadLoad :: "uint32 \<Rightarrow> Host \<Rightarrow> Host" where
  "WithTotalUploadLoad load host = host\<lparr>h_TotalUploadLoad := load\<rparr>"

definition WithNetTopology :: "string \<Rightarrow> Host \<Rightarrow> Host" where
  "WithNetTopology n host = host\<lparr>h_NetTopology := n\<rparr>"

definition newHost ::
  "string \<Rightarrow> string \<Rightarrow> string \<Rightarrow> int32 \<Rightarrow> int32 \<Rightarrow> bool \<Rightarrow> string \<Rightarrow> string \<Rightarrow> string
   \<Rightarrow> (Host \<Rightarrow> Host) list \<Rightarrow> Host" where
  "newHost uuid ip hostname rpcPort downloadPort isCDN securityDomain location idc options =
     fold (\<lambda>opt host. opt host) options
       \<lparr>h_UUID = uuid, h_IP = ip, h_HostName = hostname, h_RPCPort = rpcPort,
        h_DownloadPort = downloadPort, h_IsCDN = isCDN, h_SecurityDomain = securityDomain,
        h_Location = location, h_IDC = idc, h_NetTopology = [], h_TotalUploadLoad = 100,
        h_CurrentUploadLoad = 0, h_peers = []\<rparr>"

definition NewClientHost ::
  "string \<Rightarrow> string \<Rightarrow> string \<Rightarrow> int32 \<Rightarrow> int32 \<Rightarrow> string \<Rightarrow> string \<Rightarrow> string
   \<Rightarrow> (Host \<Rightarrow> Host) list \<Rightarrow> Host" where
  "NewClientHost uuid ip hostname rpcPort downloadPort securityDomain location idc options =
     newHost uuid ip hostname rpcPort downloadPort False securityDomain location idc options"

definition NewCDNHost ::
  "string \<Rightarrow> string \<Rightarrow> string \<Rightarrow> int32 \<Rightarrow> int32 \<Rightarrow> string \<Rightarrow> string \<Rightarrow> string
   \<Rightarrow> (Host \<Rightarrow> Host) list \<Rightarrow> Host" where
  "NewCDNHost uuid ip hostname rpcPort downloadPort securityDomain location idc options =
     newHost uuid ip hostname rpcPort downloadPort True securityDomain location idc options"

text \<open>\<open>&Host{...}\<close>: the new object's reference and the heap that holds it.\<close>

definition alloc_host :: "Host \<Rightarrow> heap \<Rightarrow> host_ref \<times> heap" where
  "alloc_host host h =
     (next_host h, h\<lparr>host_at := (host_at h)(next_host h := host), next_host := Suc (next_host h)\<rparr>)"

definition Host_AddPeer :: "host_ref \<Rightarrow> peer_ref \<Rightarrow> heap \<Rightarrow> heap" where
  "Host_AddPeer hr peer h =
     upd_host hr (\<lambda>host. host\<lparr>h_peers := Store (p_ID (peer_at h peer)) peer (h_peers host)\<rparr>) h"

definition Host_DeletePeer :: "host_ref \<Rightarrow> string \<Rightarrow> heap \<Rightarrow> heap" where
  "Host_DeletePeer hr key h = upd_host hr (\<lambda>host. host\<lparr>h_peers := Delete key (h_peers host)\<rparr>) h"

definition Host_GetPeer :: "host_ref \<Rightarrow> string \<Rightarrow> heap \<Rightarrow> peer_ref option" where
  "Host_GetPeer hr key h = Load (h_peers (host_at h hr)) key"

definition GetPeersLen :: "host_ref \<Rightarrow> heap \<Rightarrow> nat" where
  "GetPeersLen hr h = range_loop (\<lambda>_ length. (length + 1, True)) (h_peers (host_at h hr)) 0"

definition GetFreeUploadLoad :: "Host \<Rightarrow> int32" where
  "GetFreeUploadLoad host = h_TotalUploadLoad host - h_CurrentUploadLoad host"

section \<open>Peers (\<open>peer.go\<close>)\<close>

definition NewPeer :: "string \<Rightarrow> task_ref \<Rightarrow> host_ref \<Rightarrow> time \<Rightarrow> heap \<Rightarrow> peer_ref \<times> heap" where
  "NewPeer key task host now h =
     (next_peer h,
      h\<lparr>peer_at := (peer_at h)(next_peer h :=
           \<lparr>p_ID = key, p_Task = task, p_Host = host, p_TotalPieceCount = 0, p_CreateAt = now,
            p_lastAccessAt = now, p_parent = None, p_children = [],
            p_status = PeerStatusWaiting, p_pieceCosts = [], p_conn = None, p_leave = False\<rparr>),
        next_peer := Suc (next_peer h)\<rparr>)"

definition peerManager_Get :: "string \<Rightarrow> heap \<Rightarrow> peer_ref option" where
  "peerManager_Get key h = Load (peerManager h) key"

definition peerHost :: "heap \<Rightarrow> peer_ref \<Rightarrow> Host" where
  "peerHost h peer = host_at h (p_Host (peer_at h peer))"

definition peerTask :: "heap \<Rightarrow> peer_ref \<Rightarrow> Task" where
  "peerTask h peer = task_at h (p_Task (peer_at h peer))"

definition getFreeLoad :: "heap \<Rightarrow> peer_ref \<Rightarrow> int32" where
  "getFreeLoad h peer = GetFreeUploadLoad (peerHost h peer)"

definition SortedValue :: "heap \<Rightarrow> peer_ref \<Rightarrow> int" where
  "SortedValue h peer =
     (let pieceCount = p_TotalPieceCount (peer_at h peer);
          freeLoad = getFreeLoad h peer
      in if h_IsCDN (peerHost h peer) then sint (pieceCount * HostMaxLoad)
         else sint (pieceCount * HostMaxLoad + freeLoad))"

definition GetParent :: "heap \<Rightarrow> peer_ref \<Rightarrow> peer_ref option" where
  "GetParent h peer = p_parent (peer_at h peer)"

definition SetParent :: "peer_ref \<Rightarrow> peer_ref option \<Rightarrow> heap \<Rightarrow> heap" where
  "SetParent peer parent h = upd_peer peer (\<lambda>p. p\<lparr>p_parent := parent\<rparr>) h"

subsection \<open>The operations of \<open>task.go\<close> that peers call\<close>

definition Task_Touch :: "task_ref \<Rightarrow> time \<Rightarrow> heap \<Rightarrow> heap" where
  "Task_Touch task now h = upd_task task (\<lambda>t. t\<lparr>t_lastAccessAt := now\<rparr>) h"

definition Task_AddPeer :: "task_ref \<Rightarrow> peer_ref \<Rightarrow> heap \<Rightarrow> heap" where
  "Task_AddPeer task peer h =
     upd_task task (\<lambda>t. t\<lparr>t_peers := ul_Insert (SortedValue h) peer (t_peers t)\<rparr>) h"

definition Task_UpdatePeer :: "task_ref \<Rightarrow> peer_ref \<Rightarrow> heap \<Rightarrow> heap" where
  "Task_UpdatePeer task peer h =
     upd_task task (\<lambda>t. t\<lparr>t_peers := ul_Insert (SortedValue h) peer (t_peers t)\<rparr>) h"

definition Task_DeletePeer :: "task_ref \<Rightarrow> peer_ref \<Rightarrow> heap \<Rightarrow> heap" where
  "Task_DeletePeer task peer h =
     upd_task task (\<lambda>t. t\<lparr>t_peers := ul_Remove peer (t_peers t)\<rparr>) h"

subsection \<open>The peer tree\<close>

definition insertChild :: "peer_ref \<Rightarrow> peer_ref \<Rightarrow> heap \<Rightarrow> heap" where
  "insertChild peer child h =
     (let h1 = upd_peer peer
                 (\<lambda>p. p\<lparr>p_children := Store (p_ID (peer_at h child)) child (p_children p)\<rparr>) h;
          h2 = upd_host (p_Host (peer_at h peer))
                 (\<lambda>host. host\<lparr>h_CurrentUploadLoad := h_CurrentUploadLoad host + 1\<rparr>) h1
      in Task_UpdatePeer (p_Task (peer_at h peer)) peer h2)"

definition deleteChild :: "peer_ref \<Rightarrow> peer_ref \<Rightarrow> heap \<Rightarrow> heap" where
  "deleteChild peer child h =
     (let h1 = upd_peer peer
                 (\<lambda>p. p\<lparr>p_children := Delete (p_ID (peer_at h child)) (p_children p)\<rparr>) h;
          h2 = upd_host (p_Host (peer_at h peer))
                 (\<lambda>host. host\<lparr>h_CurrentUploadLoad := h_CurrentUploadLoad host - 1\<rparr>) h1
      in Task_UpdatePeer (p_Task (peer_at h peer)) peer h2)"

definition ReplaceParent :: "peer_ref \<Rightarrow> peer_ref option \<Rightarrow> heap \<Rightarrow> heap" where
  "ReplaceParent peer parent h =
     (let h1 = (case GetParent h peer of Some oldParent \<Rightarrow> deleteChild oldParent peer h | None \<Rightarrow> h);
          h2 = SetParent peer parent h1
      in case parent of Some q \<Rightarrow> insertChild q peer h2 | None \<Rightarrow> h2)"

text \<open>
  The loops that climb the tree. \<^term>\<open>None\<close>: the loop never ends, as the comment
  "TODO avoid circulation" in the source warns.
\<close>

partial_function (option) isDescendant_loop :: "heap \<Rightarrow> string \<Rightarrow> peer_ref \<Rightarrow> bool option" where
  "isDescendant_loop h ancestorID node =
     (case GetParent h node of
        None \<Rightarrow> Some False
      | Some parent \<Rightarrow>
          if p_ID (peer_at h parent) = ancestorID then Some True
          else isDescendant_loop h ancestorID parent)"

definition isDescendant :: "heap \<Rightarrow> peer_ref \<Rightarrow> peer_ref \<Rightarrow> bool option" where
  "isDescendant h ancestor offspring = isDescendant_loop h (p_ID (peer_at h ancestor)) offspring"

definition IsDescendant :: "heap \<Rightarrow> peer_ref \<Rightarrow> peer_ref \<Rightarrow> bool option" where
  "IsDescendant h peer ancestor = isDescendant h ancestor peer"

definition IsAncestor :: "heap \<Rightarrow> peer_ref \<Rightarrow> peer_ref \<Rightarrow> bool option" where
  "IsAncestor h peer offspring = isDescendant h peer offspring"

partial_function (option) GetTreeDepth_loop :: "heap \<Rightarrow> peer_ref \<Rightarrow> nat \<Rightarrow> nat option" where
  "GetTreeDepth_loop h node deep =
     (case GetParent h node of
        None \<Rightarrow> Some (deep + 1)
      | Some parent \<Rightarrow>
          if h_IsCDN (peerHost h node) then Some (deep + 1)
          else GetTreeDepth_loop h parent (deep + 1))"

definition GetTreeDepth :: "heap \<Rightarrow> peer_ref \<Rightarrow> nat option" where
  "GetTreeDepth h peer = GetTreeDepth_loop h peer 0"

partial_function (option) GetRoot_loop :: "heap \<Rightarrow> peer_ref \<Rightarrow> peer_ref option" where
  "GetRoot_loop h node =
     (case GetParent h node of
        None \<Rightarrow> Some node
      | Some parent \<Rightarrow> if h_IsCDN (peerHost h node) then Some node else GetRoot_loop h parent)"

definition GetRoot :: "heap \<Rightarrow> peer_ref \<Rightarrow> peer_ref option" where
  "GetRoot h peer = GetRoot_loop h peer"

subsection \<open>Status, progress, connection\<close>

definition SetStatus :: "peer_ref \<Rightarrow> PeerStatus \<Rightarrow> heap \<Rightarrow> heap" where
  "SetStatus peer status h = upd_peer peer (\<lambda>p. p\<lparr>p_status := status\<rparr>) h"

definition Leave :: "peer_ref \<Rightarrow> heap \<Rightarrow> heap" where
  "Leave peer h = upd_peer peer (\<lambda>p. p\<lparr>p_leave := True\<rparr>) h"

definition IsLeave :: "heap \<Rightarrow> peer_ref \<Rightarrow> bool" where
  "IsLeave h peer = p_leave (peer_at h peer)"

definition IsRunning :: "heap \<Rightarrow> peer_ref \<Rightarrow> bool" where
  "IsRunning h peer \<longleftrightarrow> p_status (peer_at h peer) = PeerStatusRunning"

definition IsWaiting :: "heap \<Rightarrow> peer_ref \<Rightarrow> bool" where
  "IsWaiting h peer \<longleftrightarrow> p_status (peer_at h peer) = PeerStatusWaiting"

definition IsSuccess :: "heap \<Rightarrow> peer_ref \<Rightarrow> bool" where
  "IsSuccess h peer \<longleftrightarrow> p_status (peer_at h peer) = PeerStatusSuccess"

definition IsDone :: "heap \<Rightarrow> peer_ref \<Rightarrow> bool" where
  "IsDone h peer \<longleftrightarrow> p_status (peer_at h peer) = PeerStatusSuccess
     \<or> p_status (peer_at h peer) = PeerStatusFail"

definition IsBad :: "heap \<Rightarrow> peer_ref \<Rightarrow> bool" where
  "IsBad h peer \<longleftrightarrow> p_status (peer_at h peer) = PeerStatusFail
     \<or> p_status (peer_at h peer) = PeerStatusZombie"

definition IsFail :: "heap \<Rightarrow> peer_ref \<Rightarrow> bool" where
  "IsFail h peer \<longleftrightarrow> p_status (peer_at h peer) = PeerStatusFail"

definition Touch :: "peer_ref \<Rightarrow> time \<Rightarrow> heap \<Rightarrow> heap" where
  "Touch peer now h =
     (let h1 = upd_peer peer (\<lambda>p. p\<lparr>p_lastAccessAt := now\<rparr>) h;
          h2 = (if p_status (peer_at h1 peer) = PeerStatusZombie \<and> \<not> p_leave (peer_at h1 peer)
                then SetStatus peer PeerStatusRunning h1 else h1)
      in Task_Touch (p_Task (peer_at h peer)) now h2)"

definition SetPieceCosts :: "peer_ref \<Rightarrow> int list \<Rightarrow> heap \<Rightarrow> heap" where
  "SetPieceCosts peer costs h = upd_peer peer (\<lambda>p. p\<lparr>p_pieceCosts := p_pieceCosts p @ costs\<rparr>) h"

definition UpdateProgress :: "peer_ref \<Rightarrow> int32 \<Rightarrow> int \<Rightarrow> heap \<Rightarrow> heap" where
  "UpdateProgress peer finishedCount cost h =
     (if sint finishedCount > sint (p_TotalPieceCount (peer_at h peer))
      then let h1 = upd_peer peer (\<lambda>p. p\<lparr>p_TotalPieceCount := finishedCount\<rparr>) h;
               h2 = SetPieceCosts peer [cost] h1
           in Task_UpdatePeer (p_Task (peer_at h peer)) peer h2
      else h)"

definition newChannel :: "bool \<Rightarrow> bool \<Rightarrow> Channel" where
  "newChannel waiting pick =
     \<lparr>c_closed = False, c_closing = False, c_done = False, c_err = None,
      c_sender_waiting = waiting, c_pick_done = pick, c_sent = []\<rparr>"

definition BindNewConn :: "peer_ref \<Rightarrow> Channel \<Rightarrow> heap \<Rightarrow> chan_ref \<times> heap" where
  "BindNewConn peer chan h =
     (let h1 = (if p_status (peer_at h peer) = PeerStatusWaiting
                then SetStatus peer PeerStatusRunning h else h);
          c = next_chan h1;
          h2 = h1\<lparr>chan_at := (chan_at h1)(c := chan), next_chan := Suc c\<rparr>
      in (c, upd_peer peer (\<lambda>p. p\<lparr>p_conn := Some c\<rparr>) h2))"

definition IsConnected :: "heap \<Rightarrow> peer_ref \<Rightarrow> bool" where
  "IsConnected h peer =
     (case p_conn (peer_at h peer) of None \<Rightarrow> False | Some c \<Rightarrow> \<not> c_closed (chan_at h c))"

datatype send_error = NotConnected | ConnClosed | ErrChannelBusy

definition Channel_Send :: "PeerPacket \<Rightarrow> Channel \<Rightarrow> send_error option \<times> Channel" where
  "Channel_Send packet c =
     (if c_done c \<and> (c_pick_done c \<or> \<not> c_sender_waiting c) then (Some ConnClosed, c)
      else if c_sender_waiting c
      then (None, c\<lparr>c_sender_waiting := False, c_sent := c_sent c @ [packet]\<rparr>)
      else (Some ErrChannelBusy, c))"

definition Channel_Close :: "Channel \<Rightarrow> Channel" where
  "Channel_Close c = (if c_closed c then c else c\<lparr>c_closed := True, c_closing := True\<rparr>)"

definition SendSchedulePacket :: "peer_ref \<Rightarrow> PeerPacket \<Rightarrow> heap \<Rightarrow> send_error option \<times> heap" where
  "SendSchedulePacket peer packet h =
     (case p_conn (peer_at h peer) of
        None \<Rightarrow> (Some NotConnected, h)
      | Some c \<Rightarrow> (case Channel_Send packet (chan_at h c) of
                     (r, ch) \<Rightarrow> (r, h\<lparr>chan_at := (chan_at h)(c := ch)\<rparr>)))"

definition CloseChannelWithError :: "peer_ref \<Rightarrow> error \<Rightarrow> heap \<Rightarrow> send_error option \<times> heap" where
  "CloseChannelWithError peer err h =
     (case p_conn (peer_at h peer) of
        None \<Rightarrow> (Some NotConnected, h)
      | Some c \<Rightarrow> (None, upd_chan c (\<lambda>ch. Channel_Close (ch\<lparr>c_err := Some err\<rparr>)) h))"

section \<open>Tasks (\<open>task.go\<close>)\<close>

definition TinyFileSize :: int where
  "TinyFileSize = 128"

definition NewTask :: "string \<Rightarrow> string \<Rightarrow> UrlMeta option \<Rightarrow> time \<Rightarrow> heap \<Rightarrow> task_ref \<times> heap" where
  "NewTask key url meta now h =
     (next_task h,
      h\<lparr>task_at := (task_at h)(next_task h :=
           \<lparr>t_ID = key, t_URL = url, t_URLMeta = meta, t_DirectPiece = [], t_ContentLength = 0,
            t_CreateAt = now, t_LastTriggerAt = now, t_lastAccessAt = now,
            t_status = TaskStatusWaiting, t_peers = NewSortedUniqueList,
            t_BackToSourceWeight = 0, t_backToSourcePeers = [], t_pieces = [],
            t_TotalPieceCount = 0\<rparr>),
        next_task := Suc (next_task h)\<rparr>)"

definition Task_SetStatus :: "task_ref \<Rightarrow> TaskStatus \<Rightarrow> heap \<Rightarrow> heap" where
  "Task_SetStatus task status h = upd_task task (\<lambda>t. t\<lparr>t_status := status\<rparr>) h"

definition Task_IsSuccess :: "Task \<Rightarrow> bool" where
  "Task_IsSuccess t \<longleftrightarrow> t_status t = TaskStatusSuccess"

definition CanSchedule :: "Task \<Rightarrow> bool" where
  "CanSchedule t \<longleftrightarrow> t_status t = TaskStatusSeeding \<or> t_status t = TaskStatusSuccess"

definition Task_IsWaiting :: "Task \<Rightarrow> bool" where
  "Task_IsWaiting t \<longleftrightarrow> t_status t = TaskStatusWaiting"

definition IsHealth :: "Task \<Rightarrow> bool" where
  "IsHealth t \<longleftrightarrow> t_status t = TaskStatusRunning \<or> t_status t = TaskStatusSeeding
     \<or> t_status t = TaskStatusSuccess"

definition Task_IsFail :: "Task \<Rightarrow> bool" where
  "Task_IsFail t \<longleftrightarrow> t_status t = TaskStatusFail"

definition UpdateSuccess :: "int32 \<Rightarrow> int64 \<Rightarrow> Task \<Rightarrow> Task" where
  "UpdateSuccess pieceCount contentLength t =
     (if t_status t \<noteq> TaskStatusSuccess
      then t\<lparr>t_status := TaskStatusSuccess, t_TotalPieceCount := pieceCount,
             t_ContentLength := contentLength\<rparr>
      else t)"

definition GetPiece :: "int32 \<Rightarrow> Task \<Rightarrow> PieceInfo option" where
  "GetPiece n t = Load (t_pieces t) n"

definition GetOrAddPiece :: "PieceInfo \<Rightarrow> Task \<Rightarrow> (PieceInfo \<times> bool) \<times> Task" where
  "GetOrAddPiece p t =
     (case LoadOrStore (PieceNum p) p (t_pieces t) of (r, ps) \<Rightarrow> (r, t\<lparr>t_pieces := ps\<rparr>))"

definition GetSizeScope :: "Task \<Rightarrow> SizeScope" where
  "GetSizeScope t =
     (if sint (t_ContentLength t) \<le> TinyFileSize then SizeScope_TINY
      else if t_TotalPieceCount t = 1 then SizeScope_SMALL
      else SizeScope_NORMAL)"

definition CanBackToSource :: "Task \<Rightarrow> bool" where
  "CanBackToSource t \<longleftrightarrow> sint (t_BackToSourceWeight t) > 0"

fun contains_string :: "string \<Rightarrow> string list \<Rightarrow> bool" where
  "contains_string x [] = False"
| "contains_string x (y # ys) = (if y = x then True else contains_string x ys)"

definition ContainsBackToSourcePeer :: "string \<Rightarrow> Task \<Rightarrow> bool" where
  "ContainsBackToSourcePeer peerID t = contains_string peerID (t_backToSourcePeers t)"

definition AddBackToSourcePeer :: "string \<Rightarrow> Task \<Rightarrow> Task" where
  "AddBackToSourcePeer peerID t =
     (if ContainsBackToSourcePeer peerID t then t
      else if sint (t_BackToSourceWeight t) \<le> 0 then t
      else t\<lparr>t_backToSourcePeers := t_backToSourcePeers t @ [peerID],
             t_BackToSourceWeight := t_BackToSourceWeight t - 1\<rparr>)"

text \<open>
  \<open>Pick\<close> and \<open>PickReverse\<close> collect, in list order or against it, at most \<open>limit\<close>
  peers that \<open>pickFn\<close> accepts. The callback may not return, because it climbs the tree, and may panic.
\<close>

fun pick_loop :: "int \<Rightarrow> (peer_ref \<Rightarrow> bool outcome) \<Rightarrow> peer_ref list \<Rightarrow> peer_ref list
    \<Rightarrow> peer_ref list outcome" where
  "pick_loop limit pickFn [] peers = Ret peers"
| "pick_loop limit pickFn (peer # rest) peers =
     (if int (length peers) \<ge> limit then Ret peers
      else obind (pickFn peer) (\<lambda>ok.
             pick_loop limit pickFn rest (if ok then peers @ [peer] else peers)))"

definition Pick :: "int \<Rightarrow> (peer_ref \<Rightarrow> bool outcome) \<Rightarrow> Task \<Rightarrow> peer_ref list outcome" where
  "Pick limit pickFn t = pick_loop limit pickFn (ul_container (t_peers t)) []"

definition PickReverse :: "int \<Rightarrow> (peer_ref \<Rightarrow> bool outcome) \<Rightarrow> Task \<Rightarrow> peer_ref list outcome" where
  "PickReverse limit pickFn t = pick_loop limit pickFn (rev (ul_container (t_peers t))) []"

section \<open>Managers\<close>

definition taskManager_Get :: "string \<Rightarrow> heap \<Rightarrow> task_ref option" where
  "taskManager_Get key h = Load (taskManager h) key"

definition taskManager_Add :: "task_ref \<Rightarrow> heap \<Rightarrow> heap" where
  "taskManager_Add task h = h\<lparr>taskManager := Store (t_ID (task_at h task)) task (taskManager h)\<rparr>"

definition taskManager_Delete :: "string \<Rightarrow> heap \<Rightarrow> heap" where
  "taskManager_Delete key h = h\<lparr>taskManager := Delete key (taskManager h)\<rparr>"

definition taskManager_GetOrAdd :: "task_ref \<Rightarrow> heap \<Rightarrow> (task_ref \<times> bool) \<times> heap" where
  "taskManager_GetOrAdd t h =
     (case LoadOrStore (t_ID (task_at h t)) t (taskManager h) of
        (r, m) \<Rightarrow> (r, h\<lparr>taskManager := m\<rparr>))"

definition peerManager_Add :: "peer_ref \<Rightarrow> heap \<Rightarrow> heap" where
  "peerManager_Add peer h =
     (let h1 = Host_AddPeer (p_Host (peer_at h peer)) peer h;
          h2 = Task_AddPeer (p_Task (peer_at h peer)) peer h1
      in h2\<lparr>peerManager := Store (p_ID (peer_at h peer)) peer (peerManager h2)\<rparr>)"

definition peerManager_Delete :: "string \<Rightarrow> heap \<Rightarrow> heap" where
  "peerManager_Delete key h =
     (case peerManager_Get key h of
        None \<Rightarrow> h
      | Some peer \<Rightarrow>
          (let h1 = Host_DeletePeer (p_Host (peer_at h peer)) key h;
               h2 = Task_DeletePeer (p_Task (peer_at h peer)) peer h1;
               h3 = ReplaceParent peer None h2
           in h3\<lparr>peerManager := Delete key (peerManager h3)\<rparr>))"

definition GetPeersByTask :: "string \<Rightarrow> heap \<Rightarrow> peer_ref list" where
  "GetPeersByTask taskID h =
     range_loop (\<lambda>(_, peer) peers.
        (if t_ID (peerTask h peer) = taskID then peers @ [peer] else peers, True))
       (peerManager h) []"

subsection \<open>Garbage collection\<close>

text \<open>
  The visit of one peer, in two parts: a peer idle for longer than the TTI becomes a zombie
  (and leaves, when it is not connected); a peer that left, failed or outlived the TTL is deleted.
\<close>

definition peer_gc_mark :: "GCConfig \<Rightarrow> time \<Rightarrow> peer_ref \<Rightarrow> heap \<Rightarrow> heap" where
  "peer_gc_mark cfg elapsed peer h =
     (if elapsed > PeerTTI cfg \<and> \<not> IsDone h peer \<and> \<not> h_IsCDN (peerHost h peer)
      then let g = (if \<not> IsConnected h peer then Leave peer h else h)
           in if p_status (peer_at g peer) \<noteq> PeerStatusZombie
              then SetStatus peer PeerStatusZombie g else g
      else h)"

definition peer_gc_sweep :: "GCConfig \<Rightarrow> time \<Rightarrow> string \<Rightarrow> peer_ref \<Rightarrow> heap \<Rightarrow> heap" where
  "peer_gc_sweep cfg elapsed key peer h =
     (if IsLeave h peer \<or> IsFail h peer \<or> elapsed > PeerTTL cfg
      then let h2 = peerManager_Delete key h;
               h3 = (if GetPeersLen (p_Host (peer_at h2 peer)) h2 = 0
                     then hostManager_Delete (h_UUID (peerHost h2 peer)) h2 else h2)
           in if ul_Len (t_peers (peerTask h3 peer)) = 0
              then Task_SetStatus (p_Task (peer_at h3 peer)) TaskStatusWaiting h3 else h3
      else h)"

definition peer_gc_visit :: "GCConfig \<Rightarrow> time \<Rightarrow> string \<times> peer_ref \<Rightarrow> heap \<Rightarrow> heap" where
  "peer_gc_visit cfg now entry h =
     (let elapsed = now - p_lastAccessAt (peer_at h (snd entry))
      in peer_gc_sweep cfg elapsed (fst entry) (snd entry) (peer_gc_mark cfg elapsed (snd entry) h))"

definition peerManager_RunGC :: "GCConfig \<Rightarrow> time \<Rightarrow> heap \<Rightarrow> heap" where
  "peerManager_RunGC cfg now h = fold (peer_gc_visit cfg now) (peerManager h) h"

definition task_gc_visit :: "GCConfig \<Rightarrow> time \<Rightarrow> string \<times> task_ref \<Rightarrow> heap \<Rightarrow> heap" where
  "task_gc_visit cfg now entry h =
     (let taskID = fst entry; task = snd entry;
          elapsed = now - t_lastAccessAt (task_at h task);
          h1 = (if elapsed > TaskTTI cfg \<and> Task_IsSuccess (task_at h task)
                then Task_SetStatus task TaskStatusZombie h else h);
          h2 = (if ul_Len (t_peers (task_at h1 task)) = 0
                then Task_SetStatus task TaskStatusWaiting h1 else h1)
      in if elapsed > TaskTTL cfg
         then taskManager_Delete taskID
                (fold (\<lambda>peer. peerManager_Delete (p_ID (peer_at h2 peer))) (GetPeersByTask taskID h2) h2)
         else h2)"

definition taskManager_RunGC :: "GCConfig \<Rightarrow> time \<Rightarrow> heap \<Rightarrow> heap" where
  "taskManager_RunGC cfg now h = fold (task_gc_visit cfg now) (taskManager h) h"

end
