(* ===== verification/Supervisor.thy ===== *)
theory Supervisor
  imports Supervisor_Model
begin

text \<open>
  The peer tree of \<open>scheduler/supervisor\<close>: what each operation leaves alone, the
  invariant that ties parents, children and upload loads together, and the loops that
  climb the tree.
\<close>

section \<open>Frames\<close>

lemma upd_sel [simp, frame_simps]:
  "host_at (upd_host r f h) = (host_at h)(r := f (host_at h r))"
  "task_at (upd_host r f h) = task_at h" "peer_at (upd_host r f h) = peer_at h"
  "chan_at (upd_host r f h) = chan_at h"
  "host_at (upd_task r g h) = host_at h" "peer_at (upd_task r g h) = peer_at h"
  "task_at (upd_task r g h) = (task_at h)(r := g (task_at h r))"
  "chan_at (upd_task r g h) = chan_at h"
  "host_at (upd_peer r k h) = host_at h" "task_at (upd_peer r k h) = task_at h"
  "peer_at (upd_peer r k h) = (peer_at h)(r := k (peer_at h r))"
  "chan_at (upd_peer r k h) = chan_at h"
  "host_at (upd_chan r l h) = host_at h" "task_at (upd_chan r l h) = task_at h"
  "peer_at (upd_chan r l h) = peer_at h"
  "chan_at (upd_chan r l h) = (chan_at h)(r := l (chan_at h r))"
  by (simp_all add: upd_host_def upd_task_def upd_peer_def upd_chan_def)

lemma upd_static [simp, frame_simps]:
  "next_host (upd_host r f h) = next_host h" "next_task (upd_host r f h) = next_task h"
  "next_peer (upd_host r f h) = next_peer h" "next_chan (upd_host r f h) = next_chan h"
  "next_host (upd_task r g h) = next_host h" "next_task (upd_task r g h) = next_task h"
  "next_peer (upd_task r g h) = next_peer h" "next_chan (upd_task r g h) = next_chan h"
  "next_host (upd_peer r k h) = next_host h" "next_task (upd_peer r k h) = next_task h"
  "next_peer (upd_peer r k h) = next_peer h" "next_chan (upd_peer r k h) = next_chan h"
  "next_host (upd_chan r l h) = next_host h" "next_task (upd_chan r l h) = next_task h"
  "next_peer (upd_chan r l h) = next_peer h" "next_chan (upd_chan r l h) = next_chan h"
  by (simp_all add: upd_host_def upd_task_def upd_peer_def upd_chan_def)

lemma upd_managers [simp, frame_simps]:
  "hostManager (upd_host r f h) = hostManager h" "taskManager (upd_host r f h) = taskManager h"
  "peerManager (upd_host r f h) = peerManager h"
  "hostManager (upd_task r g h) = hostManager h" "taskManager (upd_task r g h) = taskManager h"
  "peerManager (upd_task r g h) = peerManager h"
  "hostManager (upd_peer r k h) = hostManager h" "taskManager (upd_peer r k h) = taskManager h"
  "peerManager (upd_peer r k h) = peerManager h"
  "hostManager (upd_chan r l h) = hostManager h" "taskManager (upd_chan r l h) = taskManager h"
  "peerManager (upd_chan r l h) = peerManager h"
  by (simp_all add: upd_host_def upd_task_def upd_peer_def upd_chan_def)

lemma Task_ops_frame [simp, frame_simps]:
  "host_at (Task_UpdatePeer t p h) = host_at h" "peer_at (Task_UpdatePeer t p h) = peer_at h"
  "host_at (Task_AddPeer t p h) = host_at h" "peer_at (Task_AddPeer t p h) = peer_at h"
  "host_at (Task_DeletePeer t p h) = host_at h" "peer_at (Task_DeletePeer t p h) = peer_at h"
  "host_at (Task_Touch t n h) = host_at h" "peer_at (Task_Touch t n h) = peer_at h"
  "host_at (Task_SetStatus t s h) = host_at h" "peer_at (Task_SetStatus t s h) = peer_at h"
  by (simp_all add: Task_UpdatePeer_def Task_AddPeer_def Task_DeletePeer_def Task_Touch_def
      Task_SetStatus_def)

lemma Task_ops_managers [simp, frame_simps]:
  "peerManager (Task_UpdatePeer t p h) = peerManager h"
  "peerManager (Task_AddPeer t p h) = peerManager h"
  "peerManager (Task_DeletePeer t p h) = peerManager h"
  "peerManager (Task_SetStatus t s h) = peerManager h"
  "peerManager (Task_Touch t n h) = peerManager h"
  "next_peer (Task_UpdatePeer t p h) = next_peer h" "next_peer (Task_AddPeer t p h) = next_peer h"
  "next_peer (Task_DeletePeer t p h) = next_peer h" "next_peer (Task_SetStatus t s h) = next_peer h"
  "next_host (Task_UpdatePeer t p h) = next_host h" "next_host (Task_AddPeer t p h) = next_host h"
  "next_host (Task_DeletePeer t p h) = next_host h" "next_host (Task_SetStatus t s h) = next_host h"
  "next_peer (Task_Touch t n h) = next_peer h" "next_host (Task_Touch t n h) = next_host h"
  by (simp_all add: Task_UpdatePeer_def Task_AddPeer_def Task_DeletePeer_def Task_SetStatus_def
      Task_Touch_def)

lemma insertChild_sel [simp, frame_simps]:
  "peer_at (insertChild q c h) = (peer_at h)(q := (peer_at h q)
     \<lparr>p_children := Store (p_ID (peer_at h c)) c (p_children (peer_at h q))\<rparr>)"
  "host_at (insertChild q c h) = (host_at h)(p_Host (peer_at h q) :=
     (host_at h (p_Host (peer_at h q)))
       \<lparr>h_CurrentUploadLoad := h_CurrentUploadLoad (host_at h (p_Host (peer_at h q))) + 1\<rparr>)"
  "next_peer (insertChild q c h) = next_peer h" "next_host (insertChild q c h) = next_host h"
  "peerManager (insertChild q c h) = peerManager h"
  by (simp_all add: insertChild_def Let_def)

lemma deleteChild_sel [simp, frame_simps]:
  "peer_at (deleteChild q c h) = (peer_at h)(q := (peer_at h q)
     \<lparr>p_children := Delete (p_ID (peer_at h c)) (p_children (peer_at h q))\<rparr>)"
  "host_at (deleteChild q c h) = (host_at h)(p_Host (peer_at h q) :=
     (host_at h (p_Host (peer_at h q)))
       \<lparr>h_CurrentUploadLoad := h_CurrentUploadLoad (host_at h (p_Host (peer_at h q))) - 1\<rparr>)"
  "next_peer (deleteChild q c h) = next_peer h" "next_host (deleteChild q c h) = next_host h"
  "peerManager (deleteChild q c h) = peerManager h"
  by (simp_all add: deleteChild_def Let_def)

lemma SetParent_sel [simp, frame_simps]:
  "peer_at (SetParent c q h) = (peer_at h)(c := (peer_at h c)\<lparr>p_parent := q\<rparr>)"
  "host_at (SetParent c q h) = host_at h" "next_peer (SetParent c q h) = next_peer h"
  "next_host (SetParent c q h) = next_host h" "peerManager (SetParent c q h) = peerManager h"
  by (simp_all add: SetParent_def)

lemma ReplaceParent_static [simp, frame_simps]:
  "next_peer (ReplaceParent c q h) = next_peer h" "next_host (ReplaceParent c q h) = next_host h"
  "peerManager (ReplaceParent c q h) = peerManager h"
  by (simp_all add: ReplaceParent_def Let_def split: option.split)

text \<open>\<open>ReplaceParent\<close> writes only parents, children, loads and the order of task lists.\<close>

lemma ReplaceParent_fields [simp, frame_simps]:
  "p_ID (peer_at (ReplaceParent c q h) r) = p_ID (peer_at h r)"
  "p_Task (peer_at (ReplaceParent c q h) r) = p_Task (peer_at h r)"
  "p_Host (peer_at (ReplaceParent c q h) r) = p_Host (peer_at h r)"
  "p_status (peer_at (ReplaceParent c q h) r) = p_status (peer_at h r)"
  "p_leave (peer_at (ReplaceParent c q h) r) = p_leave (peer_at h r)"
  "p_lastAccessAt (peer_at (ReplaceParent c q h) r) = p_lastAccessAt (peer_at h r)"
  "p_TotalPieceCount (peer_at (ReplaceParent c q h) r) = p_TotalPieceCount (peer_at h r)"
  "p_pieceCosts (peer_at (ReplaceParent c q h) r) = p_pieceCosts (peer_at h r)"
  "p_conn (peer_at (ReplaceParent c q h) r) = p_conn (peer_at h r)"
  by (simp_all add: ReplaceParent_def Let_def split: option.split)

lemma GetParent_ReplaceParent [simp]:
  "GetParent (ReplaceParent c q h) r = (if r = c then q else GetParent h r)"
  by (simp add: ReplaceParent_def GetParent_def Let_def split: option.split)

abbreviation children :: "heap \<Rightarrow> peer_ref \<Rightarrow> (string, peer_ref) gomap" where
  "children h q \<equiv> p_children (peer_at h q)"

abbreviation load :: "heap \<Rightarrow> host_ref \<Rightarrow> uint32" where
  "load h r \<equiv> h_CurrentUploadLoad (host_at h r)"

lemma children_detach:
  "children (ReplaceParent c None h) q =
     (if GetParent h c = Some q then Delete (p_ID (peer_at h c)) (children h q) else children h q)"
  by (simp add: ReplaceParent_def Let_def split: option.split)

lemma load_detach:
  "load (ReplaceParent c None h) r =
     (if \<exists>q. GetParent h c = Some q \<and> p_Host (peer_at h q) = r then load h r - 1 else load h r)"
  by (auto simp add: ReplaceParent_def Let_def split: option.split)

lemma children_attach:
  "GetParent h c = None \<Longrightarrow>
   children (ReplaceParent c (Some q) h) r =
     (if r = q then Store (p_ID (peer_at h c)) c (children h q) else children h r)"
  by (simp add: ReplaceParent_def Let_def)

lemma load_attach:
  "GetParent h c = None \<Longrightarrow>
   load (ReplaceParent c (Some q) h) r = (if r = p_Host (peer_at h q) then load h r + 1 else load h r)"
  by (simp add: ReplaceParent_def Let_def)

text \<open>Replacing a parent is detaching from the old one and attaching to the new one.\<close>

lemma SetParent_SetParent: "SetParent c q (SetParent c r h) = SetParent c q h"
  by (simp add: SetParent_def upd_peer_def)

lemma ReplaceParent_detach_attach:
  "ReplaceParent c (Some q) h = ReplaceParent c (Some q) (ReplaceParent c None h)"
proof -
  let ?g = "case GetParent h c of None \<Rightarrow> h | Some oldParent \<Rightarrow> deleteChild oldParent c h"
  have 1: "ReplaceParent c None h = SetParent c None ?g"
    by (simp add: ReplaceParent_def)
  have "ReplaceParent c (Some q) (ReplaceParent c None h) =
      insertChild q c (SetParent c (Some q) (ReplaceParent c None h))"
    by (simp add: ReplaceParent_def[of c "Some q" "ReplaceParent c None h"])
  also have "\<dots> = insertChild q c (SetParent c (Some q) ?g)"
    unfolding 1 by (simp add: SetParent_SetParent)
  also have "\<dots> = ReplaceParent c (Some q) h"
    by (simp add: ReplaceParent_def[of c "Some q" h])
  finally show ?thesis ..
qed

section \<open>The tree invariant\<close>

definition parent_rel :: "heap \<Rightarrow> (peer_ref \<times> peer_ref) set" where
  "parent_rel h = {(c, q). c < next_peer h \<and> GetParent h c = Some q}"

definition wf_refs :: "heap \<Rightarrow> bool" where
  "wf_refs h \<longleftrightarrow> (\<forall>c q. c < next_peer h \<longrightarrow> GetParent h c = Some q \<longrightarrow> q < next_peer h)"

definition unique_ids :: "heap \<Rightarrow> bool" where
  "unique_ids h \<longleftrightarrow> inj_on (\<lambda>r. p_ID (peer_at h r)) {..<next_peer h}"

text \<open>A peer's parent lists it as a child, and only its parent does.\<close>

definition links :: "heap \<Rightarrow> bool" where
  "links h \<longleftrightarrow> (\<forall>q < next_peer h. wf_map (children h q) \<and>
     (\<forall>k c. Load (children h q) k = Some c \<longleftrightarrow>
        c < next_peer h \<and> GetParent h c = Some q \<and> p_ID (peer_at h c) = k))"

text \<open>A host's upload load is the number of children of the peers on it (modulo \<open>2^32\<close>).\<close>

definition upload_count :: "heap \<Rightarrow> host_ref \<Rightarrow> nat" where
  "upload_count h r = (\<Sum>q<next_peer h. if p_Host (peer_at h q) = r then length (children h q) else 0)"

definition loads :: "heap \<Rightarrow> bool" where
  "loads h \<longleftrightarrow> (\<forall>r. load h r = of_nat (upload_count h r))"

definition tree_inv :: "heap \<Rightarrow> bool" where
  "tree_inv h \<longleftrightarrow> wf_refs h \<and> unique_ids h \<and> links h \<and> loads h \<and> acyclic (parent_rel h)"

lemma unique_ids_ReplaceParent [simp]: "unique_ids (ReplaceParent c q h) = unique_ids h"
  by (simp add: unique_ids_def)

lemma wf_refs_ReplaceParent:
  "wf_refs h \<Longrightarrow> (\<And>r. q = Some r \<Longrightarrow> r < next_peer h) \<Longrightarrow> wf_refs (ReplaceParent c q h)"
  by (auto simp: wf_refs_def split: if_splits)

lemma parent_rel_detach: "parent_rel (ReplaceParent c None h) = parent_rel h - {c} \<times> UNIV"
  by (auto simp: parent_rel_def split: if_splits)

lemma parent_rel_attach:
  "c < next_peer h \<Longrightarrow>
   parent_rel (ReplaceParent c (Some q) h) = insert (c, q) (parent_rel h - {c} \<times> UNIV)"
  by (auto simp: parent_rel_def split: if_splits)

lemma acyclic_detach: "acyclic (parent_rel h) \<Longrightarrow> acyclic (parent_rel (ReplaceParent c None h))"
  by (rule acyclic_subset) (auto simp: parent_rel_detach)

lemma acyclic_attach:
  assumes "acyclic (parent_rel h)" and "c < next_peer h" and "(q, c) \<notin> (parent_rel h)\<^sup>*"
  shows "acyclic (parent_rel (ReplaceParent c (Some q) h))"
proof -
  let ?R = "parent_rel h - {c} \<times> UNIV"
  have "acyclic ?R" using assms(1) by (rule acyclic_subset) auto
  moreover have "(q, c) \<notin> ?R\<^sup>*"
    using assms(3) rtrancl_mono[of ?R "parent_rel h"] by blast
  ultimately show ?thesis
    by (simp add: parent_rel_attach[OF assms(2)] acyclic_insert)
qed

lemma sum_pointwise_change:
  fixes f g :: "nat \<Rightarrow> nat"
  assumes "q < n" and "\<And>i. i < n \<Longrightarrow> i \<noteq> q \<Longrightarrow> g i = f i"
  shows "(\<Sum>i<n. g i) + f q = (\<Sum>i<n. f i) + g q"
proof -
  have "(\<Sum>i<n. g i) = g q + (\<Sum>i\<in>{..<n} - {q}. g i)"
    using assms(1) by (simp add: sum.remove)
  moreover have "(\<Sum>i<n. f i) = f q + (\<Sum>i\<in>{..<n} - {q}. f i)"
    using assms(1) by (simp add: sum.remove)
  moreover have "(\<Sum>i\<in>{..<n} - {q}. g i) = (\<Sum>i\<in>{..<n} - {q}. f i)"
    using assms(2) by (intro sum.cong) auto
  ultimately show ?thesis by simp
qed

lemma links_wf: "links h \<Longrightarrow> q < next_peer h \<Longrightarrow> wf_map (children h q)"
  by (simp add: links_def)

lemma links_child:
  "links h \<Longrightarrow> wf_refs h \<Longrightarrow> c < next_peer h \<Longrightarrow> GetParent h c = Some q \<Longrightarrow>
   Load (children h q) (p_ID (peer_at h c)) = Some c"
  by (auto simp: links_def wf_refs_def)

lemma links_not_child:
  assumes "links h" "unique_ids h" "q < next_peer h" "c < next_peer h" "GetParent h c \<noteq> Some q"
  shows "Load (children h q) (p_ID (peer_at h c)) = None"
proof (rule ccontr)
  assume "Load (children h q) (p_ID (peer_at h c)) \<noteq> None"
  then obtain d where "Load (children h q) (p_ID (peer_at h c)) = Some d" by auto
  then have "d < next_peer h" "GetParent h d = Some q" "p_ID (peer_at h d) = p_ID (peer_at h c)"
    using assms(1,3) by (auto simp: links_def)
  with assms(2,4,5) show False by (auto simp: unique_ids_def dest: inj_onD)
qed

lemma links_detach:
  assumes "links h" "unique_ids h" "c < next_peer h"
  shows "links (ReplaceParent c None h)"
  using assms
  by (auto simp: links_def children_detach unique_ids_def dest: inj_onD split: if_splits)

lemma links_attach:
  assumes "links h" "unique_ids h" "c < next_peer h" "GetParent h c = None"
  shows "links (ReplaceParent c (Some q) h)"
  using assms
  by (auto simp: links_def children_attach unique_ids_def dest: inj_onD split: if_splits)

lemma upload_count_update:
  assumes "q < next_peer h" "next_peer h' = next_peer h"
    and "\<And>r. p_Host (peer_at h' r) = p_Host (peer_at h r)"
    and "\<And>r. r \<noteq> q \<Longrightarrow> children h' r = children h r"
  shows "upload_count h' r + (if p_Host (peer_at h q) = r then length (children h q) else 0) =
         upload_count h r + (if p_Host (peer_at h q) = r then length (children h' q) else 0)"
proof -
  let ?f = "\<lambda>h i. if p_Host (peer_at h i) = r then length (children h i) else 0"
  have "(\<Sum>i<next_peer h. ?f h' i) + ?f h q = (\<Sum>i<next_peer h. ?f h i) + ?f h' q"
    by (rule sum_pointwise_change) (simp_all add: assms)
  then show ?thesis by (simp add: upload_count_def assms)
qed

lemma loads_detach:
  assumes "loads h" "links h" "wf_refs h" "unique_ids h" "c < next_peer h"
  shows "loads (ReplaceParent c None h)"
proof (cases "GetParent h c")
  case None
  then have "peer_at (ReplaceParent c None h) = peer_at h"
    by (auto simp: ReplaceParent_def GetParent_def)
  then have "upload_count (ReplaceParent c None h) r = upload_count h r" for r
    by (simp add: upload_count_def cong: if_cong)
  with None assms(1) show ?thesis by (simp add: loads_def load_detach)
next
  case (Some q)
  then have q: "q < next_peer h" using assms by (auto simp: wf_refs_def)
  have child: "Load (children h q) (p_ID (peer_at h c)) = Some c"
    using assms Some by (simp add: links_child)
  then obtain n where n: "length (children h q) = Suc n" by (cases "children h q") auto
  have len: "length (Delete (p_ID (peer_at h c)) (children h q)) = length (children h q) - 1"
    using assms(2) q by (simp add: length_Delete child links_wf)
  show ?thesis
    unfolding loads_def
  proof
    fix r
    have "upload_count (ReplaceParent c None h) r
        + (if p_Host (peer_at h q) = r then length (children h q) else 0)
        = upload_count h r
        + (if p_Host (peer_at h q) = r then length (children h q) - 1 else 0)"
      using upload_count_update[OF q, of "ReplaceParent c None h" r] Some
      by (simp add: len children_detach cong: if_cong)
    then have "upload_count h r = upload_count (ReplaceParent c None h) r
        + (if p_Host (peer_at h q) = r then 1 else 0)"
      by (simp add: n split: if_splits)
    with assms(1) Some show "load (ReplaceParent c None h) r
        = of_nat (upload_count (ReplaceParent c None h) r)"
      by (simp add: loads_def load_detach)
  qed
qed

lemma loads_attach:
  assumes "loads h" "links h" "unique_ids h" "c < next_peer h" "q < next_peer h" "GetParent h c = None"
  shows "loads (ReplaceParent c (Some q) h)"
  unfolding loads_def
proof
  fix r
  have "Load (children h q) (p_ID (peer_at h c)) = None"
    using assms by (simp add: links_not_child)
  then have len: "length (Store (p_ID (peer_at h c)) c (children h q)) = Suc (length (children h q))"
    by (simp add: length_Store)
  have "upload_count (ReplaceParent c (Some q) h) r
      + (if p_Host (peer_at h q) = r then length (children h q) else 0)
      = upload_count h r + (if p_Host (peer_at h q) = r then Suc (length (children h q)) else 0)"
    using upload_count_update[OF assms(5), of "ReplaceParent c (Some q) h" r] assms(6)
    by (simp add: len children_attach cong: if_cong)
  then have "upload_count (ReplaceParent c (Some q) h) r =
      upload_count h r + (if p_Host (peer_at h q) = r then 1 else 0)"
    by (auto split: if_splits)
  with assms(1,6) show "load (ReplaceParent c (Some q) h) r
      = of_nat (upload_count (ReplaceParent c (Some q) h) r)"
    by (auto simp: loads_def load_attach)
qed

lemma wf_refs_detach: "wf_refs h \<Longrightarrow> wf_refs (ReplaceParent c None h)"
  by (rule wf_refs_ReplaceParent) simp_all

lemma wf_refs_attach:
  "wf_refs h \<Longrightarrow> q < next_peer h \<Longrightarrow> wf_refs (ReplaceParent c (Some q) h)"
  by (rule wf_refs_ReplaceParent) simp_all

lemma tree_inv_detach:
  "tree_inv h \<Longrightarrow> c < next_peer h \<Longrightarrow> tree_inv (ReplaceParent c None h)"
  by (simp add: tree_inv_def wf_refs_detach links_detach loads_detach acyclic_detach)

lemma tree_inv_attach:
  assumes "tree_inv h" "c < next_peer h" "q < next_peer h" "(q, c) \<notin> (parent_rel h)\<^sup>*"
  shows "tree_inv (ReplaceParent c (Some q) h)"
proof -
  let ?g = "ReplaceParent c None h"
  have g: "tree_inv ?g" using assms(1,2) by (rule tree_inv_detach)
  have nc: "(q, c) \<notin> (parent_rel ?g)\<^sup>*"
    using assms(4) rtrancl_mono[of "parent_rel ?g" "parent_rel h"]
    by (auto simp: parent_rel_detach)
  have "tree_inv (ReplaceParent c (Some q) ?g)"
    using g assms(2,3) nc
    by (simp add: tree_inv_def wf_refs_attach links_attach loads_attach acyclic_attach)
  then show ?thesis by (subst ReplaceParent_detach_attach)
qed

section \<open>Climbing the tree\<close>

lemma finite_parent_rel: "wf_refs h \<Longrightarrow> finite (parent_rel h)"
  by (rule finite_subset[of _ "{..<next_peer h} \<times> {..<next_peer h}"])
     (auto simp: parent_rel_def wf_refs_def)

lemma wf_parent_rel:
  "wf_refs h \<Longrightarrow> acyclic (parent_rel h) \<Longrightarrow> wf ((parent_rel h)\<inverse>)"
  by (simp add: finite_parent_rel finite_acyclic_wf_converse)

text \<open>Climbing induction: a fact about a peer from the fact about its parent.\<close>

lemma climb_induct [consumes 3, case_names step]:
  assumes "wf_refs h" "acyclic (parent_rel h)" "r < next_peer h"
    and step: "\<And>r. r < next_peer h \<Longrightarrow>
      (\<And>q. GetParent h r = Some q \<Longrightarrow> q < next_peer h \<Longrightarrow> P q) \<Longrightarrow> P r"
  shows "P r"
  using wf_parent_rel[OF assms(1,2)] assms(3)
proof (induction r rule: wf_induct_rule)
  case (less r)
  show ?case
  proof (rule step)
    fix q assume "GetParent h r = Some q" and "q < next_peer h"
    with less show "P q" by (simp add: parent_rel_def)
  qed (use less in simp)
qed

lemma parent_trancl_step:
  "r < next_peer h \<Longrightarrow> GetParent h r = Some q \<Longrightarrow>
   (r, a) \<in> (parent_rel h)\<^sup>+ \<longleftrightarrow> a = q \<or> (q, a) \<in> (parent_rel h)\<^sup>+"
proof -
  assume "r < next_peer h" and "GetParent h r = Some q"
  then have "(r, x) \<in> parent_rel h \<longleftrightarrow> x = q" for x by (auto simp: parent_rel_def)
  then have "(r, a) \<in> (parent_rel h)\<^sup>+ \<longleftrightarrow> (q, a) \<in> (parent_rel h)\<^sup>*"
    by (simp add: trancl_unfold_left relcomp_unfold)
  then show ?thesis by (auto simp: rtrancl_eq_or_trancl)
qed

lemma parent_trancl_root: "GetParent h r = None \<Longrightarrow> (r, a) \<notin> (parent_rel h)\<^sup>+"
  by (auto simp: parent_rel_def dest: tranclD)

lemma isDescendant_loop_correct:
  assumes "wf_refs h" "acyclic (parent_rel h)" "unique_ids h" "r < next_peer h" "a < next_peer h"
  shows "isDescendant_loop h (p_ID (peer_at h a)) r = Some ((r, a) \<in> (parent_rel h)\<^sup>+)"
  using assms(1,2,4)
proof (induction r rule: climb_induct)
  case (step r)
  show ?case
  proof (cases "GetParent h r")
    case None
    then show ?thesis by (simp add: isDescendant_loop.simps parent_trancl_root)
  next
    case (Some q)
    with step assms(1) have q: "q < next_peer h" by (auto simp: wf_refs_def)
    have "p_ID (peer_at h q) = p_ID (peer_at h a) \<longleftrightarrow> q = a"
      using assms(3,5) q by (auto simp: unique_ids_def dest: inj_onD)
    with Some step q show ?thesis
      by (auto simp: isDescendant_loop.simps[of _ _ r] parent_trancl_step)
  qed
qed

lemma isDescendant_correct:
  "tree_inv h \<Longrightarrow> off < next_peer h \<Longrightarrow> anc < next_peer h \<Longrightarrow>
   isDescendant h anc off = Some ((off, anc) \<in> (parent_rel h)\<^sup>+)"
  by (simp add: isDescendant_def tree_inv_def isDescendant_loop_correct)

text \<open>
  The loop runs forever inside a set of peers that is closed under taking parents and in
  which the ancestor looked for does not occur.
\<close>

lemma isDescendant_loop_returns_outside:
  assumes "isDescendant_loop h a r = Some b" and "\<And>x. x \<in> S \<Longrightarrow> \<exists>y \<in> S. GetParent h x = Some y"
    and "\<And>x. x \<in> S \<Longrightarrow> p_ID (peer_at h x) \<noteq> a"
  shows "r \<notin> S"
proof -
  let ?P = "\<lambda>h a r. (\<forall>x \<in> S. \<exists>y \<in> S. GetParent h x = Some y) \<longrightarrow>
    (\<forall>x \<in> S. p_ID (peer_at h x) \<noteq> a) \<longrightarrow> r \<notin> S"
  have "?P h a r"
  proof (rule isDescendant_loop.raw_induct[where P = "\<lambda>h a r b. ?P h a r", OF _ assms(1)])
    fix loop h a r b
    assume IH: "\<And>h a r b. loop h a r = Some b \<Longrightarrow> ?P h a r"
      and eq: "(case GetParent h r of None \<Rightarrow> Some False
        | Some parent \<Rightarrow> if p_ID (peer_at h parent) = a then Some True else loop h a parent) = Some b"
    show "?P h a r"
    proof (intro impI notI)
      assume closed: "\<forall>x \<in> S. \<exists>y \<in> S. GetParent h x = Some y"
        and avoids: "\<forall>x \<in> S. p_ID (peer_at h x) \<noteq> a" and "r \<in> S"
      then obtain y where y: "y \<in> S" "GetParent h r = Some y" by blast
      with eq avoids have "loop h a y = Some b" by simp
      from IH[OF this] closed avoids y(1) show False by simp
    qed
  qed
  with assms(2,3) show ?thesis by simp
qed

lemma isDescendant_loop_diverges:
  assumes "\<And>x. x \<in> S \<Longrightarrow> \<exists>y \<in> S. GetParent h x = Some y"
    and "\<And>x. x \<in> S \<Longrightarrow> p_ID (peer_at h x) \<noteq> a" and "r \<in> S"
  shows "isDescendant_loop h a r = None"
  using isDescendant_loop_returns_outside[OF _ assms(1,2)] assms(3)
  by (cases "isDescendant_loop h a r") blast+

lemma GetRoot_loop_returns:
  assumes "wf_refs h" "acyclic (parent_rel h)" "r < next_peer h"
  shows "\<exists>q. GetRoot_loop h r = Some q \<and> (r, q) \<in> (parent_rel h)\<^sup>*
    \<and> (GetParent h q = None \<or> h_IsCDN (peerHost h q))"
  using assms
proof (induction r rule: climb_induct)
  case (step r)
  show ?case
  proof (cases "GetParent h r")
    case None
    then show ?thesis by (simp add: GetRoot_loop.simps)
  next
    case (Some q)
    with step.hyps assms(1) have q: "q < next_peer h" and rq: "(r, q) \<in> parent_rel h"
      by (auto simp: wf_refs_def parent_rel_def)
    from step.IH[OF Some q] rq Some show ?thesis
      by (auto simp: GetRoot_loop.simps[of _ r] intro: converse_rtrancl_into_rtrancl)
  qed
qed

lemma GetTreeDepth_loop_returns:
  assumes "wf_refs h" "acyclic (parent_rel h)" "r < next_peer h"
  shows "\<exists>n. GetTreeDepth_loop h r d = Some n \<and> d < n"
  using assms
proof (induction r arbitrary: d rule: climb_induct)
  case (step r)
  show ?case
  proof (cases "GetParent h r")
    case None
    then show ?thesis by (simp add: GetTreeDepth_loop.simps)
  next
    case (Some q)
    with step.hyps assms(1) have q: "q < next_peer h" by (auto simp: wf_refs_def)
    from step.IH[OF Some q, of "d + 1"] Some show ?thesis
      by (auto simp: GetTreeDepth_loop.simps[of _ r])
  qed
qed

section \<open>What the invariant depends on\<close>

text \<open>The part of the heap the invariant reads.\<close>

definition tree_view ::
  "heap \<Rightarrow> nat \<times> (peer_ref \<Rightarrow> string \<times> host_ref \<times> peer_ref option \<times> (string, peer_ref) gomap)
     \<times> (host_ref \<Rightarrow> uint32)" where
  "tree_view h = (next_peer h,
     (\<lambda>r. let p = peer_at h r in (p_ID p, p_Host p, p_parent p, p_children p)), (\<lambda>r. load h r))"

lemma tree_viewD:
  assumes "tree_view h = tree_view h'"
  shows "next_peer h = next_peer h'" "p_ID (peer_at h r) = p_ID (peer_at h' r)"
    "p_Host (peer_at h r) = p_Host (peer_at h' r)" "GetParent h r = GetParent h' r"
    "children h r = children h' r" "load h s = load h' s"
  using assms by (auto simp: tree_view_def GetParent_def Let_def fun_eq_iff)

lemma tree_inv_cong:
  assumes "tree_view h = tree_view h'"
  shows "tree_inv h = tree_inv h'"
  unfolding tree_inv_def wf_refs_def unique_ids_def links_def loads_def upload_count_def parent_rel_def
  by (simp add: tree_viewD[OF assms] cong: if_cong)

lemma parent_rel_cong:
  assumes "tree_view h = tree_view h'"
  shows "parent_rel h = parent_rel h'"
  by (simp add: parent_rel_def tree_viewD[OF assms])

named_theorems view_simps \<open>operations that leave the tree alone\<close>

lemma view_upd_task [simp, view_simps]: "tree_view (upd_task r f h) = tree_view h"
  by (simp add: tree_view_def)

lemma view_upd_chan [simp, view_simps]: "tree_view (upd_chan r f h) = tree_view h"
  by (simp add: tree_view_def)

lemma view_upd_peer:
  "(\<And>p. p_ID (f p) = p_ID p) \<Longrightarrow> (\<And>p. p_Host (f p) = p_Host p) \<Longrightarrow> (\<And>p. p_parent (f p) = p_parent p)
   \<Longrightarrow> (\<And>p. p_children (f p) = p_children p) \<Longrightarrow> tree_view (upd_peer r f h) = tree_view h"
  by (auto simp: tree_view_def Let_def fun_eq_iff)

lemma view_upd_host:
  "(\<And>x. h_CurrentUploadLoad (f x) = h_CurrentUploadLoad x) \<Longrightarrow> tree_view (upd_host r f h) = tree_view h"
  by (auto simp: tree_view_def fun_eq_iff)

lemma view_managers [simp, view_simps]:
  "tree_view (h\<lparr>peerManager := m\<rparr>) = tree_view h" "tree_view (h\<lparr>hostManager := m'\<rparr>) = tree_view h"
  "tree_view (h\<lparr>taskManager := m''\<rparr>) = tree_view h" "tree_view (h\<lparr>chan_at := cs\<rparr>) = tree_view h"
  "tree_view (h\<lparr>next_chan := n\<rparr>) = tree_view h"
  by (simp_all add: tree_view_def)

lemma view_ops [simp, view_simps]:
  "tree_view (Task_Touch t now h) = tree_view h" "tree_view (Task_AddPeer t p h) = tree_view h"
  "tree_view (Task_UpdatePeer t p h) = tree_view h" "tree_view (Task_DeletePeer t p h) = tree_view h"
  "tree_view (Task_SetStatus t s h) = tree_view h" "tree_view (SetStatus p st h) = tree_view h"
  "tree_view (Leave p h) = tree_view h" "tree_view (SetPieceCosts p cs h) = tree_view h"
  "tree_view (Host_AddPeer hr p h) = tree_view h" "tree_view (Host_DeletePeer hr k h) = tree_view h"
  "tree_view (hostManager_Add hr h) = tree_view h" "tree_view (hostManager_Delete k h) = tree_view h"
  "tree_view (taskManager_Delete k h) = tree_view h"
  by (simp_all add: Task_Touch_def Task_AddPeer_def Task_UpdatePeer_def Task_DeletePeer_def
      Task_SetStatus_def SetStatus_def Leave_def SetPieceCosts_def Host_AddPeer_def
      Host_DeletePeer_def hostManager_Add_def hostManager_Delete_def taskManager_Delete_def
      view_upd_peer view_upd_host)

lemma view_ops2 [simp, view_simps]:
  "tree_view (Touch p now h) = tree_view h" "tree_view (UpdateProgress p n c h) = tree_view h"
  "tree_view (snd (BindNewConn p ch h)) = tree_view h"
  "tree_view (snd (CloseChannelWithError p e h)) = tree_view h"
  "tree_view (snd (SendSchedulePacket p pk h)) = tree_view h"
  "tree_view (peerManager_Add p h) = tree_view h"
  by (simp_all add: Touch_def UpdateProgress_def BindNewConn_def CloseChannelWithError_def
      SendSchedulePacket_def peerManager_Add_def Let_def view_upd_peer split: option.split prod.split)

lemma tree_inv_ops [simp]:
  "tree_inv (Touch p now h) = tree_inv h" "tree_inv (UpdateProgress p n c h) = tree_inv h"
  "tree_inv (SetStatus p st h) = tree_inv h" "tree_inv (Leave p h) = tree_inv h"
  "tree_inv (Task_SetStatus t s h) = tree_inv h" "tree_inv (upd_task t f h) = tree_inv h"
  "tree_inv (peerManager_Add p h) = tree_inv h"
  "tree_inv (snd (CloseChannelWithError p e h)) = tree_inv h"
  "tree_inv (snd (SendSchedulePacket p pk h)) = tree_inv h"
  by (rule tree_inv_cong, simp)+

lemma tree_inv_NewPeer:
  assumes "tree_inv h" and "\<forall>r < next_peer h. p_ID (peer_at h r) \<noteq> key"
  shows "tree_inv (snd (NewPeer key t hr now h))"
proof -
  let ?g = "snd (NewPeer key t hr now h)"
  have n: "next_peer ?g = Suc (next_peer h)" by (simp add: NewPeer_def)
  have old: "peer_at ?g r = peer_at h r" if "r < next_peer h" for r
    using that by (simp add: NewPeer_def)
  have new: "GetParent ?g (next_peer h) = None" "children ?g (next_peer h) = []"
      "p_ID (peer_at ?g (next_peer h)) = key"
    by (simp_all add: NewPeer_def GetParent_def)
  have P: "GetParent ?g r = GetParent h r" if "r < next_peer h" for r
    using old[OF that] by (simp add: GetParent_def)
  have refs: "wf_refs ?g"
    using assms(1) P new(1) n unfolding tree_inv_def wf_refs_def by (metis less_Suc_eq option.distinct(1))
  have rel: "parent_rel ?g = parent_rel h"
    using P new(1) n by (auto simp: parent_rel_def less_Suc_eq)
  have ids: "unique_ids ?g"
    using assms(1,2) new(3) n old
    by (auto simp: tree_inv_def unique_ids_def inj_on_def less_Suc_eq)
  have lk: "links ?g"
    using assms(1) new n old P
    by (auto simp: tree_inv_def links_def wf_refs_def less_Suc_eq)
  have "upload_count ?g r = upload_count h r" for r
    using old new(2) n by (simp add: upload_count_def cong: if_cong)
  moreover have "load ?g r = load h r" for r by (simp add: NewPeer_def)
  ultimately have "loads ?g" using assms(1) by (simp add: tree_inv_def loads_def)
  with refs rel ids lk assms(1) show ?thesis by (simp add: tree_inv_def)
qed

end
