(* ===== verification/Supervisor_Managers.thy ===== *)
theory Supervisor_Managers
  imports Supervisor "HOL-Library.Sublist"
begin

text \<open>
  The managers of \<open>scheduler/supervisor\<close> as registries, their garbage collectors, and
  what a task's \<open>Pick\<close>, back-to-source budget and status operations compute.
\<close>

section \<open>Registries\<close>

text \<open>
  What the scheduler relies on in each of its three managers: the object registered last
  under an identifier is found under it until it is deleted.
\<close>

locale registry =
  fixes Get :: "string \<Rightarrow> heap \<Rightarrow> nat option"
    and Add :: "nat \<Rightarrow> heap \<Rightarrow> heap"
    and Del :: "string \<Rightarrow> heap \<Rightarrow> heap"
    and key :: "heap \<Rightarrow> nat \<Rightarrow> string"
  assumes Get_Add: "Get k (Add r h) = (if k = key h r then Some r else Get k h)"
    and Get_Del: "Get k (Del k' h) = (if k = k' then None else Get k h)"
    and key_Add: "key (Add r h) s = key h s"
    and key_Del: "key (Del k' h) s = key h s"
begin

definition well_keyed :: "heap \<Rightarrow> bool" where
  "well_keyed h \<longleftrightarrow> (\<forall>k r. Get k h = Some r \<longrightarrow> key h r = k)"

lemma well_keyed_Add: "well_keyed h \<Longrightarrow> well_keyed (Add r h)"
  by (simp add: well_keyed_def Get_Add key_Add)

lemma well_keyed_Del: "well_keyed h \<Longrightarrow> well_keyed (Del k h)"
  by (simp add: well_keyed_def Get_Del key_Del)

lemma key_Add_all: "key (fold Add rs h) s = key h s"
  by (induction rs arbitrary: h) (simp_all add: key_Add)

lemma Get_Add_other: "k \<notin> key h ` set rs \<Longrightarrow> Get k (fold Add rs h) = Get k h"
  by (induction rs arbitrary: h) (simp_all add: Get_Add key_Add)

lemma Get_Add_all:
  "distinct (map (key h) rs) \<Longrightarrow> r \<in> set rs \<Longrightarrow> Get (key h r) (fold Add rs h) = Some r"
proof (induction rs arbitrary: h)
  case (Cons x rs)
  show ?case
  proof (cases "r = x")
    case True
    have "key h x \<notin> key (Add x h) ` set rs" using Cons.prems(1) by (simp add: key_Add)
    then have "Get (key h x) (fold Add rs (Add x h)) = Get (key h x) (Add x h)"
      by (rule Get_Add_other)
    then show ?thesis by (simp add: Get_Add True)
  next
    case False
    have "key (Add x h) = key h" by (rule ext) (rule key_Add)
    with False Cons.prems have "distinct (map (key (Add x h)) rs)" "r \<in> set rs"
      by simp_all
    from Cons.IH[OF this] show ?thesis by (simp add: key_Add)
  qed
qed simp

lemma Get_Del_all: "Get k (fold Del ks h) = (if k \<in> set ks then None else Get k h)"
  by (induction ks arbitrary: h) (simp_all add: Get_Del)

end

lemma peerManager_Delete_sel [simp, frame_simps]:
  "p_ID (peer_at (peerManager_Delete k h) r) = p_ID (peer_at h r)"
  "p_Task (peer_at (peerManager_Delete k h) r) = p_Task (peer_at h r)"
  "p_Host (peer_at (peerManager_Delete k h) r) = p_Host (peer_at h r)"
  "p_status (peer_at (peerManager_Delete k h) r) = p_status (peer_at h r)"
  "p_leave (peer_at (peerManager_Delete k h) r) = p_leave (peer_at h r)"
  "p_lastAccessAt (peer_at (peerManager_Delete k h) r) = p_lastAccessAt (peer_at h r)"
  "p_conn (peer_at (peerManager_Delete k h) r) = p_conn (peer_at h r)"
  "next_peer (peerManager_Delete k h) = next_peer h"
  by (simp_all add: peerManager_Delete_def Let_def Host_DeletePeer_def split: option.split)

lemma Delete_absent: "Load m k = None \<Longrightarrow> Delete k m = m"
  by (simp add: Load_def Delete_def map_of_eq_None_iff)

lemma peerManager_Delete_eq [simp, frame_simps]:
  "peerManager (peerManager_Delete k h) = Delete k (peerManager h)"
  by (simp add: peerManager_Delete_def peerManager_Get_def Let_def Host_DeletePeer_def
      Delete_absent split: option.split)

interpretation hosts: registry hostManager_Get hostManager_Add hostManager_Delete
  "\<lambda>h r. h_UUID (host_at h r)"
  by unfold_locales
    (simp_all add: hostManager_Get_def hostManager_Add_def hostManager_Delete_def)

interpretation tasks: registry taskManager_Get taskManager_Add taskManager_Delete
  "\<lambda>h r. t_ID (task_at h r)"
  by unfold_locales
    (simp_all add: taskManager_Get_def taskManager_Add_def taskManager_Delete_def)

interpretation peers: registry peerManager_Get peerManager_Add peerManager_Delete
  "\<lambda>h r. p_ID (peer_at h r)"
  by unfold_locales
    (simp_all add: peerManager_Get_def peerManager_Add_def Let_def Host_AddPeer_def)

lemma taskManager_GetOrAdd_correct:
  "taskManager_GetOrAdd t h =
     (case taskManager_Get (t_ID (task_at h t)) h of
        Some r \<Rightarrow> ((r, True), h)
      | None \<Rightarrow> ((t, False), taskManager_Add t h))"
  by (simp add: taskManager_GetOrAdd_def taskManager_Get_def taskManager_Add_def LoadOrStore_def
      split: option.split)

section \<open>Deleting a peer\<close>

lemma tree_inv_Delete:
  assumes "tree_inv h" and "peers.well_keyed h"
    and "\<And>k r. peerManager_Get k h = Some r \<Longrightarrow> r < next_peer h"
  shows "tree_inv (peerManager_Delete k h)"
proof (cases "peerManager_Get k h")
  case None
  with assms show ?thesis by (simp add: peerManager_Delete_def)
next
  case (Some p)
  let ?g = "Task_DeletePeer (p_Task (peer_at h p)) p (Host_DeletePeer (p_Host (peer_at h p)) k h)"
  have "tree_inv ?g" using assms(1) by (subst tree_inv_cong[of _ h]) simp_all
  moreover have "p < next_peer ?g" using assms(3)[OF Some] by (simp add: Host_DeletePeer_def)
  ultimately have "tree_inv (ReplaceParent p None ?g)" by (rule tree_inv_detach)
  then have "tree_inv ((ReplaceParent p None ?g)\<lparr>peerManager := m\<rparr>)" for m
    by (subst tree_inv_cong[of _ "ReplaceParent p None ?g"]) simp_all
  with Some show ?thesis by (simp add: peerManager_Delete_def Let_def)
qed

lemma GetParent_Delete:
  "GetParent (peerManager_Delete k h) r =
     (if peerManager_Get k h = Some r then None else GetParent h r)"
  by (auto simp add: peerManager_Delete_def Let_def GetParent_def[of "_\<lparr>peerManager := _\<rparr>"]
      GetParent_def[symmetric] Host_DeletePeer_def split: option.split)
     (auto simp: GetParent_def)

section \<open>Garbage collection of peers\<close>

text \<open>The peers a collection at time \<open>now\<close> drops, read from the state it starts in.\<close>

definition peer_dead :: "GCConfig \<Rightarrow> time \<Rightarrow> heap \<Rightarrow> peer_ref \<Rightarrow> bool" where
  "peer_dead cfg now h p \<longleftrightarrow>
     (let elapsed = now - p_lastAccessAt (peer_at h p)
      in IsLeave h p \<or> IsFail h p \<or> elapsed > PeerTTL cfg
         \<or> elapsed > PeerTTI cfg \<and> \<not> IsDone h p \<and> \<not> h_IsCDN (peerHost h p) \<and> \<not> IsConnected h p)"

text \<open>What a visit reads of a peer; other peers' visits leave it alone.\<close>

definition gc_view :: "heap \<Rightarrow> peer_ref \<Rightarrow> bool \<times> PeerStatus \<times> time \<times> bool \<times> bool" where
  "gc_view h p = (p_leave (peer_at h p), p_status (peer_at h p), p_lastAccessAt (peer_at h p),
     h_IsCDN (peerHost h p), IsConnected h p)"

lemma peer_dead_cong: "gc_view h p = gc_view h' p \<Longrightarrow> peer_dead cfg now h p = peer_dead cfg now h' p"
  by (simp add: gc_view_def peer_dead_def IsLeave_def IsFail_def IsDone_def)

lemma chan_at_ops [simp, frame_simps]:
  "chan_at (Task_UpdatePeer t p h) = chan_at h" "chan_at (Task_DeletePeer t p h) = chan_at h"
  "chan_at (insertChild q c h) = chan_at h" "chan_at (deleteChild q c h) = chan_at h"
  "chan_at (SetParent c q' h) = chan_at h" "chan_at (Task_SetStatus t s h) = chan_at h"
  by (simp_all add: Task_UpdatePeer_def Task_DeletePeer_def insertChild_def deleteChild_def Let_def
      SetParent_def Task_SetStatus_def)

lemma chan_at_ReplaceParent [simp, frame_simps]: "chan_at (ReplaceParent c q h) = chan_at h"
  by (simp add: ReplaceParent_def Let_def split: option.split)

lemma chan_at_Delete [simp, frame_simps]: "chan_at (peerManager_Delete k h) = chan_at h"
  by (simp add: peerManager_Delete_def Let_def Host_DeletePeer_def split: option.split)

lemma h_IsCDN_ReplaceParent [simp, frame_simps]:
  "h_IsCDN (host_at (ReplaceParent c q h) r) = h_IsCDN (host_at h r)"
  by (simp add: ReplaceParent_def Let_def split: option.split)

lemma h_IsCDN_Delete [simp, frame_simps]:
  "h_IsCDN (host_at (peerManager_Delete k h) r) = h_IsCDN (host_at h r)"
  by (simp add: peerManager_Delete_def Let_def Host_DeletePeer_def split: option.split)

lemma gc_view_Delete [simp]: "gc_view (peerManager_Delete k h) p = gc_view h p"
  by (simp add: gc_view_def peerHost_def IsConnected_def cong: option.case_cong)

lemma gc_view_other [simp]:
  "gc_view (hostManager_Delete k h) p = gc_view h p"
  "gc_view (Task_SetStatus t s h) p = gc_view h p"
  "q \<noteq> p \<Longrightarrow> gc_view (SetStatus q st h) p = gc_view h p"
  "q \<noteq> p \<Longrightarrow> gc_view (Leave q h) p = gc_view h p"
  by (simp_all add: gc_view_def peerHost_def IsConnected_def hostManager_Delete_def SetStatus_def
      Leave_def cong: option.case_cong)

lemma peerManager_gc_ops [simp, frame_simps]:
  "peerManager (hostManager_Delete k h) = peerManager h"
  "peerManager (SetStatus q st h) = peerManager h" "peerManager (Leave q h) = peerManager h"
  by (simp_all add: hostManager_Delete_def SetStatus_def Leave_def)

lemma mark_other: "q \<noteq> p \<Longrightarrow> gc_view (peer_gc_mark cfg e q h) p = gc_view h p"
  by (simp add: peer_gc_mark_def Let_def)

lemma sweep_view: "gc_view (peer_gc_sweep cfg e k q h) p = gc_view h p"
  by (simp add: peer_gc_sweep_def Let_def)

lemma peer_gc_visit_other:
  "q \<noteq> p \<Longrightarrow> gc_view (peer_gc_visit cfg now (k, q) h) p = gc_view h p"
  by (simp add: peer_gc_visit_def Let_def mark_other sweep_view)

lemma mark_manager: "peerManager (peer_gc_mark cfg e q h) = peerManager h"
  by (simp add: peer_gc_mark_def Let_def)

lemma sweep_manager:
  "peerManager (peer_gc_sweep cfg e k p h) =
     (if IsLeave h p \<or> IsFail h p \<or> e > PeerTTL cfg then Delete k (peerManager h) else peerManager h)"
  by (simp add: peer_gc_sweep_def Let_def)

lemma mark_leave_fail:
  "IsLeave (peer_gc_mark cfg e p h) p \<longleftrightarrow> IsLeave h p
     \<or> e > PeerTTI cfg \<and> \<not> IsDone h p \<and> \<not> h_IsCDN (peerHost h p) \<and> \<not> IsConnected h p"
  "IsFail (peer_gc_mark cfg e p h) p \<longleftrightarrow> IsFail h p"
  by (auto simp add: peer_gc_mark_def Let_def IsLeave_def IsFail_def IsDone_def SetStatus_def Leave_def)

lemma peer_gc_visit_manager:
  "peerManager (peer_gc_visit cfg now (k, p) h) =
     (if peer_dead cfg now h p then Delete k (peerManager h) else peerManager h)"
  by (auto simp add: peer_gc_visit_def peer_dead_def Let_def sweep_manager mark_manager mark_leave_fail)

lemma Delete_filter: "Delete k m = filter (\<lambda>(k', _). k \<noteq> k') m"
  by (simp add: Delete_def AList.delete_eq case_prod_beta)

lemma peer_gc_fold:
  assumes "distinct (map snd es)" and "distinct (map fst es)"
  shows "peerManager (fold (peer_gc_visit cfg now) es h) =
    filter (\<lambda>(k, _). k \<notin> fst ` set (filter (\<lambda>(_, p). peer_dead cfg now h p) es)) (peerManager h)"
  using assms
proof (induction es arbitrary: h)
  case Nil
  then show ?case by (simp add: case_prod_beta)
next
  case (Cons e es)
  obtain k p where e: "e = (k, p)" by (cases e)
  let ?g = "peer_gc_visit cfg now (k, p) h"
  have same: "peer_dead cfg now ?g q = peer_dead cfg now h q" if "(l, q) \<in> set es" for l q
  proof (intro peer_dead_cong peer_gc_visit_other)
    show "p \<noteq> q" using that Cons.prems(1) e by force
  qed
  have "filter (\<lambda>(_, p). peer_dead cfg now ?g p) es = filter (\<lambda>(_, p). peer_dead cfg now h p) es"
    by (rule filter_cong) (auto simp: same)
  then have "peerManager (fold (peer_gc_visit cfg now) es ?g) =
      filter (\<lambda>(k, _). k \<notin> fst ` set (filter (\<lambda>(_, p). peer_dead cfg now h p) es)) (peerManager ?g)"
    using Cons.IH[of ?g] Cons.prems by simp
  then show ?case
    by (auto simp: e peer_gc_visit_manager Delete_filter intro!: filter_cong)
qed

lemma peer_gc_filter:
  assumes "wf_map (peerManager h)" and "\<And>k p. (k, p) \<in> set (peerManager h) \<Longrightarrow> p_ID (peer_at h p) = k"
  shows "peerManager (peerManager_RunGC cfg now h) =
    filter (\<lambda>(k, p). \<not> peer_dead cfg now h p) (peerManager h)"
proof -
  let ?m = "peerManager h" and ?dead = "\<lambda>(k :: string, p). peer_dead cfg now h p"
  have "map (\<lambda>p. p_ID (peer_at h p)) (map snd ?m) = map fst ?m"
    using assms(2) by (auto simp: case_prod_beta)
  then have refs: "distinct (map snd ?m)"
    using assms(1) by (metis distinct_map)
  have "k \<notin> fst ` set (filter ?dead ?m) \<longleftrightarrow> \<not> ?dead (k, p)" if "(k, p) \<in> set ?m" for k p
  proof -
    have "k \<in> fst ` set (filter ?dead ?m) \<longleftrightarrow> (\<exists>q. (k, q) \<in> set ?m \<and> ?dead (k, q))"
      by (auto simp: image_iff)
    moreover have "q = p" if "(k, q) \<in> set ?m" for q
      using assms(1) that \<open>(k, p) \<in> set ?m\<close> by (rule eq_key_imp_eq_value)
    ultimately show ?thesis using that by blast
  qed
  then show ?thesis
    unfolding peerManager_RunGC_def
    by (subst peer_gc_fold[OF refs assms(1)]) (auto intro!: filter_cong)
qed

section \<open>Garbage collection of tasks\<close>

lemma GetPeersByTask_eq:
  "GetPeersByTask tid h = map snd (filter (\<lambda>(_, p). t_ID (peerTask h p) = tid) (peerManager h))"
proof -
  have "range_loop (\<lambda>(_ :: string, p) ps. (if P p then ps @ [p] else ps, True)) m acc =
      acc @ map snd (filter (\<lambda>(_, p). P p) m)" for P :: "nat \<Rightarrow> bool" and m acc
    by (induction m arbitrary: acc) auto
  then show ?thesis by (simp add: GetPeersByTask_def)
qed

lemma t_ID_ops [simp, frame_simps]:
  "t_ID (task_at (Task_UpdatePeer t p h) r) = t_ID (task_at h r)"
  "t_ID (task_at (Task_DeletePeer t p h) r) = t_ID (task_at h r)"
  "t_ID (task_at (Task_SetStatus t s h) r) = t_ID (task_at h r)"
  "t_ID (task_at (SetParent c q h) r) = t_ID (task_at h r)"
  by (simp_all add: Task_UpdatePeer_def Task_DeletePeer_def Task_SetStatus_def SetParent_def)

lemma t_ID_ReplaceParent [simp, frame_simps]:
  "t_ID (task_at (ReplaceParent c q h) r) = t_ID (task_at h r)"
  by (simp add: ReplaceParent_def insertChild_def deleteChild_def Let_def split: option.split)

lemma t_ID_Delete [simp, frame_simps]:
  "t_ID (task_at (peerManager_Delete k h) r) = t_ID (task_at h r)"
  by (simp add: peerManager_Delete_def Let_def Host_DeletePeer_def split: option.split)

lemma Delete_all_manager:
  "peerManager (fold (\<lambda>p. peerManager_Delete (f p)) ps h) =
     filter (\<lambda>(k, _). k \<notin> f ` set ps) (peerManager h)"
  by (induction ps arbitrary: h) (auto simp: Delete_filter case_prod_beta intro!: filter_cong)

lemma Delete_all_frame:
  "t_ID (peerTask (fold (\<lambda>p. peerManager_Delete (f p)) ps h) r) = t_ID (peerTask h r)"
  by (induction ps arbitrary: h) (simp_all add: peerTask_def)

lemma task_gc_collects_peers:
  assumes "now - t_lastAccessAt (task_at h task) > TaskTTL cfg"
    and "\<And>k p. (k, p) \<in> set (peerManager h) \<Longrightarrow> p_ID (peer_at h p) = k"
    and "(k, p) \<in> set (peerManager (task_gc_visit cfg now (tid, task) h))"
  shows "t_ID (peerTask (task_gc_visit cfg now (tid, task) h) p) \<noteq> tid"
proof -
  define g where "g = (let h1 = (if now - t_lastAccessAt (task_at h task) > TaskTTI cfg
      \<and> Task_IsSuccess (task_at h task) then Task_SetStatus task TaskStatusZombie h else h)
    in if ul_Len (t_peers (task_at h1 task)) = 0 then Task_SetStatus task TaskStatusWaiting h1 else h1)"
  have m: "peerManager g = peerManager h" and pa: "peer_at g = peer_at h"
    and tid: "t_ID (peerTask g r) = t_ID (peerTask h r)" for r
    by (simp_all add: g_def Let_def peerTask_def)
  let ?ps = "GetPeersByTask tid g"
  let ?k = "fold (\<lambda>p. peerManager_Delete (p_ID (peer_at g p))) ?ps g"
  have v: "task_gc_visit cfg now (tid, task) h = taskManager_Delete tid ?k"
    using assms(1) by (simp add: task_gc_visit_def g_def Let_def)
  have kp: "(k, p) \<in> set (peerManager h)" "k \<notin> (\<lambda>p. p_ID (peer_at h p)) ` set ?ps"
    using assms(3) unfolding v by (auto simp: taskManager_Delete_def Delete_all_manager m pa)
  then have "p \<notin> set ?ps" using assms(2)[OF kp(1)] by auto
  with kp(1) have "t_ID (peerTask h p) \<noteq> tid"
    by (force simp: GetPeersByTask_eq m tid)
  moreover have "t_ID (peerTask (taskManager_Delete tid ?k) p) = t_ID (peerTask h p)"
    using Delete_all_frame[of "\<lambda>p. p_ID (peer_at g p)" ?ps g p]
    by (simp add: taskManager_Delete_def peerTask_def tid[unfolded peerTask_def])
  ultimately show ?thesis unfolding v by simp
qed

section \<open>Picking peers of a task\<close>

lemma pick_loop_correct:
  assumes "\<And>x. x \<in> set xs \<Longrightarrow> f x = Ret (g x)"
  shows "pick_loop limit f xs acc = Ret (acc @ take (nat limit - length acc) (filter g xs))"
  using assms
proof (induction xs arbitrary: acc)
  case (Cons x xs)
  show ?case
  proof (cases "limit \<le> int (length acc)")
    case True
    then show ?thesis by simp
  next
    case False
    then have *: "nat limit - length acc = Suc (nat limit - Suc (length acc))" by linarith
    have "f x = Ret (g x)" using Cons.prems by simp
    with False Cons.IH[of "acc @ [x]"] Cons.IH[of acc] Cons.prems show ?thesis
      by (simp add: *)
  qed
qed simp

lemma Pick_correct:
  assumes "\<And>x. x \<in> set (ul_container (t_peers t)) \<Longrightarrow> f x = Ret (g x)"
  shows "Pick limit f t = Ret (take (nat limit) (filter g (ul_container (t_peers t))))"
  using pick_loop_correct[of "ul_container (t_peers t)" f g limit "[]"] assms
  by (simp add: Pick_def)

lemma PickReverse_correct:
  assumes "\<And>x. x \<in> set (ul_container (t_peers t)) \<Longrightarrow> f x = Ret (g x)"
  shows "PickReverse limit f t = Ret (take (nat limit) (filter g (rev (ul_container (t_peers t)))))"
  using pick_loop_correct[of "rev (ul_container (t_peers t))" f g limit "[]"] assms
  by (simp add: PickReverse_def)

text \<open>What a pick returns was accepted by the callback, is on the list and respects the limit.\<close>

lemma pick_loop_sound:
  "pick_loop limit f xs acc = Ret ys \<Longrightarrow>
   \<exists>zs. ys = acc @ zs \<and> subseq zs xs \<and> (\<forall>z \<in> set zs. f z = Ret True)
     \<and> (zs \<noteq> [] \<longrightarrow> int (length ys) \<le> limit)"
proof (induction xs arbitrary: acc)
  case (Cons x xs)
  show ?case
  proof (cases "limit \<le> int (length acc)")
    case False
    with Cons.prems obtain ok where ok: "f x = Ret ok"
      "pick_loop limit f xs (if ok then acc @ [x] else acc) = Ret ys" by auto
    from Cons.IH[OF ok(2)] obtain zs where zs: "ys = (if ok then acc @ [x] else acc) @ zs"
      "subseq zs xs" "\<forall>z \<in> set zs. f z = Ret True" "zs \<noteq> [] \<longrightarrow> int (length ys) \<le> limit" by auto
    show ?thesis
    proof (cases ok)
      case True
      with zs ok False show ?thesis by (intro exI[of _ "x # zs"]) (cases zs; auto)
    next
      case False
      with zs show ?thesis by (intro exI[of _ zs]) auto
    qed
  qed (use Cons.prems in auto)
qed auto

lemma Pick_sound:
  assumes "Pick limit f t = Ret ys"
  shows "subseq ys (ul_container (t_peers t))" "\<And>y. y \<in> set ys \<Longrightarrow> f y = Ret True"
    "int (length ys) \<le> max 0 limit"
  using pick_loop_sound[of limit f _ "[]" ys] assms by (fastforce simp: Pick_def)+

lemma PickReverse_sound:
  assumes "PickReverse limit f t = Ret ys"
  shows "subseq ys (rev (ul_container (t_peers t)))" "\<And>y. y \<in> set ys \<Longrightarrow> f y = Ret True"
    "int (length ys) \<le> max 0 limit"
  using pick_loop_sound[of limit f _ "[]" ys] assms by (fastforce simp: PickReverse_def)+

section \<open>The back-to-source budget\<close>

lemma contains_string_iff [simp]: "contains_string x xs \<longleftrightarrow> x \<in> set xs"
  by (induction xs) auto

lemma ContainsBackToSourcePeer_iff [simp]:
  "ContainsBackToSourcePeer k t \<longleftrightarrow> k \<in> set (t_backToSourcePeers t)"
  by (simp add: ContainsBackToSourcePeer_def)

text \<open>Peers sent back to the source and the weight left always sum to the budget.\<close>

definition budget :: "Task \<Rightarrow> int" where
  "budget t = int (length (t_backToSourcePeers t)) + sint (t_BackToSourceWeight t)"

lemma AddBackToSourcePeer_keeps:
  assumes "distinct (t_backToSourcePeers t)" and "0 \<le> sint (t_BackToSourceWeight t)"
  shows "budget (AddBackToSourcePeer k t) = budget t"
    and "distinct (t_backToSourcePeers (AddBackToSourcePeer k t))"
    and "0 \<le> sint (t_BackToSourceWeight (AddBackToSourcePeer k t))"
  using assms by (simp_all add: AddBackToSourcePeer_def budget_def sint_dec_32)

lemma AddBackToSourcePeer_all_keeps:
  assumes "distinct (t_backToSourcePeers t)" and "0 \<le> sint (t_BackToSourceWeight t)"
  shows "budget (fold AddBackToSourcePeer ks t) = budget t
    \<and> distinct (t_backToSourcePeers (fold AddBackToSourcePeer ks t))
    \<and> 0 \<le> sint (t_BackToSourceWeight (fold AddBackToSourcePeer ks t))"
  using assms
proof (induction ks arbitrary: t)
  case (Cons k ks)
  from Cons.IH[OF AddBackToSourcePeer_keeps(2,3)[OF Cons.prems]]
    AddBackToSourcePeer_keeps(1)[OF Cons.prems]
  show ?case by simp
qed simp

section \<open>The order of a task's peers\<close>

lemma sint_HostMaxLoad: "sint HostMaxLoad = 5000"
  by (simp add: HostMaxLoad_def)

lemma SortedValue_eq:
  assumes "0 \<le> sint (p_TotalPieceCount (peer_at h p))" "sint (p_TotalPieceCount (peer_at h p)) \<le> 400000"
    and "0 \<le> sint (getFreeLoad h p)" "sint (getFreeLoad h p) \<le> 5000"
  shows "SortedValue h p = sint (p_TotalPieceCount (peer_at h p)) * 5000
    + (if h_IsCDN (peerHost h p) then 0 else sint (getFreeLoad h p))"
proof -
  have m: "sint (p_TotalPieceCount (peer_at h p) * HostMaxLoad)
      = sint (p_TotalPieceCount (peer_at h p)) * 5000"
    using assms by (subst sint_mult_32) (auto simp: sint_HostMaxLoad)
  moreover have "sint (p_TotalPieceCount (peer_at h p) * HostMaxLoad + getFreeLoad h p)
      = sint (p_TotalPieceCount (peer_at h p)) * 5000 + sint (getFreeLoad h p)"
    using assms by (subst sint_add_32) (auto simp: m)
  ultimately show ?thesis by (simp add: SortedValue_def)
qed

end
