(* ===== verification/Go_Text.thy ===== *)
theory Go_Text
  imports Go_Prelude
begin

text \<open>
  What the modelled code uses of Go's \<open>strings\<close>, \<open>strconv\<close>, \<open>net/textproto\<close> and the
  \<open>%d\<close> verb. A Go string is a sequence of bytes, as is a HOL \<^typ>\<open>string\<close>.
\<close>

section \<open>strings\<close>

fun Split :: "string \<Rightarrow> char \<Rightarrow> string list" where
  "Split [] sep = [[]]"
| "Split (c # s) sep =
     (if c = sep then [] # Split s sep
      else case Split s sep of [] \<Rightarrow> [[c]] | w # ws \<Rightarrow> (c # w) # ws)"

fun HasPrefix :: "string \<Rightarrow> string \<Rightarrow> bool" where
  "HasPrefix s [] = True"
| "HasPrefix [] (p # ps) = False"
| "HasPrefix (c # s) (p # ps) = (c = p \<and> HasPrefix s ps)"

definition HasSuffix :: "string \<Rightarrow> string \<Rightarrow> bool" where
  "HasSuffix s suffix = HasPrefix (rev s) (rev suffix)"

definition TrimPrefix :: "string \<Rightarrow> string \<Rightarrow> string" where
  "TrimPrefix s p = (if HasPrefix s p then drop (length p) s else s)"

definition TrimSuffix :: "string \<Rightarrow> string \<Rightarrow> string" where
  "TrimSuffix s p = (if HasSuffix s p then take (length s - length p) s else s)"

definition Count :: "string \<Rightarrow> char \<Rightarrow> nat" where
  "Count s c = length (filter (\<lambda>x. x = c) s)"

text \<open>\<open>strings.Index\<close> of a one-byte string.\<close>

fun Index :: "string \<Rightarrow> char \<Rightarrow> nat option" where
  "Index [] c = None"
| "Index (x # s) c = (if x = c then Some 0 else map_option Suc (Index s c))"

definition trim_by :: "(char \<Rightarrow> bool) \<Rightarrow> string \<Rightarrow> string" where
  "trim_by P s = rev (dropWhile P (rev (dropWhile P s)))"

text \<open>\<open>textproto.TrimString\<close> trims ASCII space, tab, newline and carriage return.\<close>

definition ascii_space :: "char \<Rightarrow> bool" where
  "ascii_space c \<longleftrightarrow> c = CHR '' '' \<or> c = CHR 0x09 \<or> c = CHR 0x0A \<or> c = CHR 0x0D"

definition TrimString :: "string \<Rightarrow> string" where
  "TrimString s = trim_by ascii_space s"

section \<open>strconv\<close>

datatype num_error = ErrSyntax | ErrRange

definition digit_val :: "char \<Rightarrow> nat option" where
  "digit_val c =
     (let n = of_char c :: nat
      in if 48 \<le> n \<and> n \<le> 57 then Some (n - 48)
         else if 97 \<le> n \<and> n \<le> 122 then Some (n - 97 + 10)
         else if 65 \<le> n \<and> n \<le> 90 then Some (n - 65 + 10)
         else None)"

text \<open>The digit loop of \<open>ParseUint\<close> at 64 bits: \<open>n\<close> is the value read so far.\<close>

fun parse_digits :: "nat \<Rightarrow> bool \<Rightarrow> string \<Rightarrow> nat \<Rightarrow> num_error + nat" where
  "parse_digits base base0 [] n = Inr n"
| "parse_digits base base0 (c # s) n =
     (if c = CHR ''_'' \<and> base0 then parse_digits base base0 s n
      else case digit_val c of
             None \<Rightarrow> Inl ErrSyntax
           | Some d \<Rightarrow>
               if base \<le> d then Inl ErrSyntax
               else if 2 ^ 64 \<le> n * base + d then Inl ErrRange
               else parse_digits base base0 s (n * base + d))"

definition ParseUint10 :: "string \<Rightarrow> num_error + uint64" where
  "ParseUint10 s =
     (if s = [] then Inl ErrSyntax
      else case parse_digits 10 False s 0 of Inl e \<Rightarrow> Inl e | Inr n \<Rightarrow> Inr (of_nat n))"

definition lower_is :: "char \<Rightarrow> char \<Rightarrow> char \<Rightarrow> bool" where
  "lower_is c lo up \<longleftrightarrow> c = lo \<or> c = up"

text \<open>\<open>underscoreOK\<close>: underscores separate digits, or the base prefix from the digits.\<close>

datatype us_state = UsStart | UsDigit | UsUnder | UsOther

fun underscore_loop :: "bool \<Rightarrow> us_state \<Rightarrow> string \<Rightarrow> bool" where
  "underscore_loop hex i [] = (i \<noteq> UsUnder)"
| "underscore_loop hex i (c # s) =
     (if (48 \<le> (of_char c :: nat) \<and> (of_char c :: nat) \<le> 57) \<or>
         (hex \<and> (case digit_val c of Some d \<Rightarrow> 10 \<le> d \<and> d < 16 | None \<Rightarrow> False))
      then underscore_loop hex UsDigit s
      else if c = CHR ''_'' then (if i \<noteq> UsDigit then False else underscore_loop hex UsUnder s)
      else if i = UsUnder then False
      else underscore_loop hex UsOther s)"

definition underscoreOK :: "string \<Rightarrow> bool" where
  "underscoreOK s0 =
     (let s = (case s0 of c # r \<Rightarrow> (if c = CHR ''-'' \<or> c = CHR ''+'' then r else s0) | [] \<Rightarrow> s0)
      in case s of
           z # b # r \<Rightarrow>
             if z = CHR ''0'' \<and> (lower_is b CHR ''b'' CHR ''B'' \<or> lower_is b CHR ''o'' CHR ''O''
                                   \<or> lower_is b CHR ''x'' CHR ''X'')
             then underscore_loop (lower_is b CHR ''x'' CHR ''X'') UsDigit r
             else underscore_loop False UsStart s
         | _ \<Rightarrow> underscore_loop False UsStart s)"

definition base_prefix :: "string \<Rightarrow> nat \<times> string" where
  "base_prefix s =
     (case s of
        c # r \<Rightarrow>
          if c \<noteq> CHR ''0'' then (10, s)
          else (case r of
                  b # r' \<Rightarrow>
                    if length s \<ge> 3 \<and> lower_is b CHR ''b'' CHR ''B'' then (2, r')
                    else if length s \<ge> 3 \<and> lower_is b CHR ''o'' CHR ''O'' then (8, r')
                    else if length s \<ge> 3 \<and> lower_is b CHR ''x'' CHR ''X'' then (16, r')
                    else (8, r)
                | [] \<Rightarrow> (8, r))
      | [] \<Rightarrow> (10, s))"

definition ParseUint0 :: "string \<Rightarrow> num_error + nat" where
  "ParseUint0 s =
     (if s = [] then Inl ErrSyntax
      else let (base, digits) = base_prefix s
           in case parse_digits base True digits 0 of
                Inl e \<Rightarrow> Inl e
              | Inr n \<Rightarrow> if CHR ''_'' \<in> set digits \<and> \<not> underscoreOK s then Inl ErrSyntax else Inr n)"

definition ParseUint_nat :: "bool \<Rightarrow> string \<Rightarrow> num_error + nat" where
  "ParseUint_nat base0 s =
     (if base0 then ParseUint0 s
      else if s = [] then Inl ErrSyntax else parse_digits 10 False s 0)"

text \<open>\<open>ParseInt(s, base, 64)\<close> for base 0 and base 10: an optional sign, then a magnitude.\<close>

definition ParseInt :: "bool \<Rightarrow> string \<Rightarrow> num_error + int64" where
  "ParseInt base0 s =
     (case s of
        [] \<Rightarrow> Inl ErrSyntax
      | c # r \<Rightarrow>
          let neg = (c = CHR ''-'');
              body = (if c = CHR ''+'' \<or> c = CHR ''-'' then r else s)
          in case ParseUint_nat base0 body of
               Inl e \<Rightarrow> Inl e
             | Inr un \<Rightarrow>
                 if \<not> neg \<and> 2 ^ 63 \<le> un then Inl ErrRange
                 else if neg \<and> 2 ^ 63 < un then Inl ErrRange
                 else Inr (if neg then - of_nat un else of_nat un))"

section \<open>The \<open>%d\<close> verb\<close>

definition digit_char :: "nat \<Rightarrow> char" where
  "digit_char d = char_of (48 + d)"

fun show_nat :: "nat \<Rightarrow> string" where
  "show_nat n = (if n < 10 then [digit_char n] else show_nat (n div 10) @ [digit_char (n mod 10)])"

declare show_nat.simps [simp del]

definition show_int :: "int \<Rightarrow> string" where
  "show_int i = (if i < 0 then CHR ''-'' # show_nat (nat (- i)) else show_nat (nat i))"

section \<open>Lemmas\<close>

lemma Split_not_Nil [simp]: "Split s sep \<noteq> []"
  by (cases s) (auto split: list.split)

lemma Split_no_sep [simp]: "sep \<notin> set s \<Longrightarrow> Split s sep = [s]"
  by (induction s) auto

lemma Split_append: "sep \<notin> set a \<Longrightarrow> Split (a @ sep # b) sep = a # Split b sep"
  by (induction a) auto

lemma length_Split: "length (Split s sep) = Suc (Count s sep)"
proof (induction s)
  case (Cons c s)
  then show ?case by (cases "Split s sep") (auto simp: Count_def)
qed (simp add: Count_def)

lemma Split_elements: "w \<in> set (Split s sep) \<Longrightarrow> sep \<notin> set w"
  by (induction s arbitrary: w) (auto split: list.splits if_splits)

lemma HasPrefix_append [simp]: "HasPrefix (p @ s) p"
  by (induction p) auto

lemma HasPrefix_iff: "HasPrefix s p \<longleftrightarrow> (\<exists>t. s = p @ t)"
  by (induction s p rule: HasPrefix.induct) auto

lemma HasSuffix_iff: "HasSuffix s p \<longleftrightarrow> (\<exists>t. s = t @ p)"
  unfolding HasSuffix_def HasPrefix_iff by (metis rev_append rev_rev_ident)

lemma digit_val_digit_char [simp]: "d < 10 \<Longrightarrow> digit_val (digit_char d) = Some d"
  by (auto simp: digit_val_def digit_char_def Let_def)

definition is_digit :: "char \<Rightarrow> bool" where
  "is_digit c \<longleftrightarrow> 48 \<le> (of_char c :: nat) \<and> (of_char c :: nat) \<le> 57"

lemma is_digit_char: "d < 10 \<Longrightarrow> is_digit (digit_char d)"
  by (simp add: is_digit_def digit_char_def)

lemma is_digit_neq:
  "is_digit c \<Longrightarrow> c \<noteq> CHR ''-''" "is_digit c \<Longrightarrow> c \<noteq> CHR ''_''" "is_digit c \<Longrightarrow> c \<noteq> CHR ''+''"
  "is_digit c \<Longrightarrow> c \<noteq> CHR '',''" "is_digit c \<Longrightarrow> c \<noteq> CHR '' ''" "is_digit c \<Longrightarrow> \<not> ascii_space c"
  by (auto simp: is_digit_def ascii_space_def)

lemma show_nat_not_Nil [simp]: "show_nat n \<noteq> []"
  by (subst show_nat.simps) simp

lemma show_nat_digits: "c \<in> set (show_nat n) \<Longrightarrow> is_digit c"
proof (induction n rule: show_nat.induct)
  case (1 n)
  then show ?case
    by (cases "n < 10") (auto simp: show_nat.simps[of n] is_digit_char)
qed

lemma show_nat_no_dash: "CHR ''-'' \<notin> set (show_nat n)"
  using show_nat_digits is_digit_neq(1) by blast

lemma parse_digits_append:
  "parse_digits base b (s @ t) n =
     (case parse_digits base b s n of Inl e \<Rightarrow> Inl e | Inr m \<Rightarrow> parse_digits base b t m)"
  by (induction s arbitrary: n) (auto split: option.split)

lemma digit_char_not_underscore: "d < 10 \<Longrightarrow> digit_char d \<noteq> CHR ''_''"
  by (rule is_digit_neq(2)) (rule is_digit_char)

lemma parse_show_nat: "n < 2 ^ 64 \<Longrightarrow> parse_digits 10 b (show_nat n) 0 = Inr n"
proof (induction n rule: show_nat.induct)
  case (1 n)
  show ?case
  proof (cases "n < 10")
    case True
    with 1 show ?thesis
      by (subst show_nat.simps) (simp add: digit_char_not_underscore)
  next
    case False
    then have "parse_digits 10 b (show_nat (n div 10)) 0 = Inr (n div 10)"
      using 1 by simp
    with False 1 show ?thesis
      by (subst show_nat.simps)
        (simp add: parse_digits_append digit_char_not_underscore)
  qed
qed

lemma ParseUint10_show: "n < 2 ^ 64 \<Longrightarrow> ParseUint10 (show_nat n) = Inr (of_nat n)"
  by (simp add: ParseUint10_def parse_show_nat)

lemma parse_digits_bound: "parse_digits base b s n = Inr m \<Longrightarrow> n < 2 ^ 64 \<Longrightarrow> m < 2 ^ 64"
  by (induction s arbitrary: n) (auto split: if_splits option.splits)

end
