(* ===== verification/Math_Utils.thy ===== *)
theory Math_Utils
  imports Go_Text
begin

text \<open>
  \<open>pkg/util/mathutils/math_utils.go\<close>. \<open>MaxInt\<close> is written as the source has it: its
  comparison is that of \<open>MinInt\<close>, so it returns the smaller argument.
\<close>

definition MaxInt :: "int \<Rightarrow> int \<Rightarrow> int" where
  "MaxInt a b = (if a < b then a else b)"

definition MaxInt32 :: "int32 \<Rightarrow> int32 \<Rightarrow> int32" where
  "MaxInt32 a b = (if sint a > sint b then a else b)"

definition MinInt :: "int \<Rightarrow> int \<Rightarrow> int" where
  "MinInt a b = (if a < b then a else b)"

definition MinInt32 :: "int32 \<Rightarrow> int32 \<Rightarrow> int32" where
  "MinInt32 a b = (if sint a < sint b then a else b)"

definition MaxInt64 :: "int64 \<Rightarrow> int64 \<Rightarrow> int64" where
  "MaxInt64 a b = (if sint a > sint b then a else b)"

definition MinInt64 :: "int64 \<Rightarrow> int64 \<Rightarrow> int64" where
  "MinInt64 a b = (if sint a < sint b then a else b)"

definition IsNatural :: "string \<Rightarrow> bool" where
  "IsNatural value = (case ParseInt True value of Inr v \<Rightarrow> sint v \<ge> 0 | Inl _ \<Rightarrow> False)"

definition IsInteger :: "string \<Rightarrow> bool" where
  "IsInteger value = (case ParseInt True value of Inr _ \<Rightarrow> True | Inl _ \<Rightarrow> False)"

lemma MinInt_min: "MinInt a b = min a b"
  by (simp add: MinInt_def)

lemma MaxInt_is_min: "MaxInt a b = min a b"
  by (simp add: MaxInt_def)

lemma sint_MaxInt32: "sint (MaxInt32 a b) = max (sint a) (sint b)"
  by (simp add: MaxInt32_def)

lemma sint_MinInt32: "sint (MinInt32 a b) = min (sint a) (sint b)"
  by (simp add: MinInt32_def)

lemma sint_MaxInt64: "sint (MaxInt64 a b) = max (sint a) (sint b)"
  by (simp add: MaxInt64_def)

lemma sint_MinInt64: "sint (MinInt64 a b) = min (sint a) (sint b)"
  by (simp add: MinInt64_def)

lemma IsNatural_IsInteger: "IsNatural s \<Longrightarrow> IsInteger s"
  by (auto simp: IsNatural_def IsInteger_def split: sum.splits)

end
