(* ===== verification/Go_Float.thy ===== *)
theory Go_Float
  imports Complex_Main Math_Utils "HOL-Library.Log_Nat"
begin

text \<open>
  Go's \<open>float64\<close>: IEEE 754 double precision. A finite value is the rational it denotes;
  an operation rounds the exact result to nearest, ties to even (\<open>fl\<close>). Both zeros are
  \<^term>\<open>Fin 0\<close>: the code never looks at a zero's sign. The order is that of
  \<open>sort.Float64s\<close>: NaN first, then by value. Fused multiply-add is not used (amd64).
\<close>

datatype f64 = NaN | NInf | Fin rat | PInf

section \<open>The sorting order\<close>

fun f64_le :: "f64 \<Rightarrow> f64 \<Rightarrow> bool" where
  "f64_le NaN y = True"
| "f64_le NInf y = (y \<noteq> NaN)"
| "f64_le (Fin a) y = (case y of Fin b \<Rightarrow> a \<le> b | PInf \<Rightarrow> True | _ \<Rightarrow> False)"
| "f64_le PInf y = (y = PInf)"

instantiation f64 :: linorder
begin

definition less_eq_f64 :: "f64 \<Rightarrow> f64 \<Rightarrow> bool" where
  "less_eq_f64 = f64_le"

definition less_f64 :: "f64 \<Rightarrow> f64 \<Rightarrow> bool" where
  "less_f64 x y \<longleftrightarrow> f64_le x y \<and> x \<noteq> y"

instance
proof
  fix x y z :: f64
  show "x < y \<longleftrightarrow> x \<le> y \<and> \<not> y \<le> x"
    by (cases x; cases y) (auto simp: less_f64_def less_eq_f64_def)
  show "x \<le> x" by (cases x) (simp_all add: less_eq_f64_def)
  show "x \<le> y \<Longrightarrow> y \<le> z \<Longrightarrow> x \<le> z"
    by (cases x; cases y; cases z) (auto simp: less_eq_f64_def)
  show "x \<le> y \<Longrightarrow> y \<le> x \<Longrightarrow> x = y"
    by (cases x; cases y) (auto simp: less_eq_f64_def)
  show "x \<le> y \<or> y \<le> x"
    by (cases x; cases y) (auto simp: less_eq_f64_def)
qed

end

lemma Fin_le [simp]: "Fin a \<le> Fin b \<longleftrightarrow> a \<le> b" "Fin a < Fin b \<longleftrightarrow> a < b"
  by (auto simp: less_eq_f64_def less_f64_def)

section \<open>Rounding\<close>

definition pow2 :: "int \<Rightarrow> rat" where
  "pow2 k = (if k \<ge> 0 then 2 ^ nat k else 1 / 2 ^ nat (- k))"

text \<open>The exponent of the leading bit of a positive rational.\<close>

definition floor_log2 :: "rat \<Rightarrow> int" where
  "floor_log2 x =
     (let (p, q) = quotient_of x; k = bitlen p - bitlen q in if pow2 k \<le> x then k else k - 1)"

definition round_even :: "rat \<Rightarrow> int" where
  "round_even x =
     (let f = \<lfloor>x\<rfloor>; d = x - of_int f
      in if d < 1 / 2 then f else if d > 1 / 2 then f + 1 else if even f then f else f + 1)"

definition fl :: "rat \<Rightarrow> rat" where
  "fl x = (if x = 0 then 0
           else let e = max (-1074) (floor_log2 \<bar>x\<bar> - 52) in of_int (round_even (x / pow2 e)) * pow2 e)"

definition f64_round :: "rat \<Rightarrow> f64" where
  "f64_round x =
     (let y = fl x in if y \<ge> pow2 1024 then PInf else if y \<le> - pow2 1024 then NInf else Fin y)"

definition f64_of_int :: "int \<Rightarrow> f64" where
  "f64_of_int i = f64_round (of_int i)"

section \<open>Arithmetic\<close>

fun f64_neg :: "f64 \<Rightarrow> f64" where
  "f64_neg NaN = NaN"
| "f64_neg NInf = PInf"
| "f64_neg (Fin a) = Fin (- a)"
| "f64_neg PInf = NInf"

fun f64_add :: "f64 \<Rightarrow> f64 \<Rightarrow> f64" where
  "f64_add NaN y = NaN"
| "f64_add x NaN = NaN"
| "f64_add (Fin a) (Fin b) = f64_round (a + b)"
| "f64_add (Fin a) y = y"
| "f64_add x (Fin b) = x"
| "f64_add PInf PInf = PInf"
| "f64_add NInf NInf = NInf"
| "f64_add x y = NaN"

definition inf_signed :: "rat \<Rightarrow> bool \<Rightarrow> f64" where
  "inf_signed a negative = (if a = 0 then NaN else if (a < 0) = negative then PInf else NInf)"

fun f64_mul :: "f64 \<Rightarrow> f64 \<Rightarrow> f64" where
  "f64_mul NaN y = NaN"
| "f64_mul x NaN = NaN"
| "f64_mul (Fin a) (Fin b) = f64_round (a * b)"
| "f64_mul (Fin a) PInf = inf_signed a False"
| "f64_mul (Fin a) NInf = inf_signed a True"
| "f64_mul PInf (Fin b) = inf_signed b False"
| "f64_mul NInf (Fin b) = inf_signed b True"
| "f64_mul PInf PInf = PInf"
| "f64_mul PInf NInf = NInf"
| "f64_mul NInf PInf = NInf"
| "f64_mul NInf NInf = PInf"

text \<open>Division. A zero divisor here always comes from an unsigned integer, so it is \<open>+0\<close>.\<close>

fun f64_div :: "f64 \<Rightarrow> f64 \<Rightarrow> f64" where
  "f64_div NaN y = NaN"
| "f64_div x NaN = NaN"
| "f64_div (Fin a) (Fin b) =
     (if b = 0 then (if a = 0 then NaN else if a > 0 then PInf else NInf) else f64_round (a / b))"
| "f64_div (Fin a) y = Fin 0"
| "f64_div PInf (Fin b) = (if b < 0 then NInf else PInf)"
| "f64_div NInf (Fin b) = (if b < 0 then PInf else NInf)"
| "f64_div x y = NaN"

text \<open>Go's \<open>>\<close> on \<open>float64\<close>: false as soon as an operand is NaN.\<close>

definition f64_gt :: "f64 \<Rightarrow> f64 \<Rightarrow> bool" where
  "f64_gt x y \<longleftrightarrow> x \<noteq> NaN \<and> y \<noteq> NaN \<and> y < x"

text \<open>\<open>mathutils.EqualFloat64\<close>.\<close>

fun f64_abs :: "f64 \<Rightarrow> f64" where
  "f64_abs (Fin a) = Fin \<bar>a\<bar>"
| "f64_abs NInf = PInf"
| "f64_abs x = x"

definition EqualFloat64 :: "f64 \<Rightarrow> f64 \<Rightarrow> bool" where
  "EqualFloat64 a b \<longleftrightarrow>
     (let d = f64_abs (f64_add a (f64_neg b)) in d \<noteq> NaN \<and> d \<le> f64_round (1 / 10 ^ 9))"

section \<open>Lemmas\<close>

lemma pow2_pos [simp]: "pow2 k > 0"
  by (simp add: pow2_def)

lemma pow2_nonneg [simp]: "0 \<le> pow2 k"
  using pow2_pos[of k] by linarith

lemma pow2_nz [simp]: "pow2 k \<noteq> 0"
  using pow2_pos[of k] by linarith

lemma round_even_of_int [simp]: "round_even (of_int i) = i"
  by (simp add: round_even_def)

lemma round_even_nonneg: "0 \<le> x \<Longrightarrow> 0 \<le> round_even x"
  by (simp add: round_even_def Let_def)

lemma fl_0 [simp]: "fl 0 = 0"
  by (simp add: fl_def)

lemma fl_nonneg: "0 \<le> x \<Longrightarrow> 0 \<le> fl x"
  by (simp add: fl_def Let_def round_even_nonneg)

fun f64_nonneg :: "f64 \<Rightarrow> bool" where
  "f64_nonneg (Fin a) = (0 \<le> a)"
| "f64_nonneg PInf = True"
| "f64_nonneg _ = False"

lemma f64_nonneg_round: "0 \<le> x \<Longrightarrow> f64_nonneg (f64_round x)"
proof -
  assume "0 \<le> x"
  then have "0 \<le> fl x" by (rule fl_nonneg)
  then have "\<not> fl x \<le> - pow2 1024" using pow2_pos[of 1024] by linarith
  with \<open>0 \<le> fl x\<close> show ?thesis by (simp add: f64_round_def Let_def)
qed

lemma f64_nonneg_add: "f64_nonneg x \<Longrightarrow> f64_nonneg y \<Longrightarrow> f64_nonneg (f64_add x y)"
  by (cases x; cases y) (simp_all add: f64_nonneg_round)

lemma f64_nonneg_mul: "0 < a \<Longrightarrow> f64_nonneg y \<Longrightarrow> f64_nonneg (f64_mul (Fin a) y)"
  by (cases y) (simp_all add: f64_nonneg_round inf_signed_def)

lemma f64_nonneg_div: "0 \<le> a \<Longrightarrow> 0 < b \<Longrightarrow> f64_nonneg (f64_div (Fin a) (Fin b))"
  by (simp add: f64_nonneg_round)

lemma f64_nonneg_not_NaN: "f64_nonneg x \<Longrightarrow> x \<noteq> NaN"
  by auto

lemma f64_nonneg_iff: "f64_nonneg x \<longleftrightarrow> Fin 0 \<le> x"
  by (cases x) (simp_all add: less_eq_f64_def)

text \<open>Integers of at most 53 bits are represented exactly.\<close>

lemma pow2_neg_mult: "k \<le> 0 \<Longrightarrow> of_int i / pow2 k = of_int (i * 2 ^ nat (- k))"
  by (cases "k = 0") (simp_all add: pow2_def)

lemma floor_log2_int_le:
  assumes "0 < i" "i < 2 ^ n"
  shows "floor_log2 (of_int i) < int n"
proof -
  have "bitlen i \<le> int n" using assms by (simp add: bitlen_le_iff_power)
  moreover have "bitlen (1 :: int) = 1" by (simp add: bitlen_def floorlog_def)
  moreover have "quotient_of (of_int i) = (i, 1)" by (simp add: quotient_of_int)
  ultimately show ?thesis by (simp add: floor_log2_def Let_def)
qed

lemma fl_of_int:
  assumes "\<bar>i\<bar> < 2 ^ 53"
  shows "fl (of_int i) = of_int i"
proof (cases "i = 0")
  case False
  have log: "floor_log2 \<bar>of_int i\<bar> < 53"
    using floor_log2_int_le[of "\<bar>i\<bar>" 53] assms False by simp
  define e where "e = max (-1074) (floor_log2 \<bar>of_int i\<bar> - 52)"
  have "e \<le> 0" using log by (simp add: e_def)
  then have "of_int i / pow2 e = of_int (i * 2 ^ nat (- e))" by (rule pow2_neg_mult)
  then have "round_even (of_int i / pow2 e) = i * 2 ^ nat (- e)"
    using round_even_of_int by metis
  moreover have "of_int (i * 2 ^ nat (- e)) * pow2 e = (of_int i :: rat)"
    using \<open>of_int i / pow2 e = _\<close> by (metis nonzero_eq_divide_eq pow2_nz)
  ultimately show ?thesis
    using False unfolding fl_def Let_def e_def by simp
qed simp

end
