(* ===== verification/Evaluator.thy ===== *)
theory Evaluator
  imports Supervisor_Managers Go_Float
begin

text \<open>
  \<open>scheduler/core/evaluator\<close>: the score of a candidate parent (\<open>Evaluate\<close>), the tests
  \<open>IsBadNode\<close> and \<open>NeedAdjustParent\<close>, and the choice of the evaluator by configuration.
  The interface \<open>Evaluator\<close> is a record of its three methods; the locale \<open>evaluator\<close>
  states what the scheduler relies on, and \<open>evaluatorBase\<close> interprets it.

  The statistics package the code imports is a parameter, a record of the three functions called.
\<close>

section \<open>The interface\<close>

record Evaluator =
  ev_Evaluate :: "heap \<Rightarrow> peer_ref \<Rightarrow> peer_ref \<Rightarrow> int32 \<Rightarrow> f64 outcome"
  ev_NeedAdjustParent :: "heap \<Rightarrow> peer_ref \<Rightarrow> bool outcome"
  ev_IsBadNode :: "heap \<Rightarrow> peer_ref \<Rightarrow> bool outcome"

record Stats =
  LoadRawData :: "int list \<Rightarrow> f64 list"
  Mean :: "f64 list \<Rightarrow> f64"
  StandardDeviation :: "f64 list \<Rightarrow> f64"

section \<open>Scores\<close>

definition maxScore :: f64 where
  "maxScore = f64_of_int 1"

definition minScore :: f64 where
  "minScore = f64_of_int 0"

definition finishedPieceWeight :: f64 where
  "finishedPieceWeight = f64_round (4 / 10)"

definition freeLoadWeight :: f64 where
  "freeLoadWeight = f64_round (3 / 10)"

definition idcAffinityWeight :: f64 where
  "idcAffinityWeight = f64_round (15 / 100)"

definition netTopologyAffinityWeight :: f64 where
  "netTopologyAffinityWeight = f64_round (1 / 10)"

definition locationAffinityWeight :: f64 where
  "locationAffinityWeight = f64_round (5 / 100)"

definition normalDistributionLen :: nat where
  "normalDistributionLen = 10"

definition minAvailableCostLen :: nat where
  "minAvailableCostLen = 2"

definition maxElementLen :: int where
  "maxElementLen = 5"

definition calculatePieceScore :: "heap \<Rightarrow> peer_ref \<Rightarrow> peer_ref \<Rightarrow> int32 \<Rightarrow> f64" where
  "calculatePieceScore h parent child taskPieceCount =
     (if sint taskPieceCount > 0
      then let finishedPieceCount = p_TotalPieceCount (peer_at h parent)
           in f64_div (f64_of_int (sint finishedPieceCount)) (f64_of_int (sint taskPieceCount))
      else let parentFinishedPieceCount = p_TotalPieceCount (peer_at h parent);
               childFinishedPieceCount = p_TotalPieceCount (peer_at h child)
           in f64_of_int (sint (parentFinishedPieceCount - childFinishedPieceCount)))"

definition calculateFreeLoadScore :: "Host \<Rightarrow> f64" where
  "calculateFreeLoadScore host =
     (let load = h_CurrentUploadLoad host; totalLoad = h_TotalUploadLoad host
      in f64_div (f64_of_int (uint (totalLoad - load))) (f64_of_int (uint totalLoad)))"

definition calculateIDCAffinityScore :: "Host \<Rightarrow> Host \<Rightarrow> f64" where
  "calculateIDCAffinityScore dst src =
     (if h_IDC dst \<noteq> [] \<and> h_IDC src \<noteq> [] \<and> h_IDC dst = h_IDC src then maxScore else minScore)"

text \<open>The loop of \<open>calculateMultiElementAffinityScore\<close>; an index out of range panics.\<close>

fun affinity_loop :: "nat \<Rightarrow> nat \<Rightarrow> string list \<Rightarrow> string list \<Rightarrow> int \<Rightarrow> int outcome" where
  "affinity_loop 0 i dst src score = Ret score"
| "affinity_loop (Suc n) i dst src score =
     (if i \<ge> length dst \<or> i \<ge> length src then Panic ''index out of range''
      else if dst ! i \<noteq> src ! i then Ret score
      else affinity_loop n (i + 1) dst src (score + 1))"

definition calculateMultiElementAffinityScore :: "string \<Rightarrow> string \<Rightarrow> f64 outcome" where
  "calculateMultiElementAffinityScore dst src =
     (if dst = [] \<or> src = [] then Ret minScore
      else if dst = src then Ret maxScore
      else let dstElements = Split dst (CHR ''|''); srcElements = Split src (CHR ''|'');
               elementLen = MaxInt (int (length dstElements)) (int (length srcElements));
               elementLen = (if elementLen > maxElementLen then maxElementLen else elementLen)
           in obind (affinity_loop (nat elementLen) 0 dstElements srcElements 0) (\<lambda>score.
                Ret (f64_div (f64_of_int score) (f64_of_int maxElementLen))))"

definition Evaluate :: "heap \<Rightarrow> peer_ref \<Rightarrow> peer_ref \<Rightarrow> int32 \<Rightarrow> f64 outcome" where
  "Evaluate h parent child taskPieceCount =
     (let ph = peerHost h parent; ch = peerHost h child
      in if h_SecurityDomain ph \<noteq> [] \<and> h_SecurityDomain ch \<noteq> []
            \<and> h_SecurityDomain ph \<noteq> h_SecurityDomain ch
         then Ret minScore
         else
           obind (calculateMultiElementAffinityScore (h_NetTopology ph) (h_NetTopology ch)) (\<lambda>net.
           obind (calculateMultiElementAffinityScore (h_Location ph) (h_Location ch)) (\<lambda>loc.
             Ret (f64_add (f64_add (f64_add (f64_add
                    (f64_mul finishedPieceWeight (calculatePieceScore h parent child taskPieceCount))
                    (f64_mul freeLoadWeight (calculateFreeLoadScore ph)))
                    (f64_mul idcAffinityWeight (calculateIDCAffinityScore ph ch)))
                    (f64_mul netTopologyAffinityWeight net))
                    (f64_mul locationAffinityWeight loc)))))"

section \<open>Bad nodes and parent adjustment\<close>

text \<open>\<open>big.NewFloat(x).Cmp(big.NewFloat(y)) > 0\<close>: \<open>NewFloat\<close> panics on a NaN.\<close>

definition big_gt :: "f64 \<Rightarrow> f64 \<Rightarrow> bool outcome" where
  "big_gt x y = (if x = NaN \<or> y = NaN then Panic ''NewFloat(NaN)'' else Ret (y < x))"

definition IsBadNode :: "Stats \<Rightarrow> heap \<Rightarrow> peer_ref \<Rightarrow> bool outcome" where
  "IsBadNode stats h peer =
     (if IsBad h peer then Ret True
      else if h_IsCDN (peerHost h peer) then Ret False
      else let rawCosts = p_pieceCosts (peer_at h peer);
               costs = LoadRawData stats rawCosts;
               len = length costs
           in if len < minAvailableCostLen then Ret False
              else let lastCost = costs ! (len - 1);
                       mean = Mean stats (take (len - 1) costs)
                   in big_gt lastCost (f64_mul mean (f64_of_int 40)))"

definition NeedAdjustParent :: "Stats \<Rightarrow> heap \<Rightarrow> peer_ref \<Rightarrow> bool outcome" where
  "NeedAdjustParent stats h peer =
     (if h_IsCDN (peerHost h peer) then Ret False
      else if GetParent h peer = None \<and> \<not> IsDone h peer then Ret True
      else obind (case GetParent h peer of
                    None \<Rightarrow> Ret False
                  | Some parent \<Rightarrow> if IsLeave h parent then Ret True else IsBadNode stats h parent)
        (\<lambda>lost. if lost then Ret True
           else let rawCosts = p_pieceCosts (peer_at h peer);
                    costs = LoadRawData stats rawCosts;
                    len = length costs
                in if len < minAvailableCostLen then Ret False
                   else let lastCost = costs ! (len - 1);
                            mean = Mean stats (take (len - 1) costs)
                        in if len < normalDistributionLen
                           then big_gt lastCost (f64_mul mean (f64_of_int 5))
                           else let stdev = StandardDeviation stats (take (len - 2) costs)
                                in big_gt lastCost (f64_add mean (f64_mul (f64_of_int 3) stdev))))"

definition evaluatorBase :: "Stats \<Rightarrow> Evaluator" where
  "evaluatorBase stats =
     \<lparr>ev_Evaluate = Evaluate, ev_NeedAdjustParent = NeedAdjustParent stats,
      ev_IsBadNode = IsBadNode stats\<rparr>"

text \<open>\<open>New\<close>: the plugin is used when it is asked for and loads.\<close>

definition New :: "Stats \<Rightarrow> (string \<Rightarrow> Evaluator option) \<Rightarrow> string \<Rightarrow> string \<Rightarrow> Evaluator" where
  "New stats LoadPlugin algorithm pluginDir =
     (if algorithm = ''plugin''
      then (case LoadPlugin pluginDir of Some p \<Rightarrow> p | None \<Rightarrow> evaluatorBase stats)
      else evaluatorBase stats)"

section \<open>Lemmas\<close>

subsection \<open>The affinity score\<close>

lemma affinity_loop_correct:
  assumes "i + n \<le> length dst" "i + n \<le> length src"
  shows "affinity_loop n i dst src score =
    Ret (score + int (length (takeWhile (\<lambda>(a, b). a = b) (zip (take n (drop i dst)) (take n (drop i src))))))"
  using assms
proof (induction n arbitrary: i score)
  case (Suc n)
  then have "drop i dst = dst ! i # drop (Suc i) dst" "drop i src = src ! i # drop (Suc i) src"
    by (simp_all add: Cons_nth_drop_Suc)
  with Suc show ?case by simp
qed simp

text \<open>How many leading elements two lists share.\<close>

fun common_prefix :: "'a list \<Rightarrow> 'a list \<Rightarrow> nat" where
  "common_prefix (x # xs) (y # ys) = (if x = y then Suc (common_prefix xs ys) else 0)"
| "common_prefix _ _ = 0"

lemma common_prefix_zip:
  "length (takeWhile (\<lambda>(a, b). a = b) (zip (take n xs) (take n ys))) = min n (common_prefix xs ys)"
proof (induction xs ys arbitrary: n rule: common_prefix.induct)
  case (1 x xs y ys)
  then show ?case by (cases n) auto
qed auto

lemma common_prefix_le: "common_prefix xs ys \<le> length xs" "common_prefix xs ys \<le> length ys"
  by (induction xs ys rule: common_prefix.induct) auto

lemma affinity_correct:
  assumes "dst \<noteq> []" "src \<noteq> []" "dst \<noteq> src"
  shows "calculateMultiElementAffinityScore dst src =
    Ret (f64_div (f64_of_int (int (min 5 (common_prefix (Split dst (CHR ''|'')) (Split src (CHR ''|''))))))
          (f64_of_int 5))"
proof -
  let ?d = "Split dst (CHR ''|'')" and ?s = "Split src (CHR ''|'')"
  define n where "n = min 5 (min (length ?d) (length ?s))"
  have n: "nat (if MaxInt (int (length ?d)) (int (length ?s)) > maxElementLen then maxElementLen
      else MaxInt (int (length ?d)) (int (length ?s))) = n"
    by (auto simp: n_def MaxInt_is_min maxElementLen_def)
  have "affinity_loop n 0 ?d ?s 0 = Ret (int (min n (common_prefix ?d ?s)))"
    using affinity_loop_correct[of 0 n ?d ?s 0] by (simp add: n_def common_prefix_zip)
  moreover have "min n (common_prefix ?d ?s) = min 5 (common_prefix ?d ?s)"
    using common_prefix_le[of ?d ?s] by (simp add: n_def min_def)
  ultimately show ?thesis
    using assms unfolding calculateMultiElementAffinityScore_def Let_def n
    by (simp add: maxElementLen_def)
qed

lemma affinity_returns: "\<exists>s. calculateMultiElementAffinityScore dst src = Ret s"
proof (cases "dst \<noteq> [] \<and> src \<noteq> [] \<and> dst \<noteq> src")
  case True
  then show ?thesis using affinity_correct by blast
qed (auto simp: calculateMultiElementAffinityScore_def)

lemma Evaluate_returns: "\<exists>s. Evaluate h p c n = Ret s"
proof -
  obtain a where "calculateMultiElementAffinityScore (h_NetTopology (peerHost h p))
      (h_NetTopology (peerHost h c)) = Ret a" using affinity_returns by blast
  moreover obtain b where "calculateMultiElementAffinityScore (h_Location (peerHost h p))
      (h_Location (peerHost h c)) = Ret b" using affinity_returns by blast
  ultimately show ?thesis by (simp add: Evaluate_def Let_def)
qed

section \<open>What the scheduler relies on\<close>

locale evaluator =
  fixes ev :: Evaluator
  assumes Evaluate_total: "\<exists>s. ev_Evaluate ev h p c n = Ret s"
    and IsBadNode_bad: "IsBad h p \<Longrightarrow> ev_IsBadNode ev h p = Ret True"
begin

definition score :: "heap \<Rightarrow> peer_ref \<Rightarrow> peer_ref \<Rightarrow> int32 \<Rightarrow> f64" where
  "score h p c n = (case ev_Evaluate ev h p c n of Ret s \<Rightarrow> s | _ \<Rightarrow> NaN)"

lemma Evaluate_score: "ev_Evaluate ev h p c n = Ret (score h p c n)"
  using Evaluate_total[of h p c n] by (auto simp: score_def)

lemma not_bad: "ev_IsBadNode ev h p = Ret False \<Longrightarrow> \<not> IsBad h p"
  using IsBadNode_bad by force

end

interpretation eb: evaluator "evaluatorBase stats" for stats
  by unfold_locales (simp_all add: evaluatorBase_def Evaluate_returns IsBadNode_def)

end
