(* ===== verification/Basic_Scheduler.thy ===== *)
theory Basic_Scheduler
  imports Evaluator
begin

text \<open>
  \<open>scheduler/core/scheduler/basic/basic_scheduler.go\<close>: choosing a parent for a peer and
  children for a peer, over any evaluator. A \<open>sets.String\<close> is the list of its members, nil
  is \<^term>\<open>None\<close>; the calls that only log are left out, those that may panic are kept.
\<close>

section \<open>Candidates\<close>

definition blank_Has :: "string list option \<Rightarrow> string \<Rightarrow> bool" where
  "blank_Has blank key = (case blank of None \<Rightarrow> False | Some xs \<Rightarrow> key \<in> set xs)"

definition child_filter ::
  "Evaluator \<Rightarrow> heap \<Rightarrow> peer_ref \<Rightarrow> string list option \<Rightarrow> peer_ref \<Rightarrow> bool outcome" where
  "child_filter ev h peer blankChildren candidateNode =
     (if blank_Has blankChildren (p_ID (peer_at h candidateNode)) then Ret False
      else if IsDone h candidateNode then Ret False
      else if IsLeave h candidateNode then Ret False
      else if IsWaiting h candidateNode then Ret False
      else if candidateNode = peer then Ret False
      else obind (of_loop (IsAncestor h candidateNode peer)) (\<lambda>anc.
           if anc then Ret False
           else if sint (p_TotalPieceCount (peer_at h candidateNode)) \<ge> sint (p_TotalPieceCount (peer_at h peer))
           then Ret False
           else if h_IsCDN (peerHost h candidateNode) then Ret False
           else if \<not> IsConnected h candidateNode then Ret False
           else case GetParent h candidateNode of
                  None \<Rightarrow> Ret True
                | Some parent \<Rightarrow> obind (ev_IsBadNode ev h parent) (\<lambda>_. Ret True)))"

definition selectCandidateChildren ::
  "Evaluator \<Rightarrow> heap \<Rightarrow> peer_ref \<Rightarrow> int \<Rightarrow> string list option \<Rightarrow> peer_ref list outcome" where
  "selectCandidateChildren ev h peer limit blankChildren =
     Pick limit (child_filter ev h peer blankChildren) (peerTask h peer)"

definition parent_filter ::
  "Evaluator \<Rightarrow> heap \<Rightarrow> peer_ref \<Rightarrow> string list option \<Rightarrow> peer_ref \<Rightarrow> bool outcome" where
  "parent_filter ev h peer blankParents candidateNode =
     (if blank_Has blankParents (p_ID (peer_at h candidateNode)) then Ret False
      else obind (ev_IsBadNode ev h candidateNode) (\<lambda>bad.
           if bad then Ret False
           else if IsLeave h candidateNode then Ret False
           else if candidateNode = peer then Ret False
           else obind (of_loop (IsDescendant h candidateNode peer)) (\<lambda>desc.
                if desc then Ret False
                else if sint (GetFreeUploadLoad (peerHost h candidateNode)) \<le> 0 then Ret False
                else if IsWaiting h candidateNode then Ret False
                else if sint (p_TotalPieceCount (peer_at h candidateNode)) \<le> sint (p_TotalPieceCount (peer_at h peer))
                then Ret False
                else Ret True)))"

definition selectCandidateParents ::
  "Evaluator \<Rightarrow> heap \<Rightarrow> peer_ref \<Rightarrow> int \<Rightarrow> string list option \<Rightarrow> peer_ref list outcome" where
  "selectCandidateParents ev h peer limit blankParents =
     (if \<not> CanSchedule (peerTask h peer) then Ret []
      else PickReverse limit (parent_filter ev h peer blankParents) (peerTask h peer))"

section \<open>Ranking\<close>

text \<open>
  \<open>evalResult\<close>, a \<open>map[float64][]*Peer\<close>: no key equals a NaN, so what is stored under a NaN
  is never found again.
\<close>

type_synonym eval_map = "(f64, peer_ref list) gomap"

definition eval_lookup :: "eval_map \<Rightarrow> f64 \<Rightarrow> peer_ref list" where
  "eval_lookup m s = (if s = NaN then [] else case Load m s of None \<Rightarrow> [] | Some ps \<Rightarrow> ps)"

definition eval_append :: "f64 \<Rightarrow> peer_ref \<Rightarrow> eval_map \<Rightarrow> eval_map" where
  "eval_append s p m = (if s = NaN then m else Store s (eval_lookup m s @ [p]) m)"

definition eval_loop ::
  "(peer_ref \<Rightarrow> f64 outcome) \<Rightarrow> peer_ref list \<Rightarrow> (eval_map \<times> f64 list) outcome" where
  "eval_loop evaluate candidates =
     ofold (\<lambda>p (m, scores). obind (evaluate p) (\<lambda>s. Ret (eval_append s p m, scores @ [s])))
       candidates ([], [])"

text \<open>The groups of candidates by score, best first: one group for each \<^emph>\<open>candidate\<close>.\<close>

definition ranked :: "eval_map \<Rightarrow> f64 list \<Rightarrow> peer_ref list list" where
  "ranked m scores = map (eval_lookup m) (rev (sort scores))"

section \<open>Scheduling\<close>

definition ScheduleParent ::
  "Evaluator \<Rightarrow> int \<Rightarrow> peer_ref \<Rightarrow> string list option \<Rightarrow> heap
   \<Rightarrow> ((peer_ref \<times> peer_ref list) option \<times> heap) outcome" where
  "ScheduleParent ev candidateParentCount peer blankParents h =
     obind (selectCandidateParents ev h peer candidateParentCount blankParents) (\<lambda>candidateParents.
     if candidateParents = [] then Ret (None, h)
     else
       let taskTotalPieceCount = t_TotalPieceCount (peerTask h peer)
       in obind (eval_loop (\<lambda>parent. ev_Evaluate ev h parent peer taskTotalPieceCount) candidateParents)
          (\<lambda>(evalResult, evalScore).
            case concat (ranked evalResult evalScore) of
              [] \<Rightarrow> Panic ''index out of range''
            | primary # rest \<Rightarrow>
                (let h' = (case GetParent h peer of
                             Some parent \<Rightarrow> if primary \<noteq> parent then ReplaceParent peer (Some primary) h else h
                           | None \<Rightarrow> h)
                 in Ret (Some (primary, rest), h'))))"

fun take_children :: "heap \<Rightarrow> peer_ref \<Rightarrow> peer_ref list \<Rightarrow> int32 \<times> peer_ref list \<Rightarrow> int32 \<times> peer_ref list" where
  "take_children h peer [] (freeUpload, chosen) = (freeUpload, chosen)"
| "take_children h peer (child # rest) (freeUpload, chosen) =
     (if sint freeUpload \<le> 0 then (freeUpload, chosen)
      else if GetParent h child = Some peer then take_children h peer rest (freeUpload, chosen)
      else take_children h peer rest (freeUpload - 1, chosen @ [child]))"

fun take_groups :: "heap \<Rightarrow> peer_ref \<Rightarrow> peer_ref list list \<Rightarrow> int32 \<times> peer_ref list \<Rightarrow> int32 \<times> peer_ref list" where
  "take_groups h peer [] s = s"
| "take_groups h peer (peers # groups) s =
     (if sint (fst s) \<le> 0 then s else take_groups h peer groups (take_children h peer peers s))"

definition ScheduleChildren ::
  "Evaluator \<Rightarrow> peer_ref \<Rightarrow> string list option \<Rightarrow> heap \<Rightarrow> (peer_ref list \<times> heap) outcome" where
  "ScheduleChildren ev peer blankChildren h =
     obind (ev_IsBadNode ev h peer) (\<lambda>bad.
     if bad then Ret ([], h)
     else
       let freeUpload = GetFreeUploadLoad (peerHost h peer)
       in obind (selectCandidateChildren ev h peer (sint freeUpload * 2) blankChildren) (\<lambda>candidateChildren.
          if candidateChildren = [] then Ret ([], h)
          else
            let taskTotalPieceCount = t_TotalPieceCount (peerTask h peer)
            in obind (eval_loop (\<lambda>child. ev_Evaluate ev h peer child taskTotalPieceCount) candidateChildren)
               (\<lambda>(evalResult, evalScore).
                 let chosen = snd (take_groups h peer (ranked evalResult evalScore) (freeUpload, []))
                 in Ret (chosen, fold (\<lambda>child. ReplaceParent child (Some peer)) chosen h))))"

section \<open>What the candidates satisfy\<close>

definition parent_ok :: "Evaluator \<Rightarrow> heap \<Rightarrow> peer_ref \<Rightarrow> string list option \<Rightarrow> peer_ref \<Rightarrow> bool" where
  "parent_ok ev h peer blank c \<longleftrightarrow>
     \<not> blank_Has blank (p_ID (peer_at h c)) \<and> ev_IsBadNode ev h c = Ret False \<and> \<not> IsLeave h c \<and> \<not> IsWaiting h c
     \<and> c \<noteq> peer \<and> IsDescendant h c peer = Some False
     \<and> 0 < sint (GetFreeUploadLoad (peerHost h c))
     \<and> sint (p_TotalPieceCount (peer_at h peer)) < sint (p_TotalPieceCount (peer_at h c))"

definition child_ok :: "heap \<Rightarrow> peer_ref \<Rightarrow> string list option \<Rightarrow> peer_ref \<Rightarrow> bool" where
  "child_ok h peer blank c \<longleftrightarrow>
     \<not> blank_Has blank (p_ID (peer_at h c)) \<and> \<not> IsDone h c \<and> \<not> IsLeave h c \<and> \<not> IsWaiting h c
     \<and> c \<noteq> peer \<and> IsAncestor h c peer = Some False
     \<and> sint (p_TotalPieceCount (peer_at h c)) < sint (p_TotalPieceCount (peer_at h peer))
     \<and> \<not> h_IsCDN (peerHost h c) \<and> IsConnected h c"

lemma parent_filter_True: "parent_filter ev h peer blank c = Ret True \<Longrightarrow> parent_ok ev h peer blank c"
  by (auto simp: parent_filter_def parent_ok_def obind_eq_Ret split: if_splits)

lemma parent_filter_eq:
  assumes "ev_IsBadNode ev h c = Ret b" "IsDescendant h c peer = Some d"
  shows "parent_filter ev h peer blank c = Ret (parent_ok ev h peer blank c)"
  using assms by (auto simp: parent_filter_def parent_ok_def)

lemma child_filter_True: "child_filter ev h peer blank c = Ret True \<Longrightarrow> child_ok h peer blank c"
  by (auto simp: child_filter_def child_ok_def obind_eq_Ret split: if_splits option.splits)

lemma eval_lookup_Nil [simp]: "eval_lookup [] s = []"
  by (simp add: eval_lookup_def)

lemma eval_lookup_append:
  "eval_lookup (eval_append s p m) t = (if t = s \<and> t \<noteq> NaN then eval_lookup m t @ [p] else eval_lookup m t)"
  by (simp add: eval_append_def eval_lookup_def)

lemma eval_loop_correct:
  assumes "\<And>p. p \<in> set cs \<Longrightarrow> f p = Ret (g p)"
  shows "\<exists>m. eval_loop f cs = Ret (m, map g cs)
    \<and> (\<forall>s. eval_lookup m s = (if s = NaN then [] else filter (\<lambda>p. g p = s) cs))"
proof -
  let ?step = "\<lambda>p (m, scores). obind (f p) (\<lambda>s. Ret (eval_append s p m, scores @ [s]))"
  have "\<exists>m'. ofold ?step cs (m, sc) = Ret (m', sc @ map g cs)
      \<and> (\<forall>s. eval_lookup m' s = (if s = NaN then [] else eval_lookup m s @ filter (\<lambda>p. g p = s) cs))"
    if "\<forall>p \<in> set cs. f p = Ret (g p)" for m sc cs
    using that
  proof (induction cs arbitrary: m sc)
    case Nil
    then show ?case by (simp add: eval_lookup_def)
  next
    case (Cons p cs)
    from Cons.IH[of "eval_append (g p) p m" "sc @ [g p]"] Cons.prems show ?case
      by (auto simp: eval_lookup_append)
  qed
  from this[of cs "[]" "[]"] assms show ?thesis
    by (simp add: eval_loop_def cong: if_cong)
qed

text \<open>The ranking as a function of the candidates and their scores.\<close>

definition ranking :: "(peer_ref \<Rightarrow> f64) \<Rightarrow> peer_ref list \<Rightarrow> peer_ref list list" where
  "ranking g cs = map (\<lambda>s. if s = NaN then [] else filter (\<lambda>p. g p = s) cs) (rev (sort (map g cs)))"

lemma eval_loop_ranking:
  assumes "\<And>p. p \<in> set cs \<Longrightarrow> f p = Ret (g p)"
  obtains m where "eval_loop f cs = Ret (m, map g cs)" "ranked m (map g cs) = ranking g cs"
  using eval_loop_correct[of cs f g] assms by (auto simp: ranked_def ranking_def)

lemma set_ranking: "set (concat (ranking g cs)) = {p \<in> set cs. g p \<noteq> NaN}"
  by (auto simp: ranking_def split: if_splits)

lemma last_sort_max: "x \<in> set xs \<Longrightarrow> x \<le> last (sort xs)"
proof (induction xs rule: rev_induct)
  case (snoc y ys)
  have "sorted (sort (ys @ [y]))" by simp
  moreover have "sort (ys @ [y]) \<noteq> []" by (metis set_empty set_sort snoc.prems empty_iff)
  ultimately have "\<forall>z \<in> set (butlast (sort (ys @ [y]))). z \<le> last (sort (ys @ [y]))"
    by (metis append_butlast_last_id list.set_intros(1) sorted_append)
  moreover have "x \<in> set (sort (ys @ [y]))" using snoc.prems by simp
  ultimately show ?case
    using \<open>sort (ys @ [y]) \<noteq> []\<close> by (metis append_butlast_last_id in_set_conv_decomp order_refl
      set_append UnE list.set_cases set_ConsD empty_iff empty_set)
qed simp

lemma le_NaN [simp]: "x \<le> NaN \<longleftrightarrow> x = NaN"
  by (cases x) (simp_all add: less_eq_f64_def)

lemma ranking_head_max:
  assumes "concat (ranking g cs) = p # ps"
  shows "p \<in> set cs" and "g p = last (sort (map g cs))"
proof -
  have "p \<in> set (concat (ranking g cs))" using assms by simp
  then show p: "p \<in> set cs" by (simp only: set_ranking) simp
  define s where "s = last (sort (map g cs))"
  have ne: "sort (map g cs) \<noteq> []" using p by (metis empty_iff empty_set imageI set_map set_sort)
  then have ss: "rev (sort (map g cs)) = s # rev (butlast (sort (map g cs)))"
    by (metis append_butlast_last_id rev.simps(2) rev_swap s_def rev_append rev_rev_ident append.simps)
  have in_s: "s \<in> g ` set cs" using ne s_def by (metis last_in_set set_map set_sort)
  have "s \<noteq> NaN"
  proof
    assume "s = NaN"
    then have "\<forall>x \<in> set (map g cs). x = NaN" using last_sort_max s_def by (metis le_NaN)
    then have "set (concat (ranking g cs)) = {}" by (simp only: set_ranking) simp
    with assms show False by simp
  qed
  moreover have "filter (\<lambda>p. g p = s) cs \<noteq> []" using in_s by (auto simp: filter_empty_conv)
  ultimately have "p = hd (filter (\<lambda>p. g p = s) cs)" "filter (\<lambda>p. g p = s) cs \<noteq> []"
    using assms by (auto simp: ranking_def ss dest!: arg_cong[where f = hd])
  then have "p \<in> set (filter (\<lambda>p. g p = s) cs)" by (metis hd_in_set)
  then show "g p = last (sort (map g cs))" by (simp add: s_def)
qed

lemma ranking_head_best:
  "concat (ranking g cs) = p # ps \<Longrightarrow> q \<in> set cs \<Longrightarrow> g q \<le> g p"
  using ranking_head_max(2) last_sort_max[of "g q" "map g cs"] by fastforce

end
