(* ===== verification/Basic_Scheduler_Facts.thy ===== *)
theory Basic_Scheduler_Facts
  imports Basic_Scheduler
begin

text \<open>
  What \<open>ScheduleParent\<close> and \<open>ScheduleChildren\<close> guarantee, for every evaluator that keeps the
  contract of locale \<open>evaluator\<close>: what is chosen is eligible, the primary parent has the
  highest score, the peer tree stays a forest and no host is overloaded.
\<close>

section \<open>Loads within the limit\<close>

text \<open>No host serves more children than its limit, and the limit is an \<open>int32\<close>.\<close>

definition no_overload :: "heap \<Rightarrow> bool" where
  "no_overload h \<longleftrightarrow> (\<forall>r. upload_count h r \<le> unat (h_TotalUploadLoad (host_at h r))
     \<and> unat (h_TotalUploadLoad (host_at h r)) < 2 ^ 31)"

lemma sint_small: "unat (w :: 32 word) < 2 ^ 31 \<Longrightarrow> sint w = int (unat w)"
proof -
  assume "unat w < 2 ^ 31"
  then have "int (unat w) < int (2 ^ 31)" by (simp only: of_nat_less_iff)
  then have "uint w < 2 ^ 31" by simp
  moreover have "- (2 ^ 31) \<le> uint w" by (rule order_trans[OF _ uint_ge_0]) simp
  ultimately show ?thesis
    using signed_take_bit_int_eq_self[of 31 "uint w"] by (simp add: sint_uint)
qed

lemma free_load_eq:
  assumes "loads h" "no_overload h"
  shows "sint (GetFreeUploadLoad (host_at h r)) =
    int (unat (h_TotalUploadLoad (host_at h r))) - int (upload_count h r)"
proof -
  let ?t = "h_TotalUploadLoad (host_at h r)"
  have c: "upload_count h r \<le> unat ?t" "unat ?t < 2 ^ 31" using assms(2) by (auto simp: no_overload_def)
  have "load h r = of_nat (upload_count h r)" using assms(1) by (simp add: loads_def)
  then have l: "unat (load h r) = upload_count h r" using c by (simp add: unat_of_nat)
  then have "load h r \<le> ?t" using c by (simp add: word_le_nat_alt)
  then have "unat (?t - load h r) = unat ?t - upload_count h r" using l by (simp add: unat_sub)
  then show ?thesis using c by (simp add: GetFreeUploadLoad_def sint_small)
qed

lemma h_TotalUploadLoad_ReplaceParent [simp, frame_simps]:
  "h_TotalUploadLoad (host_at (ReplaceParent c q h) r) = h_TotalUploadLoad (host_at h r)"
  by (simp add: ReplaceParent_def Let_def split: option.split)

lemma length_Delete_le: "length (Delete k m) \<le> length m"
  by (simp add: Delete_def length_delete_le)

lemma upload_count_detach: "upload_count (ReplaceParent c None h) r \<le> upload_count h r"
  unfolding upload_count_def
  by (auto intro!: sum_mono simp: children_detach length_Delete_le)

lemma upload_count_attach:
  assumes "q < next_peer h"
  shows "upload_count (ReplaceParent c (Some q) h) r
    \<le> upload_count h r + (if r = p_Host (peer_at h q) then 1 else 0)"
proof -
  let ?g = "ReplaceParent c None h"
  let ?h = "ReplaceParent c (Some q) ?g"
  have "upload_count ?h r + (if p_Host (peer_at ?g q) = r then length (children ?g q) else 0) =
      upload_count ?g r + (if p_Host (peer_at ?g q) = r then length (children ?h q) else 0)"
    using assms by (intro upload_count_update) (simp_all add: children_attach)
  moreover have "length (children ?h q) \<le> Suc (length (children ?g q))"
    by (simp add: children_attach length_Store)
  moreover have "upload_count ?g r \<le> upload_count h r" by (rule upload_count_detach)
  ultimately show ?thesis
    unfolding ReplaceParent_detach_attach[of c q h] by (simp split: if_splits)
qed

lemma upload_count_attach_all:
  assumes "q < next_peer h"
  shows "upload_count (fold (\<lambda>c. ReplaceParent c (Some q)) cs h) r
    \<le> upload_count h r + (if r = p_Host (peer_at h q) then length cs else 0)"
  using assms
proof (induction cs arbitrary: h)
  case (Cons c cs)
  from Cons.IH[of "ReplaceParent c (Some q) h"] Cons.prems upload_count_attach[of q h c r]
  show ?case by (auto split: if_splits)
qed simp

lemma total_attach_all:
  "h_TotalUploadLoad (host_at (fold (\<lambda>c. ReplaceParent c (Some q)) cs h) r) = h_TotalUploadLoad (host_at h r)"
  by (induction cs arbitrary: h) simp_all

lemma no_overload_attach_all:
  assumes "tree_inv h" "no_overload h" "q < next_peer h"
    and "int (length cs) \<le> sint (GetFreeUploadLoad (peerHost h q))"
  shows "no_overload (fold (\<lambda>c. ReplaceParent c (Some q)) cs h)"
proof -
  have "loads h" using assms(1) by (simp add: tree_inv_def)
  note free = free_load_eq[OF this assms(2), of "p_Host (peer_at h q)"]
  have "length cs + upload_count h (p_Host (peer_at h q))
      \<le> unat (h_TotalUploadLoad (host_at h (p_Host (peer_at h q))))"
    using assms(4) free unfolding peerHost_def by linarith
  then have "upload_count h r + (if r = p_Host (peer_at h q) then length cs else 0)
      \<le> unat (h_TotalUploadLoad (host_at h r))" for r
    using assms(2) by (simp add: no_overload_def add.commute)
  with upload_count_attach_all[OF assms(3), of cs] assms(2) show ?thesis
    unfolding no_overload_def total_attach_all by (blast intro: order_trans)
qed

section \<open>The tree under several attachments\<close>

lemma parent_rel_other_root:
  assumes "c < next_peer h" "(q, c) \<notin> (parent_rel h)\<^sup>*"
  shows "(q, x) \<in> (parent_rel (ReplaceParent c (Some q) h))\<^sup>* \<longleftrightarrow> (q, x) \<in> (parent_rel h)\<^sup>*"
proof -
  let ?R = "parent_rel h" and ?R' = "parent_rel (ReplaceParent c (Some q) h)"
  have step: "(y, z) \<in> ?R' \<longleftrightarrow> (y, z) \<in> ?R" if "y \<noteq> c" for y z
    using that assms(1) by (auto simp: parent_rel_attach)
  show ?thesis
  proof
    assume "(q, x) \<in> ?R'\<^sup>*"
    then show "(q, x) \<in> ?R\<^sup>*"
    proof induction
      case (step y z)
      then have "y \<noteq> c" using assms(2) by auto
      with step \<open>\<And>z y. y \<noteq> c \<Longrightarrow> (y, z) \<in> ?R' \<longleftrightarrow> (y, z) \<in> ?R\<close> show ?case by (meson rtrancl.rtrancl_into_rtrancl)
    qed simp
  next
    assume "(q, x) \<in> ?R\<^sup>*"
    then show "(q, x) \<in> ?R'\<^sup>*"
    proof induction
      case (step y z)
      then have "y \<noteq> c" using assms(2) by auto
      with step \<open>\<And>z y. y \<noteq> c \<Longrightarrow> (y, z) \<in> ?R' \<longleftrightarrow> (y, z) \<in> ?R\<close> show ?case by (meson rtrancl.rtrancl_into_rtrancl)
    qed simp
  qed
qed

lemma tree_inv_attach_all:
  assumes "tree_inv h" "q < next_peer h" "\<And>c. c \<in> set cs \<Longrightarrow> c < next_peer h \<and> (q, c) \<notin> (parent_rel h)\<^sup>*"
  shows "tree_inv (fold (\<lambda>c. ReplaceParent c (Some q)) cs h)"
  using assms
proof (induction cs arbitrary: h)
  case (Cons c cs)
  have c: "c < next_peer h" "(q, c) \<notin> (parent_rel h)\<^sup>*" using Cons.prems(3)[of c] by simp_all
  have "tree_inv (fold (\<lambda>c. ReplaceParent c (Some q)) cs (ReplaceParent c (Some q) h))"
  proof (rule Cons.IH)
    show "tree_inv (ReplaceParent c (Some q) h)" using Cons.prems(1,2) c by (intro tree_inv_attach)
  next
    fix d assume "d \<in> set cs"
    then have "d < next_peer h" "(q, d) \<notin> (parent_rel h)\<^sup>*" using Cons.prems(3)[of d] by simp_all
    then show "d < next_peer (ReplaceParent c (Some q) h)
        \<and> (q, d) \<notin> (parent_rel (ReplaceParent c (Some q) h))\<^sup>*"
      by (simp add: parent_rel_other_root[OF c])
  qed (simp add: Cons.prems)
  then show ?case by simp
qed simp

lemma IsDescendant_rtrancl:
  assumes "tree_inv h" "x < next_peer h" "y < next_peer h" "x \<noteq> y" "IsDescendant h x y = Some False"
  shows "(x, y) \<notin> (parent_rel h)\<^sup>*"
  using isDescendant_correct[OF assms(1,2,3)] assms(4,5)
  by (auto simp: IsDescendant_def rtrancl_eq_or_trancl)

end
