(* ===== verification/Go_Rounding.thy ===== *)
theory Go_Rounding
  imports Go_Float
begin

text \<open>
  Rounding to \<open>float64\<close> is monotone, so sums and products of non-negative scores are
  monotone in each operand: the order of two scores can be read off their ingredients.
\<close>

section \<open>The leading bit\<close>

lemma pow2_add: "pow2 (a + b) = pow2 a * pow2 b"
proof -
  have pw: "pow2 k = 2 powi k" for k
    by (auto simp: pow2_def power_int_def inverse_eq_divide power_one_over)
  show ?thesis by (simp add: pw power_int_add)
qed

lemma pow2_Suc: "pow2 (k + 1) = 2 * pow2 k"
  by (simp add: pow2_add) (simp add: pow2_def)

lemma pow2_of_nat: "pow2 (int n) = 2 ^ n"
  by (simp add: pow2_def)

lemma pow2_mono: "a \<le> b \<Longrightarrow> pow2 a \<le> pow2 b"
proof -
  assume "a \<le> b"
  then have "pow2 b = pow2 a * 2 ^ nat (b - a)"
    using pow2_add[of a "b - a"] pow2_of_nat[of "nat (b - a)"] by simp
  then show ?thesis by simp
qed

lemma bitlen_pow2:
  assumes "0 < p"
  shows "pow2 (bitlen p - 1) \<le> of_int p" and "of_int p < pow2 (bitlen p)"
proof -
  have b: "2 ^ nat (bitlen p - 1) \<le> p \<and> p < 2 ^ nat (bitlen p)"
    using assms bitlen_bounds by blast
  have pos: "0 < bitlen p"
    using b assms by (cases "bitlen p \<le> 0") simp_all
  have "(2 :: rat) ^ nat (bitlen p - 1) \<le> of_int p" "(of_int p :: rat) < 2 ^ nat (bitlen p)"
    using b by (metis of_int_le_iff of_int_less_iff of_int_numeral of_int_power)+
  with pos show "pow2 (bitlen p - 1) \<le> of_int p" "of_int p < pow2 (bitlen p)"
    by (simp_all add: pow2_def)
qed

lemma floor_log2_bounds:
  assumes "0 < x"
  shows "pow2 (floor_log2 x) \<le> x" and "x < pow2 (floor_log2 x + 1)"
proof -
  obtain p q where pq: "quotient_of x = (p, q)" by fastforce
  then have x: "x = of_int p / of_int q" and q: "0 < q"
    by (simp_all add: quotient_of_div quotient_of_denom_pos)
  have p: "0 < p" using assms x q by (simp add: zero_less_divide_iff)
  let ?k = "bitlen p - bitlen q"
  have "x < pow2 (bitlen p) / pow2 (bitlen q - 1)"
    unfolding x using bitlen_pow2[OF p] bitlen_pow2[OF q] q p
    by (intro frac_less) simp_all
  moreover have "pow2 (bitlen p) = pow2 (?k + 1) * pow2 (bitlen q - 1)"
    by (simp flip: pow2_add)
  ultimately have up: "x < pow2 (?k + 1)" by simp
  have "pow2 (bitlen p - 1) / pow2 (bitlen q) < x"
    unfolding x using bitlen_pow2[OF p] bitlen_pow2[OF q] q p
    by (intro frac_less2) simp_all
  moreover have "pow2 (bitlen p - 1) = pow2 (?k - 1) * pow2 (bitlen q)"
    by (simp flip: pow2_add)
  ultimately have lo: "pow2 (?k - 1) < x" by simp
  have fl: "floor_log2 x = (if pow2 ?k \<le> x then ?k else ?k - 1)"
    by (simp add: floor_log2_def pq Let_def)
  show "pow2 (floor_log2 x) \<le> x" "x < pow2 (floor_log2 x + 1)"
    using up lo by (simp_all add: fl)
qed

lemma floor_log2_mono:
  assumes "0 < x" "x \<le> y"
  shows "floor_log2 x \<le> floor_log2 y"
proof (rule ccontr)
  assume "\<not> ?thesis"
  then have "pow2 (floor_log2 y + 1) \<le> pow2 (floor_log2 x)" by (intro pow2_mono) simp
  also have "\<dots> \<le> x" using assms(1) by (rule floor_log2_bounds)
  also have "\<dots> \<le> y" by fact
  also have "\<dots> < pow2 (floor_log2 y + 1)" using assms by (intro floor_log2_bounds) simp
  finally show False by simp
qed

section \<open>Monotonicity\<close>

lemma round_even_cases:
  "round_even x = \<lfloor>x\<rfloor> \<or> round_even x = \<lfloor>x\<rfloor> + 1 \<and> 1 / 2 \<le> x - of_int \<lfloor>x\<rfloor>"
  by (auto simp: round_even_def Let_def)

lemma round_even_mono: "x \<le> y \<Longrightarrow> round_even x \<le> round_even y"
proof -
  assume "x \<le> y"
  then have "\<lfloor>x\<rfloor> \<le> \<lfloor>y\<rfloor>" by (rule floor_mono)
  then consider "\<lfloor>x\<rfloor> = \<lfloor>y\<rfloor>" | "\<lfloor>x\<rfloor> + 1 \<le> \<lfloor>y\<rfloor>" by linarith
  then show ?thesis
  proof cases
    case 1
    with \<open>x \<le> y\<close> show ?thesis by (simp add: round_even_def Let_def)
  next
    case 2
    with round_even_cases[of x] round_even_cases[of y] show ?thesis by linarith
  qed
qed

lemma round_even_le_int: "x \<le> of_int k \<Longrightarrow> round_even x \<le> k"
  using round_even_mono[of x "of_int k"] by simp

lemma round_even_ge_int: "of_int k \<le> x \<Longrightarrow> k \<le> round_even x"
  using round_even_mono[of "of_int k" x] by simp

definition fl_exp :: "rat \<Rightarrow> int" where
  "fl_exp x = max (-1074) (floor_log2 \<bar>x\<bar> - 52)"

lemma fl_pos: "0 < x \<Longrightarrow> fl x = of_int (round_even (x / pow2 (fl_exp x))) * pow2 (fl_exp x)"
  by (simp add: fl_def fl_exp_def Let_def)

lemma fl_le_binade: "0 < x \<Longrightarrow> fl x \<le> pow2 (fl_exp x + 53)"
proof -
  assume x: "0 < x"
  have "x < pow2 (floor_log2 x + 1)" using x by (rule floor_log2_bounds)
  also have "\<dots> \<le> pow2 (fl_exp x + 53)" using x by (intro pow2_mono) (simp add: fl_exp_def)
  finally have "x / pow2 (fl_exp x) \<le> of_int (2 ^ 53)"
    by (simp add: pow2_add divide_le_eq pow2_of_nat[of 53, simplified] mult.commute)
  then have "round_even (x / pow2 (fl_exp x)) \<le> 2 ^ 53" by (rule round_even_le_int)
  then have "(of_int (round_even (x / pow2 (fl_exp x))) :: rat) \<le> of_int (2 ^ 53)"
    by (simp only: of_int_le_iff)
  then show ?thesis
    using x by (simp add: fl_pos pow2_add pow2_of_nat[of 53, simplified])
qed

lemma fl_ge_binade: "0 < x \<Longrightarrow> -1074 < fl_exp x \<Longrightarrow> pow2 (fl_exp x + 52) \<le> fl x"
proof -
  assume x: "0 < x" and e: "-1074 < fl_exp x"
  have "pow2 (fl_exp x + 52) = pow2 (floor_log2 x)" using x e by (simp add: fl_exp_def)
  also have "\<dots> \<le> x" using x by (rule floor_log2_bounds)
  finally have "of_int (2 ^ 52) \<le> x / pow2 (fl_exp x)"
    by (simp add: pow2_add le_divide_eq pow2_of_nat[of 52, simplified] mult.commute)
  then have "2 ^ 52 \<le> round_even (x / pow2 (fl_exp x))" by (rule round_even_ge_int)
  then have "of_int (2 ^ 52) \<le> (of_int (round_even (x / pow2 (fl_exp x))) :: rat)"
    by (simp only: of_int_le_iff)
  then show ?thesis
    using x by (simp add: fl_pos pow2_add pow2_of_nat[of 52, simplified])
qed

lemma fl_mono:
  assumes "0 \<le> x" "x \<le> y"
  shows "fl x \<le> fl y"
proof (cases "x = 0")
  case True
  then show ?thesis using assms fl_nonneg by simp
next
  case False
  then have x: "0 < x" and y: "0 < y" using assms by simp_all
  have "floor_log2 x \<le> floor_log2 y" using x assms(2) by (rule floor_log2_mono)
  then have e: "fl_exp x \<le> fl_exp y" using x y by (simp add: fl_exp_def)
  show ?thesis
  proof (cases "fl_exp x = fl_exp y")
    case True
    have "x / pow2 (fl_exp y) \<le> y / pow2 (fl_exp y)" using assms(2) by (simp add: divide_right_mono)
    from round_even_mono[OF this] show ?thesis using x y True by (simp add: fl_pos)
  next
    case False
    with e have lt: "fl_exp x + 53 \<le> fl_exp y + 52" by simp
    have "-1074 \<le> fl_exp x" by (simp add: fl_exp_def)
    with False e have "-1074 < fl_exp y" by simp
    have "fl x \<le> pow2 (fl_exp x + 53)" using x by (rule fl_le_binade)
    also have "\<dots> \<le> pow2 (fl_exp y + 52)" using lt by (rule pow2_mono)
    also have "\<dots> \<le> fl y" using y \<open>-1074 < fl_exp y\<close> by (rule fl_ge_binade)
    finally show ?thesis .
  qed
qed

lemma f64_round_mono: "0 \<le> x \<Longrightarrow> x \<le> y \<Longrightarrow> f64_round x \<le> f64_round y"
proof -
  assume "0 \<le> x" "x \<le> y"
  then have m: "fl x \<le> fl y" "0 \<le> fl x" by (simp_all add: fl_mono fl_nonneg)
  then have "\<not> fl x \<le> - pow2 1024" "\<not> fl y \<le> - pow2 1024" using pow2_pos[of 1024] by linarith+
  with m show ?thesis by (auto simp: f64_round_def Let_def less_eq_f64_def)
qed

lemma f64_le_PInf [simp]: "f64_le x PInf"
  by (cases x) simp_all

lemma f64_add_mono:
  "Fin 0 \<le> x \<Longrightarrow> x \<le> x' \<Longrightarrow> Fin 0 \<le> y \<Longrightarrow> y \<le> y' \<Longrightarrow> f64_add x y \<le> f64_add x' y'"
  by (cases x; cases x'; cases y; cases y') (auto simp: less_eq_f64_def intro: f64_round_mono[unfolded less_eq_f64_def])

lemma f64_mul_mono:
  "0 < a \<Longrightarrow> Fin 0 \<le> x \<Longrightarrow> x \<le> x' \<Longrightarrow> f64_mul (Fin a) x \<le> f64_mul (Fin a) x'"
  by (cases x; cases x') (auto simp: less_eq_f64_def inf_signed_def intro: f64_round_mono[unfolded less_eq_f64_def])

lemma f64_of_int_exact: "\<bar>i\<bar> < 2 ^ 53 \<Longrightarrow> f64_of_int i = Fin (of_int i)"
proof -
  assume i: "\<bar>i\<bar> < 2 ^ 53"
  have "(of_int \<bar>i\<bar> :: rat) < of_int (2 ^ 53)" using i by (simp only: of_int_less_iff)
  then have "\<bar>of_int i :: rat\<bar> < 2 ^ 53" by simp
  also have "(2 :: rat) ^ 53 \<le> pow2 1024" using pow2_mono[of 53 1024] by (simp add: pow2_def)
  finally have "\<bar>of_int i :: rat\<bar> < pow2 1024" .
  then have "\<not> pow2 1024 \<le> (of_int i :: rat)" "\<not> (of_int i :: rat) \<le> - pow2 1024" by linarith+
  with i show ?thesis by (simp add: f64_of_int_def f64_round_def fl_of_int Let_def)
qed

section \<open>Rounding a given number\<close>

lemma floor_log2_eqI:
  assumes "pow2 k \<le> x" "x < pow2 (k + 1)"
  shows "floor_log2 x = k"
proof -
  have x: "0 < x" using assms(1) pow2_pos[of k] by linarith
  note b = floor_log2_bounds[OF x]
  have "\<not> floor_log2 x + 1 \<le> k"
    using pow2_mono[of "floor_log2 x + 1" k] b(2) assms(1) by linarith
  moreover have "\<not> k + 1 \<le> floor_log2 x"
    using pow2_mono[of "k + 1" "floor_log2 x"] b(1) assms(2) by linarith
  ultimately show ?thesis by linarith
qed

lemma round_even_eqI:
  assumes "\<bar>x - of_int n\<bar> < 1 / 2 \<or> x = of_int n + 1 / 2 \<and> even n"
  shows "round_even x = n"
proof -
  consider "of_int n \<le> x" "x < of_int n + 1" | "of_int (n - 1) \<le> x" "x < of_int n"
    using assms by fastforce
  then show ?thesis
  proof cases
    case 1
    then have "\<lfloor>x\<rfloor> = n" by (simp add: floor_eq_iff)
    with assms show ?thesis by (auto simp: round_even_def Let_def)
  next
    case 2
    then have "\<lfloor>x\<rfloor> = n - 1" by (simp add: floor_eq_iff)
    with assms 2 show ?thesis by (auto simp: round_even_def Let_def)
  qed
qed

lemma f64_round_eqI:
  assumes "pow2 k \<le> x" "x < pow2 (k + 1)" "-1022 \<le> k" "k \<le> 1022"
    and "\<bar>x / pow2 (k - 52) - of_int n\<bar> < 1 / 2 \<or> x / pow2 (k - 52) = of_int n + 1 / 2 \<and> even n"
  shows "f64_round x = Fin (of_int n * pow2 (k - 52))"
proof -
  have x: "0 < x" using assms(1) pow2_pos[of k] by linarith
  have e: "fl_exp x = k - 52"
    using floor_log2_eqI[OF assms(1,2)] x assms(3) by (simp add: fl_exp_def)
  have fl: "fl x = of_int n * pow2 (k - 52)"
    using x round_even_eqI[OF assms(5)] by (simp add: fl_pos e)
  have "fl x \<le> pow2 (k + 1)" using fl_le_binade[OF x] by (simp add: e add.commute)
  also have "\<dots> \<le> pow2 1023" using assms(4) by (intro pow2_mono) simp
  also have "\<dots> < pow2 1024" using pow2_Suc[of 1023] by simp
  finally have "fl x < pow2 1024" .
  moreover have "- pow2 1024 < fl x" using fl_nonneg[of x] x pow2_pos[of 1024] by linarith
  ultimately show ?thesis by (simp add: f64_round_def Let_def flip: fl)
qed

end
