(* ===== verification/Evaluator_Scores.thy ===== *)
theory Evaluator_Scores
  imports Evaluator Go_Rounding
begin

text \<open>
  What the score of a candidate means: it lies between 0 and 1 when piece counts and loads
  are in range, it grows with the parent's finished pieces, and it is 0 across security domains.
\<close>

section \<open>The weights as \<open>float64\<close> values\<close>

lemma weights_eq:
  "finishedPieceWeight = Fin (3602879701896397 / 9007199254740992)"
  "freeLoadWeight = Fin (5404319552844595 / 18014398509481984)"
  "idcAffinityWeight = Fin (5404319552844595 / 36028797018963968)"
  "netTopologyAffinityWeight = Fin (3602879701896397 / 36028797018963968)"
  "locationAffinityWeight = Fin (3602879701896397 / 72057594037927936)"
  using f64_round_eqI[of "-2" "4 / 10" 7205759403792794]
    f64_round_eqI[of "-2" "3 / 10" 5404319552844595]
    f64_round_eqI[of "-3" "15 / 100" 5404319552844595]
    f64_round_eqI[of "-4" "1 / 10" 7205759403792794]
    f64_round_eqI[of "-5" "5 / 100" 7205759403792794]
  by (simp_all add: finishedPieceWeight_def freeLoadWeight_def idcAffinityWeight_def
      netTopologyAffinityWeight_def locationAffinityWeight_def pow2_def)

lemma scores_eq: "maxScore = Fin 1" "minScore = Fin 0"
  by (simp_all add: maxScore_def minScore_def f64_of_int_exact)

text \<open>The weights add up to exactly 1, although each of the first four sums is rounded.\<close>

lemma weights_sum:
  "f64_add (f64_add (f64_add (f64_add finishedPieceWeight freeLoadWeight) idcAffinityWeight)
     netTopologyAffinityWeight) locationAffinityWeight = Fin 1"
  using f64_round_eqI[of "-1" "3602879701896397 / 9007199254740992 + 5404319552844595 / 18014398509481984" 6305039478318694]
    f64_round_eqI[of "-1" "3152519739159347 / 4503599627370496 + 5404319552844595 / 36028797018963968" 7656119366529843]
    f64_round_eqI[of "-1" "7656119366529843 / 9007199254740992 + 3602879701896397 / 36028797018963968" 8556839292003942]
    f64_round_eqI[of "-1" "4278419646001971 / 4503599627370496 + 3602879701896397 / 72057594037927936" 9007199254740992]
  by (simp add: weights_eq pow2_def)

lemma weight_times_1:
  "f64_mul finishedPieceWeight (Fin 1) = finishedPieceWeight"
  "f64_mul freeLoadWeight (Fin 1) = freeLoadWeight"
  "f64_mul idcAffinityWeight (Fin 1) = idcAffinityWeight"
  "f64_mul netTopologyAffinityWeight (Fin 1) = netTopologyAffinityWeight"
  "f64_mul locationAffinityWeight (Fin 1) = locationAffinityWeight"
  using f64_round_eqI[of "-2" "3602879701896397 / 9007199254740992" 7205759403792794]
    f64_round_eqI[of "-2" "5404319552844595 / 18014398509481984" 5404319552844595]
    f64_round_eqI[of "-3" "5404319552844595 / 36028797018963968" 5404319552844595]
    f64_round_eqI[of "-4" "3602879701896397 / 36028797018963968" 7205759403792794]
    f64_round_eqI[of "-5" "3602879701896397 / 72057594037927936" 7205759403792794]
  by (simp_all add: weights_eq pow2_def)

section \<open>Scores between 0 and 1\<close>

definition unit_score :: "f64 \<Rightarrow> bool" where
  "unit_score x \<longleftrightarrow> Fin 0 \<le> x \<and> x \<le> Fin 1"

lemma f64_round_1 [simp]: "f64_round 1 = Fin 1"
  using f64_of_int_exact[of 1] by (simp add: f64_of_int_def)

lemma f64_ratio:
  "0 < k \<Longrightarrow> k < 2 ^ 53 \<Longrightarrow> \<bar>i\<bar> < 2 ^ 53 \<Longrightarrow>
   f64_div (f64_of_int i) (f64_of_int k) = f64_round (of_int i / of_int k)"
  by (simp add: f64_of_int_exact)

lemma unit_score_ratio:
  assumes "0 \<le> i" "i \<le> k" "0 < k" "k < 2 ^ 53"
  shows "unit_score (f64_div (f64_of_int i) (f64_of_int k))"
proof -
  have "(of_int i :: rat) \<le> of_int k" "(0 :: rat) < of_int k" using assms by simp_all
  then have q: "of_int i / of_int k \<le> (1 :: rat)" "(0 :: rat) \<le> of_int i / of_int k"
    using assms by simp_all
  have "f64_round (of_int i / of_int k) \<le> Fin 1" using f64_round_mono[OF q(2,1)] by simp
  moreover have "Fin 0 \<le> f64_round (of_int i / of_int k)"
    using f64_nonneg_round[OF q(2)] by (simp add: f64_nonneg_iff)
  ultimately show ?thesis using assms by (simp add: unit_score_def f64_ratio)
qed

lemma unit_score_consts [simp]: "unit_score maxScore" "unit_score minScore"
  by (simp_all add: unit_score_def scores_eq)

lemma unit_affinity:
  assumes "calculateMultiElementAffinityScore dst src = Ret s"
  shows "unit_score s"
proof (cases "dst \<noteq> [] \<and> src \<noteq> [] \<and> dst \<noteq> src")
  case True
  with assms have "s = f64_div (f64_of_int (int (min 5 (common_prefix (Split dst (CHR ''|''))
      (Split src (CHR ''|'')))))) (f64_of_int 5)"
    by (simp add: affinity_correct)
  then show ?thesis by (simp only:) (rule unit_score_ratio, simp_all)
next
  case False
  with assms show ?thesis by (auto simp: calculateMultiElementAffinityScore_def split: if_splits)
qed

lemma unit_idc: "unit_score (calculateIDCAffinityScore dst src)"
  by (simp add: calculateIDCAffinityScore_def)

lemma unit_free_load:
  assumes "h_CurrentUploadLoad host \<le> h_TotalUploadLoad host" "0 < h_TotalUploadLoad host"
  shows "unit_score (calculateFreeLoadScore host)"
proof -
  have "uint (h_TotalUploadLoad host - h_CurrentUploadLoad host)
      = uint (h_TotalUploadLoad host) - uint (h_CurrentUploadLoad host)"
    using assms(1) by (simp add: uint_sub_if' word_le_def)
  moreover have "uint (h_TotalUploadLoad host) < 2 ^ 32" using uint_lt2p[of "h_TotalUploadLoad host"] by simp
  moreover have "0 < uint (h_TotalUploadLoad host)" using assms(2) by (simp add: word_less_def)
  moreover have "uint (h_CurrentUploadLoad host) \<le> uint (h_TotalUploadLoad host)"
    using assms(1) by (simp add: word_le_def)
  ultimately show ?thesis
    unfolding calculateFreeLoadScore_def Let_def
    by (intro unit_score_ratio) (simp_all)
qed

lemma unit_piece:
  assumes "0 < sint n" "0 \<le> sint (p_TotalPieceCount (peer_at h p))"
    "sint (p_TotalPieceCount (peer_at h p)) \<le> sint n"
  shows "unit_score (calculatePieceScore h p c n)"
proof -
  have "sint n < 2 ^ 53" using sint_bounds_32[of n] by simp
  with assms show ?thesis by (simp add: calculatePieceScore_def Let_def unit_score_ratio)
qed

definition weighted :: "f64 \<Rightarrow> f64 \<Rightarrow> f64 \<Rightarrow> f64 \<Rightarrow> f64 \<Rightarrow> f64" where
  "weighted piece free idc net loc =
     f64_add (f64_add (f64_add (f64_add (f64_mul finishedPieceWeight piece)
       (f64_mul freeLoadWeight free)) (f64_mul idcAffinityWeight idc))
       (f64_mul netTopologyAffinityWeight net)) (f64_mul locationAffinityWeight loc)"

lemma weighted_mono:
  assumes "Fin 0 \<le> a" "a \<le> a'" "Fin 0 \<le> b" "b \<le> b'" "Fin 0 \<le> c" "c \<le> c'"
    "Fin 0 \<le> d" "d \<le> d'" "Fin 0 \<le> e" "e \<le> e'"
  shows "weighted a b c d e \<le> weighted a' b' c' d' e'"
  using assms unfolding weighted_def weights_eq
  by (intro f64_add_mono f64_mul_mono) (simp_all flip: f64_nonneg_iff add: f64_nonneg_add f64_nonneg_mul)

lemma weighted_nonneg:
  assumes "Fin 0 \<le> a" "Fin 0 \<le> b" "Fin 0 \<le> c" "Fin 0 \<le> d" "Fin 0 \<le> e"
  shows "Fin 0 \<le> weighted a b c d e"
  using assms unfolding weighted_def weights_eq
  by (simp flip: f64_nonneg_iff add: f64_nonneg_add f64_nonneg_mul)

lemma weighted_top: "weighted (Fin 1) (Fin 1) (Fin 1) (Fin 1) (Fin 1) = Fin 1"
  by (simp only: weighted_def weight_times_1 weights_sum)

lemma unit_weighted:
  assumes "unit_score a" "unit_score b" "unit_score c" "unit_score d" "unit_score e"
  shows "unit_score (weighted a b c d e)"
proof -
  have "weighted a b c d e \<le> weighted (Fin 1) (Fin 1) (Fin 1) (Fin 1) (Fin 1)"
    using assms by (intro weighted_mono) (simp_all add: unit_score_def)
  then show ?thesis
    using assms weighted_nonneg by (simp add: weighted_top unit_score_def)
qed

lemma Evaluate_weighted:
  assumes "h_SecurityDomain (peerHost h p) = [] \<or> h_SecurityDomain (peerHost h c) = []
    \<or> h_SecurityDomain (peerHost h p) = h_SecurityDomain (peerHost h c)"
  obtains net loc where
    "calculateMultiElementAffinityScore (h_NetTopology (peerHost h p)) (h_NetTopology (peerHost h c)) = Ret net"
    "calculateMultiElementAffinityScore (h_Location (peerHost h p)) (h_Location (peerHost h c)) = Ret loc"
    "Evaluate h p c n = Ret (weighted (calculatePieceScore h p c n) (calculateFreeLoadScore (peerHost h p))
       (calculateIDCAffinityScore (peerHost h p) (peerHost h c)) net loc)"
proof -
  obtain net where net: "calculateMultiElementAffinityScore (h_NetTopology (peerHost h p))
      (h_NetTopology (peerHost h c)) = Ret net" using affinity_returns by blast
  obtain loc where loc: "calculateMultiElementAffinityScore (h_Location (peerHost h p))
      (h_Location (peerHost h c)) = Ret loc" using affinity_returns by blast
  from assms have "Evaluate h p c n = Ret (weighted (calculatePieceScore h p c n)
      (calculateFreeLoadScore (peerHost h p))
      (calculateIDCAffinityScore (peerHost h p) (peerHost h c)) net loc)"
    by (auto simp add: Evaluate_def Let_def net loc weighted_def)
  with net loc that show thesis by blast
qed

lemma Evaluate_unit:
  assumes "0 < sint n" "0 \<le> sint (p_TotalPieceCount (peer_at h p))"
    "sint (p_TotalPieceCount (peer_at h p)) \<le> sint n"
    "h_CurrentUploadLoad (peerHost h p) \<le> h_TotalUploadLoad (peerHost h p)"
    "0 < h_TotalUploadLoad (peerHost h p)"
  shows "\<exists>s. Evaluate h p c n = Ret (Fin s) \<and> 0 \<le> s \<and> s \<le> 1"
proof -
  have "\<exists>x. Evaluate h p c n = Ret x \<and> unit_score x"
  proof (cases "h_SecurityDomain (peerHost h p) \<noteq> [] \<and> h_SecurityDomain (peerHost h c) \<noteq> []
      \<and> h_SecurityDomain (peerHost h p) \<noteq> h_SecurityDomain (peerHost h c)")
    case True
    then show ?thesis by (simp add: Evaluate_def Let_def)
  next
    case False
    then obtain net loc where
      "calculateMultiElementAffinityScore (h_NetTopology (peerHost h p)) (h_NetTopology (peerHost h c)) = Ret net"
      "calculateMultiElementAffinityScore (h_Location (peerHost h p)) (h_Location (peerHost h c)) = Ret loc"
      "Evaluate h p c n = Ret (weighted (calculatePieceScore h p c n) (calculateFreeLoadScore (peerHost h p))
         (calculateIDCAffinityScore (peerHost h p) (peerHost h c)) net loc)"
      using Evaluate_weighted[of h p c n] by blast
    with assms show ?thesis
      by (blast intro: unit_weighted unit_piece unit_free_load unit_idc unit_affinity)
  qed
  then obtain x where x: "Evaluate h p c n = Ret x" "unit_score x" by blast
  from x(2) obtain s where "x = Fin s" "0 \<le> s" "s \<le> 1"
    by (cases x) (auto simp: unit_score_def less_eq_f64_def)
  with x(1) show ?thesis by blast
qed

section \<open>More finished pieces never lower the score\<close>

lemma piece_score_mono:
  assumes "0 < sint n" "0 \<le> sint (p_TotalPieceCount (peer_at h p))"
    "sint (p_TotalPieceCount (peer_at h p)) \<le> sint (p_TotalPieceCount (peer_at h q))"
  shows "Fin 0 \<le> calculatePieceScore h p c n"
    and "calculatePieceScore h p c n \<le> calculatePieceScore h q c n"
proof -
  have b: "sint (p_TotalPieceCount (peer_at h q)) < 2 ^ 53" "sint n < 2 ^ 53"
    using sint_bounds_32[of n] sint_bounds_32[of "p_TotalPieceCount (peer_at h q)"] by simp_all
  let ?a = "of_int (sint (p_TotalPieceCount (peer_at h p))) / of_int (sint n) :: rat"
  let ?b = "of_int (sint (p_TotalPieceCount (peer_at h q))) / of_int (sint n) :: rat"
  have eq: "calculatePieceScore h p c n = f64_round ?a" "calculatePieceScore h q c n = f64_round ?b"
    using assms b by (simp_all add: calculatePieceScore_def Let_def f64_ratio)
  have "0 \<le> ?a" "?a \<le> ?b" using assms by (simp_all add: divide_right_mono del: of_int_sint)
  then show "Fin 0 \<le> calculatePieceScore h p c n"
    "calculatePieceScore h p c n \<le> calculatePieceScore h q c n"
    unfolding eq using f64_nonneg_round f64_nonneg_iff f64_round_mono by blast+
qed

lemma Evaluate_mono_pieces:
  assumes "0 < sint n" "0 \<le> sint (p_TotalPieceCount (peer_at h p))"
    "sint (p_TotalPieceCount (peer_at h p)) \<le> sint (p_TotalPieceCount (peer_at h q))"
    and host: "p_Host (peer_at h p) = p_Host (peer_at h q)"
    and load: "h_CurrentUploadLoad (peerHost h p) \<le> h_TotalUploadLoad (peerHost h p)"
      "0 < h_TotalUploadLoad (peerHost h p)"
  shows "\<exists>s t. Evaluate h p c n = Ret s \<and> Evaluate h q c n = Ret t \<and> s \<le> t"
proof (cases "h_SecurityDomain (peerHost h p) \<noteq> [] \<and> h_SecurityDomain (peerHost h c) \<noteq> []
    \<and> h_SecurityDomain (peerHost h p) \<noteq> h_SecurityDomain (peerHost h c)")
  case True
  moreover have "peerHost h q = peerHost h p" using host by (simp add: peerHost_def)
  ultimately show ?thesis by (simp add: Evaluate_def Let_def)
next
  case False
  have eq: "peerHost h q = peerHost h p" using host by (simp add: peerHost_def)
  obtain net loc where a:
    "calculateMultiElementAffinityScore (h_NetTopology (peerHost h p)) (h_NetTopology (peerHost h c)) = Ret net"
    "calculateMultiElementAffinityScore (h_Location (peerHost h p)) (h_Location (peerHost h c)) = Ret loc"
    "Evaluate h p c n = Ret (weighted (calculatePieceScore h p c n) (calculateFreeLoadScore (peerHost h p))
       (calculateIDCAffinityScore (peerHost h p) (peerHost h c)) net loc)"
    using Evaluate_weighted[of h p c n] False by blast
  obtain net' loc' where b:
    "calculateMultiElementAffinityScore (h_NetTopology (peerHost h p)) (h_NetTopology (peerHost h c)) = Ret net'"
    "calculateMultiElementAffinityScore (h_Location (peerHost h p)) (h_Location (peerHost h c)) = Ret loc'"
    "Evaluate h q c n = Ret (weighted (calculatePieceScore h q c n) (calculateFreeLoadScore (peerHost h p))
       (calculateIDCAffinityScore (peerHost h p) (peerHost h c)) net' loc')"
    using Evaluate_weighted[of h q c n] False unfolding eq by blast
  have "unit_score (calculateFreeLoadScore (peerHost h p))" "unit_score net" "unit_score loc"
    "unit_score (calculateIDCAffinityScore (peerHost h p) (peerHost h c))"
    using unit_free_load[OF load] unit_affinity[OF a(1)] unit_affinity[OF a(2)] unit_idc by simp_all
  then have "weighted (calculatePieceScore h p c n) (calculateFreeLoadScore (peerHost h p))
       (calculateIDCAffinityScore (peerHost h p) (peerHost h c)) net loc
     \<le> weighted (calculatePieceScore h q c n) (calculateFreeLoadScore (peerHost h p))
       (calculateIDCAffinityScore (peerHost h p) (peerHost h c)) net loc"
    using piece_score_mono[OF assms(1,2,3)] by (intro weighted_mono) (simp_all add: unit_score_def)
  with a b show ?thesis by simp
qed

section \<open>Bad nodes\<close>

text \<open>
  What the code relies on in the statistics package: \<open>LoadRawData\<close> converts a slice of
  \<open>int\<close> to \<open>float64\<close> values, and the mean and the standard deviation of a non-empty slice
  of such values are numbers.
\<close>

definition stats_ok :: "Stats \<Rightarrow> bool" where
  "stats_ok stats \<longleftrightarrow>
     (\<forall>ys. LoadRawData stats ys = map f64_of_int ys) \<and>
     (\<forall>ys. ys \<noteq> [] \<longrightarrow> (\<forall>y \<in> set ys. \<bar>y\<bar> \<le> 2 ^ 63) \<longrightarrow>
        (\<exists>m. Mean stats (map f64_of_int ys) = Fin m) \<and>
        (\<exists>d. StandardDeviation stats (map f64_of_int ys) = Fin d))"

definition int64_costs :: "heap \<Rightarrow> peer_ref \<Rightarrow> bool" where
  "int64_costs h p \<longleftrightarrow> (\<forall>y \<in> set (p_pieceCosts (peer_at h p)). \<bar>y\<bar> \<le> 2 ^ 63)"

lemma f64_round_not_NaN [simp]: "f64_round x \<noteq> NaN" "f64_of_int i \<noteq> NaN"
  by (simp_all add: f64_of_int_def f64_round_def Let_def)

lemma f64_of_int_small: "\<bar>i\<bar> < 100 \<Longrightarrow> f64_of_int i = Fin (of_int i)"
  by (rule f64_of_int_exact) simp

lemma f64_add_not_NaN: "y \<noteq> NaN \<Longrightarrow> f64_add (Fin a) y \<noteq> NaN"
  by (cases y) simp_all

lemma stats_ok_mean:
  assumes "stats_ok stats" "int64_costs h p" "2 \<le> length (p_pieceCosts (peer_at h p))"
  obtains m where "Mean stats (map f64_of_int (butlast (p_pieceCosts (peer_at h p)))) = Fin m"
proof -
  let ?ys = "butlast (p_pieceCosts (peer_at h p))"
  have "?ys \<noteq> []" using assms(3) by (cases "p_pieceCosts (peer_at h p)") auto
  moreover have "\<forall>y \<in> set ?ys. \<bar>y\<bar> \<le> 2 ^ 63"
    using assms(2) by (auto simp: int64_costs_def dest: in_set_butlastD)
  ultimately show thesis using assms(1) that unfolding stats_ok_def by blast
qed

lemma IsBadNode_correct:
  assumes "stats_ok stats" "int64_costs h p"
  shows "IsBadNode stats h p = Ret (IsBad h p \<or> \<not> h_IsCDN (peerHost h p) \<and>
    2 \<le> length (p_pieceCosts (peer_at h p)) \<and>
    f64_mul (Mean stats (map f64_of_int (butlast (p_pieceCosts (peer_at h p))))) (Fin 40)
      < f64_of_int (last (p_pieceCosts (peer_at h p))))"
proof (cases "2 \<le> length (p_pieceCosts (peer_at h p))")
  case False
  with assms(1) show ?thesis by (simp add: IsBadNode_def Let_def stats_ok_def minAvailableCostLen_def)
next
  case True
  obtain m where m: "Mean stats (map f64_of_int (butlast (p_pieceCosts (peer_at h p)))) = Fin m"
    using stats_ok_mean[OF assms True] by blast
  let ?cs = "p_pieceCosts (peer_at h p)"
  have load: "LoadRawData stats ?cs = map f64_of_int ?cs" using assms(1) by (simp add: stats_ok_def)
  have last: "map f64_of_int ?cs ! (length ?cs - 1) = f64_of_int (last ?cs)"
    using True by (cases ?cs) (simp_all add: last_conv_nth)
  have pre: "take (length ?cs - 1) (map f64_of_int ?cs) = map f64_of_int (butlast ?cs)"
    by (simp add: take_map butlast_conv_take)
  show ?thesis
    using True unfolding IsBadNode_def Let_def load length_map last pre m
    by (simp add: minAvailableCostLen_def big_gt_def f64_of_int_small)
qed

lemma NeedAdjustParent_returns:
  assumes "stats_ok stats" "int64_costs h p"
    and "\<And>q. GetParent h p = Some q \<Longrightarrow> int64_costs h q"
  shows "\<exists>b. NeedAdjustParent stats h p = Ret b"
proof -
  let ?cs = "p_pieceCosts (peer_at h p)"
  have load: "LoadRawData stats ?cs = map f64_of_int ?cs" using assms(1) by (simp add: stats_ok_def)
  have pre: "take (length ?cs - k) (map f64_of_int ?cs) = map f64_of_int (take (length ?cs - k) ?cs)" for k
    by (simp add: take_map)
  have lost: "\<exists>b. (case GetParent h p of None \<Rightarrow> Ret False
      | Some parent \<Rightarrow> if IsLeave h parent then Ret True else IsBadNode stats h parent) = Ret b"
    using assms(3) IsBadNode_correct[OF assms(1)] by (cases "GetParent h p") auto
  have fin: "\<exists>m. Mean stats (map f64_of_int (take (length ?cs - k) ?cs)) = Fin m"
    "\<exists>d. StandardDeviation stats (map f64_of_int (take (length ?cs - k) ?cs)) = Fin d"
    if "k < length ?cs" for k
  proof -
    have "take (length ?cs - k) ?cs \<noteq> []" using that by auto
    moreover have "\<forall>y \<in> set (take (length ?cs - k) ?cs). \<bar>y\<bar> \<le> 2 ^ 63"
      using assms(2) by (auto simp: int64_costs_def dest: in_set_takeD)
    ultimately show "\<exists>m. Mean stats (map f64_of_int (take (length ?cs - k) ?cs)) = Fin m"
      "\<exists>d. StandardDeviation stats (map f64_of_int (take (length ?cs - k) ?cs)) = Fin d"
      using assms(1) unfolding stats_ok_def by blast+
  qed
  show ?thesis
    using lost fin[of 1] fin[of 2]
    unfolding NeedAdjustParent_def Let_def load pre length_map
    by (auto simp: minAvailableCostLen_def normalDistributionLen_def big_gt_def f64_of_int_small
        f64_add_not_NaN not_less split: if_splits)
qed

section \<open>Properties\<close>

text \<open>
  C16. \<open>Evaluate\<close> never panics: for every pair of peers and every piece count it returns a score,
  so the indexing in the affinity loop stays in range.
\<close>

theorem evaluate_never_panics: "\<exists>s. Evaluate h parent child taskPieceCount = Ret s"
  by (rule Evaluate_returns)

end
