(* ===== verification/Scheduling.thy ===== *)
theory Scheduling
  imports Basic_Scheduler_Facts Evaluator_Scores
begin

text \<open>
  The results of \<open>ScheduleParent\<close> and \<open>ScheduleChildren\<close>: proved once for every evaluator that
  keeps the contract, then stated for \<open>evaluatorBase\<close>.
\<close>

section \<open>For every evaluator\<close>

definition task_list :: "heap \<Rightarrow> peer_ref \<Rightarrow> peer_ref list" where
  "task_list h peer = ul_container (t_peers (peerTask h peer))"

definition with_parent :: "peer_ref \<Rightarrow> peer_ref \<Rightarrow> heap \<Rightarrow> heap" where
  "with_parent peer primary h =
     (case GetParent h peer of
        Some parent \<Rightarrow> if primary \<noteq> parent then ReplaceParent peer (Some primary) h else h
      | None \<Rightarrow> h)"

lemma subseq_set: "subseq xs ys \<Longrightarrow> x \<in> set xs \<Longrightarrow> x \<in> set ys"
  by (drule (1) list_emb_set) auto

lemma selectCandidateParents_ok:
  assumes "selectCandidateParents ev h peer n blank = Ret cs" "c \<in> set cs"
  shows "parent_ok ev h peer blank c" and "c \<in> set (task_list h peer)"
proof -
  from assms have *: "PickReverse n (parent_filter ev h peer blank) (peerTask h peer) = Ret cs"
    by (auto simp: selectCandidateParents_def split: if_splits)
  show "parent_ok ev h peer blank c"
    using PickReverse_sound(2)[OF * assms(2)] by (rule parent_filter_True)
  show "c \<in> set (task_list h peer)"
    using subseq_set[OF PickReverse_sound(1)[OF *] assms(2)] by (simp add: task_list_def)
qed

lemma selectCandidateParents_eq:
  assumes "tree_inv h" "peer < next_peer h" "\<And>c. c \<in> set (task_list h peer) \<Longrightarrow> c < next_peer h"
    and "\<And>c. c \<in> set (task_list h peer) \<Longrightarrow> \<exists>b. ev_IsBadNode ev h c = Ret b"
  shows "selectCandidateParents ev h peer n blank =
    Ret (if CanSchedule (peerTask h peer)
         then take (nat n) (filter (parent_ok ev h peer blank) (rev (task_list h peer))) else [])"
proof -
  have "parent_filter ev h peer blank c = Ret (parent_ok ev h peer blank c)"
    if "c \<in> set (task_list h peer)" for c
  proof -
    have "IsDescendant h c peer = Some ((c, peer) \<in> (parent_rel h)\<^sup>+)"
      using isDescendant_correct[OF assms(1) assms(3)[OF that] assms(2)] by (simp add: IsDescendant_def)
    with assms(4)[OF that] show ?thesis using parent_filter_eq by blast
  qed
  then show ?thesis
    using PickReverse_correct[of "peerTask h peer" "parent_filter ev h peer blank" "parent_ok ev h peer blank" n]
    by (simp add: selectCandidateParents_def task_list_def)
qed

lemma selectCandidateChildren_ok:
  assumes "selectCandidateChildren ev h peer n blank = Ret cs" "c \<in> set cs"
  shows "child_ok h peer blank c" and "c \<in> set (task_list h peer)"
proof -
  from assms have *: "Pick n (child_filter ev h peer blank) (peerTask h peer) = Ret cs"
    by (simp add: selectCandidateChildren_def)
  show "child_ok h peer blank c"
    using Pick_sound(2)[OF * assms(2)] by (rule child_filter_True)
  show "c \<in> set (task_list h peer)"
    using subseq_set[OF Pick_sound(1)[OF *] assms(2)] by (simp add: task_list_def)
qed

lemma take_children_keeps:
  assumes "take_children h peer cs (f, acc) = (f', acc')"
  shows "\<exists>new. acc' = acc @ new \<and> set new \<subseteq> set cs \<and> (\<forall>c \<in> set new. GetParent h c \<noteq> Some peer)
    \<and> (0 \<le> sint f \<longrightarrow> sint f' = sint f - int (length new) \<and> 0 \<le> sint f')"
  using assms
proof (induction cs arbitrary: f acc)
  case (Cons c cs)
  show ?case
  proof (cases "sint f \<le> 0 \<or> GetParent h c = Some peer")
    case True
    then consider "sint f \<le> 0" | "0 < sint f" "GetParent h c = Some peer" by linarith
    then show ?thesis
    proof cases
      case 1
      with Cons.prems show ?thesis by simp
    next
      case 2
      with Cons.prems have "take_children h peer cs (f, acc) = (f', acc')" by simp
      from Cons.IH[OF this] show ?thesis by auto
    qed
  next
    case False
    with Cons.prems have "take_children h peer cs (f - 1, acc @ [c]) = (f', acc')" by simp
    from Cons.IH[OF this] obtain new where new: "acc' = (acc @ [c]) @ new" "set new \<subseteq> set cs"
      "\<forall>c \<in> set new. GetParent h c \<noteq> Some peer"
      "0 \<le> sint (f - 1) \<longrightarrow> sint f' = sint (f - 1) - int (length new) \<and> 0 \<le> sint f'" by blast
    have "sint (f - 1) = sint f - 1" using False by (simp add: sint_dec_32)
    with new False show ?thesis by (intro exI[of _ "c # new"]) auto
  qed
qed auto

lemma take_groups_keeps:
  assumes "take_groups h peer gs (f, acc) = (f', acc')"
  shows "\<exists>new. acc' = acc @ new \<and> set new \<subseteq> set (concat gs) \<and> (\<forall>c \<in> set new. GetParent h c \<noteq> Some peer)
    \<and> (0 \<le> sint f \<longrightarrow> sint f' = sint f - int (length new) \<and> 0 \<le> sint f')"
  using assms
proof (induction gs arbitrary: f acc)
  case (Cons g gs)
  show ?case
  proof (cases "sint f \<le> 0")
    case True
    with Cons.prems show ?thesis by auto
  next
    case False
    obtain f1 acc1 where 1: "take_children h peer g (f, acc) = (f1, acc1)" by fastforce
    with False Cons.prems have 2: "take_groups h peer gs (f1, acc1) = (f', acc')" by simp
    from take_children_keeps[OF 1] obtain n1 where n1: "acc1 = acc @ n1" "set n1 \<subseteq> set g"
      "\<forall>c \<in> set n1. GetParent h c \<noteq> Some peer" "sint f1 = sint f - int (length n1)" "0 \<le> sint f1"
      using False by auto
    from Cons.IH[OF 2] n1 obtain n2 where "acc' = acc1 @ n2" "set n2 \<subseteq> set (concat gs)"
      "\<forall>c \<in> set n2. GetParent h c \<noteq> Some peer" "sint f' = sint f1 - int (length n2)" "0 \<le> sint f'" by blast
    with n1 show ?thesis by (intro exI[of _ "n1 @ n2"]) auto
  qed
qed auto

context evaluator
begin

lemma eval_parents_ranking:
  obtains m where "eval_loop (\<lambda>p. ev_Evaluate ev h p peer n) cs = Ret (m, map (\<lambda>p. score h p peer n) cs)"
    "ranked m (map (\<lambda>p. score h p peer n) cs) = ranking (\<lambda>p. score h p peer n) cs"
  by (rule eval_loop_ranking[of cs "\<lambda>p. ev_Evaluate ev h p peer n" "\<lambda>p. score h p peer n"])
     (simp_all add: Evaluate_score)

lemma eval_children_ranking:
  obtains m where "eval_loop (\<lambda>c. ev_Evaluate ev h peer c n) cs = Ret (m, map (\<lambda>c. score h peer c n) cs)"
    "ranked m (map (\<lambda>c. score h peer c n) cs) = ranking (\<lambda>c. score h peer c n) cs"
  by (rule eval_loop_ranking[of cs "\<lambda>c. ev_Evaluate ev h peer c n" "\<lambda>c. score h peer c n"])
     (simp_all add: Evaluate_score)

definition parent_score :: "heap \<Rightarrow> peer_ref \<Rightarrow> peer_ref \<Rightarrow> f64" where
  "parent_score h peer p = score h p peer (t_TotalPieceCount (peerTask h peer))"

lemma ScheduleParent_eq:
  assumes "selectCandidateParents ev h peer n blank = Ret cs"
  shows "ScheduleParent ev n peer blank h =
    (if cs = [] then Ret (None, h)
     else case concat (ranking (parent_score h peer) cs) of
            [] \<Rightarrow> Panic ''index out of range''
          | primary # rest \<Rightarrow> Ret (Some (primary, rest), with_parent peer primary h))"
proof -
  obtain m where "eval_loop (\<lambda>p. ev_Evaluate ev h p peer (t_TotalPieceCount (peerTask h peer))) cs
      = Ret (m, map (parent_score h peer) cs)"
    "ranked m (map (parent_score h peer) cs) = ranking (parent_score h peer) cs"
    using eval_parents_ranking unfolding parent_score_def by blast
  then show ?thesis
    using assms by (simp add: ScheduleParent_def with_parent_def cong: list.case_cong)
qed

lemma ScheduleParent_cases:
  assumes "ScheduleParent ev n peer blank h = Ret (r, h')"
  obtains (none) "r = None" "h' = h"
  | (found) cs primary rest where "selectCandidateParents ev h peer n blank = Ret cs"
      "concat (ranking (parent_score h peer) cs) = primary # rest"
      "r = Some (primary, rest)" "h' = with_parent peer primary h"
proof -
  obtain cs where cs: "selectCandidateParents ev h peer n blank = Ret cs"
    using assms by (auto simp: ScheduleParent_def)
  note eq = assms[unfolded ScheduleParent_eq[OF cs]]
  show thesis
  proof (cases "cs = []")
    case True
    with eq show thesis by (intro none) simp_all
  next
    case False
    show thesis
    proof (cases "concat (ranking (parent_score h peer) cs)")
      case Nil
      with eq False show thesis by simp
    next
      case (Cons p ps)
      with eq False show thesis by (intro found[OF cs Cons]) simp_all
    qed
  qed
qed

lemma ScheduleParent_eligible:
  assumes "ScheduleParent ev n peer blank h = Ret (Some (primary, rest), h')" "q \<in> set (primary # rest)"
  shows "parent_ok ev h peer blank q" and "q \<in> set (task_list h peer)"
    and "parent_score h peer q \<le> parent_score h peer primary"
proof -
  obtain cs where cs: "selectCandidateParents ev h peer n blank = Ret cs"
    "concat (ranking (parent_score h peer) cs) = primary # rest"
    using assms(1) by (cases rule: ScheduleParent_cases) auto
  have "q \<in> set cs" using assms(2) cs set_ranking[of "parent_score h peer" cs] by auto
  then show "parent_ok ev h peer blank q" "q \<in> set (task_list h peer)"
    using selectCandidateParents_ok[OF cs(1)] by blast+
  show "parent_score h peer q \<le> parent_score h peer primary"
    using ranking_head_best[OF cs(2) \<open>q \<in> set cs\<close>] .
qed

lemma ScheduleParent_heap:
  assumes "ScheduleParent ev n peer blank h = Ret (r, h')"
  shows "h' = (case r of None \<Rightarrow> h | Some (primary, _) \<Rightarrow> with_parent peer primary h)"
  using assms by (cases rule: ScheduleParent_cases) simp_all

lemma ScheduleParent_keeps:
  assumes "ScheduleParent ev n peer blank h = Ret (r, h')"
    and "tree_inv h" "peer < next_peer h" "\<And>c. c \<in> set (task_list h peer) \<Longrightarrow> c < next_peer h"
  shows "tree_inv h'" and "no_overload h \<Longrightarrow> no_overload h'"
proof -
  have "tree_inv h' \<and> (no_overload h \<longrightarrow> no_overload h')"
  proof (cases r)
    case None
    with assms show ?thesis using ScheduleParent_heap[OF assms(1)] by simp
  next
    case (Some pr)
    then obtain p ps where r: "r = Some (p, ps)" by (cases pr) simp
    have ok: "parent_ok ev h peer blank p" "p \<in> set (task_list h peer)"
      using ScheduleParent_eligible[OF assms(1)[unfolded r], of p] by simp_all
    have p: "p < next_peer h" using assms(4) ok(2) .
    have "(p, peer) \<notin> (parent_rel h)\<^sup>*"
      using ok(1) by (intro IsDescendant_rtrancl[OF assms(2) p assms(3)]) (auto simp: parent_ok_def)
    then have "tree_inv (ReplaceParent peer (Some p) h)" using assms(2,3) p by (intro tree_inv_attach)
    moreover have "no_overload h \<Longrightarrow> no_overload (ReplaceParent peer (Some p) h)"
      using no_overload_attach_all[OF assms(2) _ p, of "[peer]"] ok(1) by (simp add: parent_ok_def)
    moreover have "h' = with_parent peer p h" using ScheduleParent_heap[OF assms(1)] r by simp
    ultimately show ?thesis using assms(2) by (auto simp: with_parent_def split: option.split)
  qed
  then show "tree_inv h'" "no_overload h \<Longrightarrow> no_overload h'" by blast+
qed

lemma ScheduleChildren_cases:
  assumes "ScheduleChildren ev peer blank h = Ret (cs, h')"
  shows "h' = fold (\<lambda>c. ReplaceParent c (Some peer)) cs h"
    and "\<And>c. c \<in> set cs \<Longrightarrow> child_ok h peer blank c \<and> c \<in> set (task_list h peer) \<and> GetParent h c \<noteq> Some peer"
    and "0 \<le> sint (GetFreeUploadLoad (peerHost h peer)) \<Longrightarrow>
      int (length cs) \<le> sint (GetFreeUploadLoad (peerHost h peer))"
proof -
  let ?f = "GetFreeUploadLoad (peerHost h peer)" and ?k = "t_TotalPieceCount (peerTask h peer)"
  have "h' = fold (\<lambda>c. ReplaceParent c (Some peer)) cs h \<and>
    (\<forall>c \<in> set cs. child_ok h peer blank c \<and> c \<in> set (task_list h peer) \<and> GetParent h c \<noteq> Some peer) \<and>
    (0 \<le> sint ?f \<longrightarrow> int (length cs) \<le> sint ?f)"
  proof -
    obtain bad where bad: "ev_IsBadNode ev h peer = Ret bad" using assms by (auto simp: ScheduleChildren_def)
    show ?thesis
    proof (cases bad)
      case True
      with assms bad show ?thesis by (simp add: ScheduleChildren_def)
    next
      case False
      obtain ds where ds: "selectCandidateChildren ev h peer (sint ?f * 2) blank = Ret ds"
        using assms bad False by (auto simp: ScheduleChildren_def Let_def)
      show ?thesis
      proof (cases "ds = []")
        case True
        with assms bad False ds show ?thesis by (simp add: ScheduleChildren_def Let_def)
      next
        case nonempty: False
        obtain m where m: "eval_loop (\<lambda>c. ev_Evaluate ev h peer c ?k) ds
            = Ret (m, map (\<lambda>c. score h peer c ?k) ds)"
          "ranked m (map (\<lambda>c. score h peer c ?k) ds) = ranking (\<lambda>c. score h peer c ?k) ds"
          using eval_children_ranking by blast
        obtain f' where t: "take_groups h peer (ranking (\<lambda>c. score h peer c ?k) ds) (?f, []) = (f', cs)"
          and h': "h' = fold (\<lambda>c. ReplaceParent c (Some peer)) cs h"
          using assms bad False ds m nonempty
          by (cases "take_groups h peer (ranking (\<lambda>c. score h peer c ?k) ds) (?f, [])")
             (simp add: ScheduleChildren_def Let_def)
        from take_groups_keeps[OF t] have "set cs \<subseteq> set ds" "\<forall>c \<in> set cs. GetParent h c \<noteq> Some peer"
          "0 \<le> sint ?f \<longrightarrow> int (length cs) \<le> sint ?f"
          using set_ranking[of "\<lambda>c. score h peer c ?k" ds] by auto
        with h' selectCandidateChildren_ok[OF ds] show ?thesis by blast
      qed
    qed
  qed
  then show "h' = fold (\<lambda>c. ReplaceParent c (Some peer)) cs h"
    "\<And>c. c \<in> set cs \<Longrightarrow> child_ok h peer blank c \<and> c \<in> set (task_list h peer) \<and> GetParent h c \<noteq> Some peer"
    "0 \<le> sint ?f \<Longrightarrow> int (length cs) \<le> sint ?f"
    by blast+
qed

lemma ScheduleChildren_keeps:
  assumes "ScheduleChildren ev peer blank h = Ret (cs, h')"
    and "tree_inv h" "peer < next_peer h" "\<And>c. c \<in> set (task_list h peer) \<Longrightarrow> c < next_peer h"
  shows "tree_inv h'" and "no_overload h \<Longrightarrow> no_overload h'"
proof -
  note sc = ScheduleChildren_cases[OF assms(1)]
  show "tree_inv h'"
    unfolding sc(1)
  proof (rule tree_inv_attach_all[OF assms(2,3)])
    fix c assume "c \<in> set cs"
    with sc(2) assms(4) have c: "child_ok h peer blank c" "c < next_peer h" by blast+
    then have "IsDescendant h peer c = Some False" "peer \<noteq> c"
      by (auto simp: child_ok_def IsAncestor_def IsDescendant_def)
    with c show "c < next_peer h \<and> (peer, c) \<notin> (parent_rel h)\<^sup>*"
      using IsDescendant_rtrancl[OF assms(2,3) c(2)] by blast
  qed
  show "no_overload h'" if "no_overload h"
  proof -
    have "loads h" using assms(2) by (simp add: tree_inv_def)
    note free = free_load_eq[OF this that, of "p_Host (peer_at h peer)"]
    have "upload_count h (p_Host (peer_at h peer)) \<le> unat (h_TotalUploadLoad (peerHost h peer))"
      using that by (simp add: peerHost_def no_overload_def)
    then have "0 \<le> sint (GetFreeUploadLoad (peerHost h peer))"
      using free unfolding peerHost_def by linarith
    with sc(3) show ?thesis
      unfolding sc(1) by (intro no_overload_attach_all[OF assms(2) that assms(3)])
  qed
qed

text \<open>With evaluator calls that return and scores that are numbers, a parent is found if there is one.\<close>

lemma ScheduleParent_total:
  assumes "tree_inv h" "peer < next_peer h" "\<And>c. c \<in> set (task_list h peer) \<Longrightarrow> c < next_peer h"
    and "\<And>c. c \<in> set (task_list h peer) \<Longrightarrow> \<exists>b. ev_IsBadNode ev h c = Ret b"
    and "\<And>c. c \<in> set (task_list h peer) \<Longrightarrow> parent_ok ev h peer blank c \<Longrightarrow>
      ev_Evaluate ev h c peer (t_TotalPieceCount (peerTask h peer)) \<noteq> Ret NaN"
  shows "\<exists>r h'. ScheduleParent ev n peer blank h = Ret (r, h') \<and>
    (r = None \<longleftrightarrow> \<not> (CanSchedule (peerTask h peer) \<and> 0 < n \<and>
      (\<exists>c \<in> set (task_list h peer). parent_ok ev h peer blank c)))"
proof -
  define cs where "cs = (if CanSchedule (peerTask h peer)
    then take (nat n) (filter (parent_ok ev h peer blank) (rev (task_list h peer))) else [])"
  have sel: "selectCandidateParents ev h peer n blank = Ret cs"
    using selectCandidateParents_eq[OF assms(1-4), of n blank] by (simp add: cs_def)
  have ne: "cs = [] \<longleftrightarrow> \<not> (CanSchedule (peerTask h peer) \<and> 0 < n \<and>
      (\<exists>c \<in> set (task_list h peer). parent_ok ev h peer blank c))"
    by (auto simp: cs_def filter_empty_conv)
  show ?thesis
  proof (cases "cs = []")
    case True
    with ne ScheduleParent_eq[OF sel] show ?thesis by auto
  next
    case False
    then obtain c where c: "c \<in> set cs" by (cases cs) auto
    from selectCandidateParents_ok[OF sel c] assms(5)[of c] have "parent_score h peer c \<noteq> NaN"
      by (auto simp: parent_score_def Evaluate_score)
    with c have "c \<in> set (concat (ranking (parent_score h peer) cs))" by (simp only: set_ranking) simp
    then obtain p ps where "concat (ranking (parent_score h peer) cs) = p # ps"
      by (cases "concat (ranking (parent_score h peer) cs)") auto
    with False ne ScheduleParent_eq[OF sel] show ?thesis by auto
  qed
qed

end

section \<open>For \<open>evaluatorBase\<close>\<close>

lemma evaluatorBase_simps [simp]:
  "ev_Evaluate (evaluatorBase stats) = Evaluate" "ev_IsBadNode (evaluatorBase stats) = IsBadNode stats"
  "ev_NeedAdjustParent (evaluatorBase stats) = NeedAdjustParent stats"
  by (simp_all add: evaluatorBase_def)

lemma f64_ratio_nonneg:
  "0 \<le> i \<Longrightarrow> i < 2 ^ 53 \<Longrightarrow> 0 < k \<Longrightarrow> k < 2 ^ 53 \<Longrightarrow> Fin 0 \<le> f64_div (f64_of_int i) (f64_of_int k)"
  by (simp add: f64_ratio f64_nonneg_round flip: f64_nonneg_iff)

lemma f64_of_int_nonneg: "0 \<le> i \<Longrightarrow> Fin 0 \<le> f64_of_int i"
  by (simp add: f64_of_int_def f64_nonneg_round flip: f64_nonneg_iff)

lemma Evaluate_not_NaN:
  assumes "0 \<le> sint (p_TotalPieceCount (peer_at h c))"
    "sint (p_TotalPieceCount (peer_at h c)) < sint (p_TotalPieceCount (peer_at h p))"
    "0 < h_TotalUploadLoad (peerHost h p)"
  shows "Evaluate h p c n \<noteq> Ret NaN"
proof (cases "h_SecurityDomain (peerHost h p) \<noteq> [] \<and> h_SecurityDomain (peerHost h c) \<noteq> []
    \<and> h_SecurityDomain (peerHost h p) \<noteq> h_SecurityDomain (peerHost h c)")
  case True
  then show ?thesis by (simp add: Evaluate_def Let_def scores_eq)
next
  case False
  then obtain net loc where a:
    "calculateMultiElementAffinityScore (h_NetTopology (peerHost h p)) (h_NetTopology (peerHost h c)) = Ret net"
    "calculateMultiElementAffinityScore (h_Location (peerHost h p)) (h_Location (peerHost h c)) = Ret loc"
    "Evaluate h p c n = Ret (weighted (calculatePieceScore h p c n) (calculateFreeLoadScore (peerHost h p))
       (calculateIDCAffinityScore (peerHost h p) (peerHost h c)) net loc)"
    using Evaluate_weighted[of h p c n] by blast
  have "0 < uint (h_TotalUploadLoad (peerHost h p))" using assms(3) by (simp add: word_less_def)
  moreover have "uint w < 2 ^ 53" for w :: "32 word" using uint_lt2p[of w] by simp
  ultimately have free: "Fin 0 \<le> calculateFreeLoadScore (peerHost h p)"
    by (simp add: calculateFreeLoadScore_def Let_def f64_ratio_nonneg)
  have d: "sint (p_TotalPieceCount (peer_at h p) - p_TotalPieceCount (peer_at h c))
      = sint (p_TotalPieceCount (peer_at h p)) - sint (p_TotalPieceCount (peer_at h c))"
    using assms(1,2) sint_bounds_32[of "p_TotalPieceCount (peer_at h p)"] by (subst sint_sub_32) auto
  have piece: "Fin 0 \<le> calculatePieceScore h p c n"
  proof (cases "0 < sint n")
    case True
    then show ?thesis using piece_score_mono(1)[of n h p p c] assms(1,2) by simp
  next
    case False
    then show ?thesis
      using d assms by (simp add: calculatePieceScore_def Let_def f64_of_int_nonneg)
  qed
  have "Fin 0 \<le> weighted (calculatePieceScore h p c n) (calculateFreeLoadScore (peerHost h p))
       (calculateIDCAffinityScore (peerHost h p) (peerHost h c)) net loc"
    using free piece unit_idc unit_affinity[OF a(1)] unit_affinity[OF a(2)]
    by (intro weighted_nonneg) (simp_all add: unit_score_def)
  then show ?thesis unfolding a(3) by (auto simp: less_eq_f64_def)
qed

end
