(* ===== verification/Events.thy ===== *)
theory Events
  imports Scheduling
begin

text \<open>
  \<open>scheduler/core/events.go\<close>: the events of the scheduler and their handlers, and the loop of
  \<open>service.go\<close> that retries peers without a parent. The state of a handler is the heap, the
  requests put on the waiting queue (with their delay), the seed tasks started in the
  background and whether a CDN client is configured. A nil dereference is a panic.

  A handler ranges over the children of a peer while it moves the child it visits to another
  parent; the entries visited are those of the start of the loop.
\<close>

section \<open>State and messages\<close>

record rsPeer =
  rs_times :: int32
  rs_peer :: peer_ref
  rs_blankParents :: "string list option"

record state =
  st_heap :: heap
  st_wait :: "(rsPeer \<times> time) list"
  st_seeds :: "task_ref list"
  st_cdn :: bool

record PieceResult =
  pr_DstPid :: string
  pr_PieceInfo :: "PieceInfo option"
  pr_BeginTime :: uint64
  pr_EndTime :: uint64
  pr_Success :: bool
  pr_Code :: Code
  pr_FinishedCount :: int32

record PeerResult =
  res_ContentLength :: int64
  res_Success :: bool
  res_TotalPieceCount :: int32

datatype event =
  reScheduleParentEvent rsPeer
| startReportPieceResultEvent peer_ref
| peerDownloadPieceSuccessEvent peer_ref PieceResult
| peerDownloadPieceFailEvent peer_ref PieceResult
| taskSeedFailEvent task_ref
| peerDownloadSuccessEvent peer_ref "PeerResult option"
| peerDownloadFailEvent peer_ref PeerResult
| peerLeaveEvent peer_ref

text \<open>What a handler reads of its environment: the scheduler's evaluator and limit, and the clock.\<close>

record env =
  e_evaluator :: Evaluator
  e_CandidateParentCount :: int
  e_now :: time

definition Second :: time where
  "Second = 1000000000"

definition Millisecond :: time where
  "Millisecond = 1000000"

definition on_heap :: "(heap \<Rightarrow> heap) \<Rightarrow> state \<Rightarrow> state" where
  "on_heap f s = s\<lparr>st_heap := f (st_heap s)\<rparr>"

definition AddAfter :: "rsPeer \<Rightarrow> time \<Rightarrow> state \<Rightarrow> state" where
  "AddAfter r d s = s\<lparr>st_wait := st_wait s @ [(r, d)]\<rparr>"

definition sched_parent ::
  "env \<Rightarrow> peer_ref \<Rightarrow> string list option \<Rightarrow> state \<Rightarrow> ((peer_ref \<times> peer_ref list) option \<times> state) outcome" where
  "sched_parent e peer blank s =
     obind (ScheduleParent (e_evaluator e) (e_CandidateParentCount e) peer blank (st_heap s))
       (\<lambda>(r, h). Ret (r, s\<lparr>st_heap := h\<rparr>))"

definition sched_children ::
  "env \<Rightarrow> peer_ref \<Rightarrow> string list option \<Rightarrow> state \<Rightarrow> (peer_ref list \<times> state) outcome" where
  "sched_children e peer blank s =
     obind (ScheduleChildren (e_evaluator e) peer blank (st_heap s)) (\<lambda>(cs, h). Ret (cs, s\<lparr>st_heap := h\<rparr>))"

section \<open>Shared helpers\<close>

definition dest_peer :: "heap \<Rightarrow> peer_ref \<Rightarrow> DestPeer" where
  "dest_peer h p =
     \<lparr>dp_Ip = h_IP (peerHost h p), dp_RpcPort = h_RPCPort (peerHost h p), dp_PeerId = p_ID (peer_at h p)\<rparr>"

definition constructSuccessPeerPacket :: "heap \<Rightarrow> peer_ref \<Rightarrow> peer_ref \<Rightarrow> peer_ref list \<Rightarrow> PeerPacket" where
  "constructSuccessPeerPacket h peer parent candidates =
     \<lparr>pp_TaskId = t_ID (peerTask h peer), pp_SrcPid = p_ID (peer_at h peer), pp_ParallelCount = 1,
      pp_MainPeer = dest_peer h parent, pp_StealPeers = map (dest_peer h) candidates,
      pp_Code = Code_Success\<rparr>"

definition sendErrorHandler :: "send_error \<Rightarrow> peer_ref \<Rightarrow> state \<Rightarrow> state" where
  "sendErrorHandler err p s =
     (if err = ErrChannelBusy
      then AddAfter \<lparr>rs_times = 0, rs_peer = p, rs_blankParents = None\<rparr> (10 * Millisecond) s
      else s)"

text \<open>\<open>SendSchedulePacket\<close> of a success packet followed by \<open>sendErrorHandler\<close>.\<close>

definition send_packet :: "peer_ref \<Rightarrow> peer_ref \<Rightarrow> peer_ref list \<Rightarrow> state \<Rightarrow> state" where
  "send_packet peer parent candidates s =
     (case SendSchedulePacket peer (constructSuccessPeerPacket (st_heap s) peer parent candidates) (st_heap s) of
        (None, h) \<Rightarrow> s\<lparr>st_heap := h\<rparr>
      | (Some err, h) \<Rightarrow> sendErrorHandler err peer (s\<lparr>st_heap := h\<rparr>))"

text \<open>Close the channel with a back-source error; on success, record the peer in its task.\<close>

definition back_source :: "peer_ref \<Rightarrow> task_ref \<Rightarrow> string \<Rightarrow> heap \<Rightarrow> heap" where
  "back_source peer task msg h =
     (case CloseChannelWithError peer (DfError Code_SchedNeedBackSource msg) h of
        (None, h') \<Rightarrow> upd_task task (AddBackToSourcePeer (p_ID (peer_at h' peer))) h'
      | (Some _, h') \<Rightarrow> h')"

definition removePeerFromCurrentTree :: "env \<Rightarrow> peer_ref \<Rightarrow> state \<Rightarrow> state outcome" where
  "removePeerFromCurrentTree e peer s =
     (let parent = GetParent (st_heap s) peer;
          s1 = on_heap (ReplaceParent peer None) s
      in case parent of
           None \<Rightarrow> Ret s1
         | Some q \<Rightarrow>
             obind (sched_children e q (Some [p_ID (peer_at (st_heap s1) peer)]) s1) (\<lambda>(cs, s2).
               Ret (fold (\<lambda>child. send_packet child peer []) cs s2)))"

definition seed_fail_visit :: "task_ref \<Rightarrow> peer_ref \<Rightarrow> heap \<Rightarrow> heap \<times> bool" where
  "seed_fail_visit task peer h =
     (if CanBackToSource (task_at h task)
      then (if \<not> ContainsBackToSourcePeer (p_ID (peer_at h peer)) (task_at h task)
            then back_source peer task
                   (''peer '' @ p_ID (peer_at h peer) @ '' need back source because cdn seed task failed'') h
            else h, True)
      else (h, False))"

definition handleCDNSeedTaskFail :: "task_ref \<Rightarrow> heap \<Rightarrow> heap" where
  "handleCDNSeedTaskFail task h =
     (let peers = ul_container (t_peers (task_at h task))
      in if CanBackToSource (task_at h task) then range_loop (seed_fail_visit task) peers h
         else range_loop (\<lambda>peer g. (snd (CloseChannelWithError peer
                  (DfError Code_SchedTaskStatusError ''schedule task status failed'') g), True))
                peers (Task_SetStatus task TaskStatusFail h))"

section \<open>Handlers\<close>

definition need_back_source :: "heap \<Rightarrow> peer_ref \<Rightarrow> bool" where
  "need_back_source h peer \<longleftrightarrow> CanBackToSource (peerTask h peer)
     \<and> \<not> ContainsBackToSourcePeer (p_ID (peer_at h peer)) (peerTask h peer)"

definition need_back_source_msg :: "heap \<Rightarrow> peer_ref \<Rightarrow> string" where
  "need_back_source_msg h peer = ''peer '' @ p_ID (peer_at h peer) @ '' need back source''"

definition apply_reScheduleParent :: "env \<Rightarrow> rsPeer \<Rightarrow> state \<Rightarrow> state outcome" where
  "apply_reScheduleParent e rs0 s =
     (let rs = rs0\<lparr>rs_times := rs_times rs0 + 1\<rparr>; peer = rs_peer rs; h = st_heap s
      in if Task_IsFail (peerTask h peer)
         then Ret (on_heap (\<lambda>h. snd (CloseChannelWithError peer
                (DfError Code_SchedTaskStatusError ''schedule task status failed'') h)) s)
         else if (case GetParent h peer of
                    Some oldParent \<Rightarrow> \<not> blank_Has (rs_blankParents rs) (p_ID (peer_at h oldParent))
                  | None \<Rightarrow> False)
         then Ret s
         else obind (sched_parent e peer (rs_blankParents rs) s) (\<lambda>(r, s1).
           case r of
             None \<Rightarrow>
               if need_back_source (st_heap s1) peer
               then Ret (on_heap (\<lambda>h. back_source peer (p_Task (peer_at h peer)) (need_back_source_msg h peer) h) s1)
               else Ret (AddAfter rs Second s1)
           | Some (parent, candidates) \<Rightarrow> Ret (send_packet peer parent candidates s1)))"

definition apply_startReportPieceResult :: "env \<Rightarrow> peer_ref \<Rightarrow> state \<Rightarrow> state outcome" where
  "apply_startReportPieceResult e peer s =
     (let h = st_heap s
      in case GetParent h peer of
           Some parent \<Rightarrow> Ret (send_packet peer parent [] s)
         | None \<Rightarrow>
             if ContainsBackToSourcePeer (p_ID (peer_at h peer)) (peerTask h peer) then Ret s
             else obind (sched_parent e peer (Some []) s) (\<lambda>(r, s1).
               case r of
                 None \<Rightarrow>
                   if need_back_source (st_heap s1) peer
                   then Ret (on_heap (\<lambda>h. back_source peer (p_Task (peer_at h peer)) (need_back_source_msg h peer) h) s1)
                   else Ret (AddAfter \<lparr>rs_times = 0, rs_peer = peer, rs_blankParents = None\<rparr> Second s1)
               | Some (parent, candidates) \<Rightarrow> Ret (send_packet peer parent candidates s1)))"

text \<open>The back-source branch of a piece report; \<open>GetOrAddPiece\<close> dereferences the piece.\<close>

definition seed_piece :: "peer_ref \<Rightarrow> PieceResult \<Rightarrow> state \<Rightarrow> state outcome" where
  "seed_piece peer pr s =
     (case pr_PieceInfo pr of
        None \<Rightarrow> Panic ''nil pointer dereference''
      | Some piece \<Rightarrow>
          (let task = p_Task (peer_at (st_heap s) peer);
               s1 = on_heap (upd_task task (\<lambda>t. snd (GetOrAddPiece piece t))) s
           in Ret (if \<not> CanSchedule (task_at (st_heap s1) task)
                   then on_heap (Task_SetStatus task TaskStatusSeeding) s1 else s1)))"

text \<open>
  A piece report in three parts: find the peer the piece came from, or a new parent when that
  peer has left; make it the parent; tell the reporting peer when the parent is a new one.
\<close>

definition piece_source ::
  "env \<Rightarrow> peer_ref \<Rightarrow> peer_ref \<Rightarrow> state \<Rightarrow> (peer_ref \<times> peer_ref list \<times> state) outcome" where
  "piece_source e peer dst s =
     (if IsLeave (st_heap s) dst
      then obind (sched_parent e peer (Some [p_ID (peer_at (st_heap s) dst)]) (on_heap (ReplaceParent peer None) s))
             (\<lambda>(r, s2). case r of
                None \<Rightarrow> Panic ''nil pointer dereference''
              | Some (parent, candidates) \<Rightarrow> Ret (parent, candidates, s2))
      else Ret (dst, [], s))"

definition piece_replaces :: "heap \<Rightarrow> peer_ref \<Rightarrow> PieceResult \<Rightarrow> bool" where
  "piece_replaces h peer pr \<longleftrightarrow> pr_DstPid pr \<noteq> p_ID (peer_at h peer)
     \<and> (case GetParent h peer of
          None \<Rightarrow> True
        | Some oldParent \<Rightarrow> p_ID (peer_at h oldParent) \<noteq> pr_DstPid pr)"

definition piece_finish :: "env \<Rightarrow> peer_ref \<Rightarrow> PieceResult \<Rightarrow> peer_ref \<Rightarrow> peer_ref list \<Rightarrow> state \<Rightarrow> state" where
  "piece_finish e peer pr parentPeer candidates s =
     (let s1 = (if piece_replaces (st_heap s) peer pr
                then on_heap (ReplaceParent peer (Some parentPeer)) s else s);
          s2 = on_heap (Touch parentPeer (e_now e)) s1
      in if p_ID (peer_at (st_heap s2) parentPeer) = pr_DstPid pr then s2
         else send_packet peer parentPeer candidates s2)"

definition apply_peerDownloadPieceSuccess :: "env \<Rightarrow> peer_ref \<Rightarrow> PieceResult \<Rightarrow> state \<Rightarrow> state outcome" where
  "apply_peerDownloadPieceSuccess e peer pr s0 =
     (let s = on_heap (UpdateProgress peer (pr_FinishedCount pr) (sint (pr_EndTime pr - pr_BeginTime pr))) s0;
          h = st_heap s
      in if ContainsBackToSourcePeer (p_ID (peer_at h peer)) (peerTask h peer) then seed_piece peer pr s
         else case peerManager_Get (pr_DstPid pr) h of
                None \<Rightarrow> Ret s
              | Some dst \<Rightarrow> obind (piece_source e peer dst s) (\<lambda>(parentPeer, candidates, s3).
                              Ret (piece_finish e peer pr parentPeer candidates s3)))"

text \<open>
  \<open>go s.cdn.StartSeedTask(...)\<close>: calling a method of a nil interface panics, and a panic of
  the new goroutine ends the process.
\<close>

definition start_seed :: "task_ref \<Rightarrow> state \<Rightarrow> state outcome" where
  "start_seed task s =
     (if st_cdn s then Ret (s\<lparr>st_seeds := st_seeds s @ [task]\<rparr>) else Panic ''nil pointer dereference'')"

definition apply_peerDownloadPieceFail :: "peer_ref \<Rightarrow> PieceResult \<Rightarrow> state \<Rightarrow> state outcome" where
  "apply_peerDownloadPieceFail peer pr s =
     (let h = st_heap s;
          rs = \<lparr>rs_times = 0, rs_peer = peer, rs_blankParents = Some [pr_DstPid pr]\<rparr>
      in if ContainsBackToSourcePeer (p_ID (peer_at h peer)) (peerTask h peer) then Ret s
         else if pr_Code pr = Code_ClientWaitPieceReady then Ret s
         else if pr_Code pr = Code_PeerTaskNotFound
         then Ret (AddAfter rs 0 (on_heap (peerManager_Delete (pr_DstPid pr)) s))
         else if pr_Code pr \<in> {Code_CDNTaskNotFound, Code_CDNError, Code_CDNTaskDownloadFail}
         then obind (start_seed (p_Task (peer_at h peer)) (on_heap (peerManager_Delete (pr_DstPid pr)) s))
                (\<lambda>s1. Ret (AddAfter rs 0 s1))
         else Ret (AddAfter rs 0 s))"

definition apply_taskSeedFail :: "task_ref \<Rightarrow> state \<Rightarrow> state outcome" where
  "apply_taskSeedFail task s = Ret (on_heap (handleCDNSeedTaskFail task) s)"

definition apply_peerDownloadSuccess :: "env \<Rightarrow> peer_ref \<Rightarrow> PeerResult option \<Rightarrow> state \<Rightarrow> state outcome" where
  "apply_peerDownloadSuccess e peer peerResult s0 =
     (let s = on_heap (SetStatus peer PeerStatusSuccess) s0; h = st_heap s
      in obind (if ContainsBackToSourcePeer (p_ID (peer_at h peer)) (peerTask h peer) \<and> \<not> Task_IsSuccess (peerTask h peer)
                then (case peerResult of
                        None \<Rightarrow> Panic ''nil pointer dereference''
                      | Some res \<Rightarrow> Ret (on_heap (upd_task (p_Task (peer_at h peer))
                          (UpdateSuccess (res_TotalPieceCount res) (res_ContentLength res))) s))
                else Ret s) (\<lambda>s1.
         obind (removePeerFromCurrentTree e peer s1) (\<lambda>s2.
         obind (sched_children e peer (Some []) s2) (\<lambda>(cs, s3).
           Ret (fold (\<lambda>child. send_packet child peer []) cs s3)))))"

text \<open>One child of a failed or leaving peer; \<open>retry\<close> is the peer put on the queue.\<close>

definition move_child :: "env \<Rightarrow> peer_ref \<Rightarrow> peer_ref \<Rightarrow> peer_ref \<Rightarrow> state \<Rightarrow> state outcome" where
  "move_child e peer retry child s =
     (let blank = Some [p_ID (peer_at (st_heap s) peer)]
      in obind (sched_parent e child blank s) (\<lambda>(r, s1).
           case r of
             None \<Rightarrow> Ret (AddAfter \<lparr>rs_times = 0, rs_peer = retry, rs_blankParents = blank\<rparr> Second s1)
           | Some (parent, candidates) \<Rightarrow> Ret (send_packet child parent candidates s1)))"

definition apply_peerDownloadFail :: "env \<Rightarrow> peer_ref \<Rightarrow> PeerResult \<Rightarrow> state \<Rightarrow> state outcome" where
  "apply_peerDownloadFail e peer peerResult s0 =
     (let s = on_heap (SetStatus peer PeerStatusFail) s0; h = st_heap s; task = p_Task (peer_at h peer)
      in if ContainsBackToSourcePeer (p_ID (peer_at h peer)) (task_at h task) \<and> \<not> Task_IsSuccess (task_at h task)
         then Ret (on_heap (\<lambda>h. handleCDNSeedTaskFail task (Task_SetStatus task TaskStatusFail h)) s)
         else obind (removePeerFromCurrentTree e peer s) (\<lambda>s1.
                ofold (move_child e peer peer) (map snd (p_children (peer_at (st_heap s1) peer))) s1))"

definition apply_peerLeave :: "env \<Rightarrow> peer_ref \<Rightarrow> state \<Rightarrow> state outcome" where
  "apply_peerLeave e peer s0 =
     (let s = on_heap (Leave peer) s0
      in obind (removePeerFromCurrentTree e peer s) (\<lambda>s1.
         obind (ofold (\<lambda>child. move_child e peer child child)
                 (map snd (p_children (peer_at (st_heap s1) peer))) s1) (\<lambda>s2.
           Ret (on_heap (peerManager_Delete (p_ID (peer_at (st_heap s2) peer))) s2))))"

fun apply_event :: "env \<Rightarrow> event \<Rightarrow> state \<Rightarrow> state outcome" where
  "apply_event e (reScheduleParentEvent rs) s = apply_reScheduleParent e rs s"
| "apply_event e (startReportPieceResultEvent p) s = apply_startReportPieceResult e p s"
| "apply_event e (peerDownloadPieceSuccessEvent p pr) s = apply_peerDownloadPieceSuccess e p pr s"
| "apply_event e (peerDownloadPieceFailEvent p pr) s = apply_peerDownloadPieceFail p pr s"
| "apply_event e (taskSeedFailEvent t) s = apply_taskSeedFail t s"
| "apply_event e (peerDownloadSuccessEvent p res) s = apply_peerDownloadSuccess e p res s"
| "apply_event e (peerDownloadFailEvent p res) s = apply_peerDownloadFail e p res s"
| "apply_event e (peerLeaveEvent p) s = apply_peerLeave e p s"

fun hashKey :: "heap \<Rightarrow> event \<Rightarrow> string" where
  "hashKey h (reScheduleParentEvent rs) = t_ID (peerTask h (rs_peer rs))"
| "hashKey h (startReportPieceResultEvent p) = t_ID (peerTask h p)"
| "hashKey h (peerDownloadPieceSuccessEvent p pr) = t_ID (peerTask h p)"
| "hashKey h (peerDownloadPieceFailEvent p pr) = t_ID (peerTask h p)"
| "hashKey h (taskSeedFailEvent t) = t_ID (task_at h t)"
| "hashKey h (peerDownloadSuccessEvent p res) = t_ID (peerTask h p)"
| "hashKey h (peerDownloadFailEvent p res) = t_ID (peerTask h p)"
| "hashKey h (peerLeaveEvent p) = t_ID (peerTask h p)"

section \<open>The retry loop (\<open>runReScheduleParentLoop\<close>)\<close>

definition maxRescheduleTimes :: int where
  "maxRescheduleTimes = 8"

text \<open>One request taken from the queue: it is dropped, or turned into an event for a worker.\<close>

definition reschedule_one :: "rsPeer \<Rightarrow> heap \<Rightarrow> event option \<times> heap" where
  "reschedule_one rs h =
     (let peer = rs_peer rs
      in if sint (rs_times rs) > maxRescheduleTimes
         then (None, back_source peer (p_Task (peer_at h peer))
                 (''reschedule parent for peer '' @ p_ID (peer_at h peer) @ '' already reaches max reschedule times'') h)
         else if ContainsBackToSourcePeer (p_ID (peer_at h peer)) (peerTask h peer) then (None, h)
         else if IsDone h peer \<or> IsLeave h peer then (None, h)
         else (Some (reScheduleParentEvent rs), h))"

end
