(* ===== verification/Event_Invariants.thy ===== *)
theory Event_Invariants
  imports Events
begin

text \<open>
  The invariant of the scheduler's state (the peer tree is a forest whose links and loads agree,
  no host is overloaded, every reference is allocated) and its preservation by the handlers.
\<close>

section \<open>The invariant\<close>

definition refs_inv :: "heap \<Rightarrow> bool" where
  "refs_inv h \<longleftrightarrow> (\<forall>t. set (ul_container (t_peers (task_at h t))) \<subseteq> {..<next_peer h})
     \<and> (\<forall>k p. Load (peerManager h) k = Some p \<longrightarrow> p < next_peer h \<and> p_ID (peer_at h p) = k)"

definition hosts_inv :: "heap \<Rightarrow> bool" where
  "hosts_inv h \<longleftrightarrow> (\<forall>p < next_peer h. p_Host (peer_at h p) < next_host h)
     \<and> (\<forall>k r. Load (hostManager h) k = Some r \<longrightarrow> r < next_host h)"

definition sched_inv :: "heap \<Rightarrow> bool" where
  "sched_inv h \<longleftrightarrow> tree_inv h \<and> no_overload h \<and> refs_inv h \<and> hosts_inv h"

definition sched_view :: "heap \<Rightarrow> _" where
  "sched_view h = (tree_view h, (\<lambda>r. h_TotalUploadLoad (host_at h r)),
     (\<lambda>t. ul_container (t_peers (task_at h t))), peerManager h, next_host h, hostManager h)"

lemma sched_viewD:
  assumes "sched_view h = sched_view h'"
  shows "tree_view h = tree_view h'" "h_TotalUploadLoad (host_at h r) = h_TotalUploadLoad (host_at h' r)"
    "ul_container (t_peers (task_at h t)) = ul_container (t_peers (task_at h' t))"
    "peerManager h = peerManager h'" "next_host h = next_host h'" "hostManager h = hostManager h'"
  using assms by (auto simp: sched_view_def fun_eq_iff)

lemma upload_count_cong:
  assumes "tree_view h = tree_view h'"
  shows "upload_count h r = upload_count h' r"
  unfolding upload_count_def by (simp add: tree_viewD[OF assms] cong: if_cong)

lemma no_overload_cong:
  assumes "tree_view h = tree_view h'" "\<And>r. h_TotalUploadLoad (host_at h r) = h_TotalUploadLoad (host_at h' r)"
  shows "no_overload h = no_overload h'"
  unfolding no_overload_def by (simp add: upload_count_cong[OF assms(1)] assms(2))

lemma hosts_inv_cong:
  assumes "tree_view h = tree_view h'" "next_host h = next_host h'" "hostManager h = hostManager h'"
  shows "hosts_inv h = hosts_inv h'"
  unfolding hosts_inv_def by (simp add: tree_viewD[OF assms(1)] assms(2,3))

lemma sched_inv_cong:
  assumes "sched_view h = sched_view h'"
  shows "sched_inv h = sched_inv h'"
proof -
  note v = sched_viewD[OF assms]
  have "refs_inv h = refs_inv h'"
    unfolding refs_inv_def by (simp add: v(3,4) tree_viewD(1,2)[OF v(1)])
  with tree_inv_cong[OF v(1)] no_overload_cong[OF v(1,2)] hosts_inv_cong[OF v(1,5,6)]
  show ?thesis by (simp add: sched_inv_def)
qed

section \<open>Operations that do not touch the view\<close>

lemma sched_view_upd_task:
  "(\<And>t. t_peers (f t) = t_peers t) \<Longrightarrow> sched_view (upd_task r f h) = sched_view h"
  by (auto simp: sched_view_def fun_eq_iff)

lemma sched_view_SetStatus [simp, view_simps]: "sched_view (SetStatus p st h) = sched_view h"
  by (simp add: sched_view_def) (simp add: SetStatus_def)

lemma sched_view_Leave [simp, view_simps]: "sched_view (Leave p h) = sched_view h"
  by (simp add: sched_view_def) (simp add: Leave_def)

lemma sched_view_Task_SetStatus [simp, view_simps]: "sched_view (Task_SetStatus t st h) = sched_view h"
  by (simp add: Task_SetStatus_def sched_view_upd_task)

lemma sched_view_Task_Touch [simp, view_simps]: "sched_view (Task_Touch t now h) = sched_view h"
  by (simp add: Task_Touch_def sched_view_upd_task)

lemma sched_view_upd_peer:
  "tree_view (upd_peer p f h) = tree_view h \<Longrightarrow> sched_view (upd_peer p f h) = sched_view h"
  by (simp add: sched_view_def)

lemma sched_view_Touch [simp, view_simps]: "sched_view (Touch p now h) = sched_view h"
  by (simp add: Touch_def Let_def) (simp add: sched_view_upd_peer view_upd_peer)

lemma sched_view_CloseChannel [simp, view_simps]:
  "sched_view (snd (CloseChannelWithError p err h)) = sched_view h"
  by (simp add: sched_view_def) (simp add: CloseChannelWithError_def split: option.split)

lemma sched_view_Send [simp, view_simps]:
  "sched_view (snd (SendSchedulePacket p pk h)) = sched_view h"
  by (simp add: sched_view_def) (simp add: SendSchedulePacket_def split: option.split prod.split)

lemma t_peers_ops [simp]:
  "t_peers (AddBackToSourcePeer k t) = t_peers t" "t_peers (UpdateSuccess n c t) = t_peers t"
  "t_peers (snd (GetOrAddPiece piece t)) = t_peers t"
  by (simp_all add: AddBackToSourcePeer_def UpdateSuccess_def GetOrAddPiece_def split: prod.split)

lemma sched_view_back_source [simp, view_simps]: "sched_view (back_source p t msg h) = sched_view h"
proof -
  obtain r g where g: "CloseChannelWithError p (DfError Code_SchedNeedBackSource msg) h = (r, g)" by fastforce
  then have "sched_view g = sched_view h"
    using sched_view_CloseChannel[of p "DfError Code_SchedNeedBackSource msg" h] by simp
  with g show ?thesis by (simp add: back_source_def sched_view_upd_task split: option.split)
qed

lemma sched_view_range_loop:
  assumes "\<And>x g. sched_view (fst (f x g)) = sched_view g"
  shows "sched_view (range_loop f xs h) = sched_view h"
proof (induction xs arbitrary: h)
  case (Cons x xs)
  obtain g b where fx: "f x h = (g, b)" by fastforce
  have "sched_view g = sched_view h" using assms[of x h] fx by simp
  with Cons show ?case by (simp add: fx)
qed simp

lemma sched_view_seed_fail [simp, view_simps]: "sched_view (handleCDNSeedTaskFail t h) = sched_view h"
  by (simp add: handleCDNSeedTaskFail_def Let_def sched_view_range_loop seed_fail_visit_def)

lemma sched_inv_ops [simp]:
  "sched_inv (SetStatus p st h) = sched_inv h" "sched_inv (Leave p h) = sched_inv h"
  "sched_inv (Task_SetStatus t ts h) = sched_inv h" "sched_inv (Touch p now h) = sched_inv h"
  "sched_inv (back_source p t msg h) = sched_inv h" "sched_inv (handleCDNSeedTaskFail t h) = sched_inv h"
  "sched_inv (snd (CloseChannelWithError p err h)) = sched_inv h"
  "sched_inv (snd (SendSchedulePacket p pk h)) = sched_inv h"
  by (rule sched_inv_cong, simp)+

lemma sched_inv_upd_task: "(\<And>t. t_peers (f t) = t_peers t) \<Longrightarrow> sched_inv (upd_task r f h) = sched_inv h"
  by (rule sched_inv_cong) (simp add: sched_view_upd_task)

lemma next_peer_view: "sched_view h = sched_view h' \<Longrightarrow> next_peer h = next_peer h'"
  by (simp add: sched_view_def tree_view_def)

lemma next_peer_ops [simp]:
  "next_peer (SetStatus p st h) = next_peer h" "next_peer (Leave p h) = next_peer h"
  "next_peer (Touch p now h) = next_peer h"
  "next_peer (back_source p t msg h) = next_peer h" "next_peer (handleCDNSeedTaskFail t h) = next_peer h"
  "next_peer (snd (CloseChannelWithError p err h)) = next_peer h"
  "next_peer (snd (SendSchedulePacket p pk h)) = next_peer h"
  by (rule next_peer_view, simp)+

section \<open>Operations on the task lists\<close>

lemma ul_Insert_subset: "set (ul_container (ul_Insert val x ul)) \<subseteq> insert x (set (ul_container ul))"
  by (auto simp: ul_Insert_def dest: notin_set_remove1)

lemma task_lists_Task_UpdatePeer:
  "set (ul_container (t_peers (task_at (Task_UpdatePeer t p h) r))) \<subseteq> insert p (set (ul_container (t_peers (task_at h r))))"
  using ul_Insert_subset[of "SortedValue h" p "t_peers (task_at h t)"] by (auto simp: Task_UpdatePeer_def)

lemma task_lists_ReplaceParent:
  "set (ul_container (t_peers (task_at (ReplaceParent c q h) r)))
     \<subseteq> set_option (GetParent h c) \<union> set_option q \<union> set (ul_container (t_peers (task_at h r)))"
proof -
  have d: "set (ul_container (t_peers (task_at (deleteChild x c g) r))) \<subseteq> insert x (set (ul_container (t_peers (task_at g r))))"
    and i: "set (ul_container (t_peers (task_at (insertChild x c g) r))) \<subseteq> insert x (set (ul_container (t_peers (task_at g r))))"
    for x g
    using task_lists_Task_UpdatePeer[of "p_Task (peer_at g x)" x _ r]
    by (fastforce simp: insertChild_def deleteChild_def Let_def)+
  have s: "task_at (SetParent c q' g) = task_at g" for q' g by (simp add: SetParent_def)
  define g where "g = (case GetParent h c of Some p \<Rightarrow> deleteChild p c h | None \<Rightarrow> h)"
  have 1: "set (ul_container (t_peers (task_at g r)))
      \<subseteq> set_option (GetParent h c) \<union> set (ul_container (t_peers (task_at h r)))"
    using d[of _ h] by (cases "GetParent h c") (auto simp: g_def)
  have eq: "ReplaceParent c q h = (case q of Some x \<Rightarrow> insertChild x c (SetParent c q g) | None \<Rightarrow> SetParent c q g)"
    unfolding ReplaceParent_def Let_def g_def ..
  have "set (ul_container (t_peers (task_at (ReplaceParent c q h) r)))
      \<subseteq> set_option q \<union> set (ul_container (t_peers (task_at g r)))"
    unfolding eq using i[of _ "SetParent c q g"] by (cases q) (auto simp: s)
  with 1 show ?thesis by blast
qed

lemma host_tables_ops [simp, frame_simps]:
  "next_host (ReplaceParent c q h) = next_host h" "hostManager (ReplaceParent c q h) = hostManager h"
  "next_host (UpdateProgress p n cost h) = next_host h" "hostManager (UpdateProgress p n cost h) = hostManager h"
  "next_host (peerManager_Delete k h) = next_host h" "hostManager (peerManager_Delete k h) = hostManager h"
  by (simp_all add: ReplaceParent_def insertChild_def deleteChild_def SetParent_def Task_UpdatePeer_def
      UpdateProgress_def SetPieceCosts_def peerManager_Delete_def Host_DeletePeer_def Task_DeletePeer_def Let_def
      split: option.split)

lemma hosts_inv_ReplaceParent [simp]: "hosts_inv (ReplaceParent c q h) = hosts_inv h"
  by (simp add: hosts_inv_def)

lemma hosts_inv_attach_all [simp]: "hosts_inv (fold (\<lambda>c. ReplaceParent c q) cs h) = hosts_inv h"
  by (induction cs arbitrary: h) simp_all

lemma refs_inv_ReplaceParent:
  assumes "refs_inv h" "wf_refs h" "c < next_peer h" "\<And>r. q = Some r \<Longrightarrow> r < next_peer h"
  shows "refs_inv (ReplaceParent c q h)"
proof -
  have "set_option (GetParent h c) \<subseteq> {..<next_peer h}" "set_option q \<subseteq> {..<next_peer h}"
    using assms by (auto simp: wf_refs_def)
  then show ?thesis
    using assms(1) task_lists_ReplaceParent[of c q h] unfolding refs_inv_def by fastforce
qed

lemma sched_inv_detach:
  assumes "sched_inv h" "c < next_peer h"
  shows "sched_inv (ReplaceParent c None h)"
proof -
  have "no_overload (ReplaceParent c None h)"
    using assms(1) upload_count_detach[of c h] by (fastforce simp: sched_inv_def no_overload_def intro: order_trans)
  moreover have "refs_inv (ReplaceParent c None h)"
    using assms by (intro refs_inv_ReplaceParent) (simp_all add: sched_inv_def tree_inv_def)
  ultimately show ?thesis using assms tree_inv_detach by (simp add: sched_inv_def)
qed

lemma sched_inv_UpdateProgress:
  assumes "sched_inv h" "p < next_peer h"
  shows "sched_inv (UpdateProgress p n cost h)"
proof -
  let ?g = "UpdateProgress p n cost h"
  have v: "tree_view ?g = tree_view h" by simp
  have "h_TotalUploadLoad (host_at ?g r) = h_TotalUploadLoad (host_at h r)" for r
    by (simp add: UpdateProgress_def Let_def SetPieceCosts_def)
  then have "no_overload ?g = no_overload h" using no_overload_cong[OF v] by blast
  moreover have "refs_inv ?g"
  proof -
    have "set (ul_container (t_peers (task_at ?g r))) \<subseteq> insert p (set (ul_container (t_peers (task_at h r))))" for r
      using task_lists_Task_UpdatePeer[of "p_Task (peer_at h p)" p
          "SetPieceCosts p [cost] (upd_peer p (\<lambda>p. p\<lparr>p_TotalPieceCount := n\<rparr>) h)" r]
      by (auto simp: UpdateProgress_def Let_def SetPieceCosts_def)
    moreover have "peerManager ?g = peerManager h"
      by (simp add: UpdateProgress_def Let_def SetPieceCosts_def)
    ultimately show ?thesis
      using assms unfolding refs_inv_def sched_inv_def by (fastforce simp: tree_viewD[OF v])
  qed
  moreover have "hosts_inv ?g = hosts_inv h" by (rule hosts_inv_cong[OF v]) simp_all
  ultimately show ?thesis using assms tree_inv_cong[OF v] by (simp add: sched_inv_def)
qed

section \<open>Scheduling keeps the invariant\<close>

lemma refs_inv_task_list:
  "refs_inv h \<Longrightarrow> c \<in> set (task_list h peer) \<Longrightarrow> c < next_peer h"
  by (auto simp: refs_inv_def task_list_def peerTask_def)

lemma refs_inv_attach_all:
  assumes "tree_inv h" "refs_inv h" "q < next_peer h"
    and "\<And>c. c \<in> set cs \<Longrightarrow> c < next_peer h \<and> (q, c) \<notin> (parent_rel h)\<^sup>*"
  shows "refs_inv (fold (\<lambda>c. ReplaceParent c (Some q)) cs h)"
  using assms
proof (induction cs arbitrary: h)
  case (Cons c cs)
  have c: "c < next_peer h" "(q, c) \<notin> (parent_rel h)\<^sup>*" using Cons.prems(4)[of c] by simp_all
  have t: "tree_inv (ReplaceParent c (Some q) h)" using Cons.prems(1,3) c by (intro tree_inv_attach)
  have r: "refs_inv (ReplaceParent c (Some q) h)"
    using Cons.prems c by (intro refs_inv_ReplaceParent) (auto simp: tree_inv_def)
  have "d < next_peer (ReplaceParent c (Some q) h)
      \<and> (q, d) \<notin> (parent_rel (ReplaceParent c (Some q) h))\<^sup>*" if "d \<in> set cs" for d
    using Cons.prems(4)[of d] that by (simp add: parent_rel_other_root[OF c])
  from Cons.IH[OF t r _ this] Cons.prems(3) show ?case by simp
qed simp

lemma next_peer_attach_all [simp]:
  "next_peer (fold (\<lambda>c. ReplaceParent c q) cs h) = next_peer h"
  by (induction cs arbitrary: h) simp_all

context evaluator
begin

lemma ScheduleParent_inv:
  assumes "ScheduleParent ev n peer blank h = Ret (r, h')" "sched_inv h" "peer < next_peer h"
  shows "sched_inv h'" "next_peer h' = next_peer h"
    and "\<And>p ps q. r = Some (p, ps) \<Longrightarrow> q \<in> set (p # ps) \<Longrightarrow> q < next_peer h"
proof -
  have inv: "tree_inv h" "no_overload h" "refs_inv h" using assms(2) by (simp_all add: sched_inv_def)
  note tl = refs_inv_task_list[OF inv(3)]
  show r: "q < next_peer h" if "r = Some (p, ps)" "q \<in> set (p # ps)" for p ps q
    using ScheduleParent_eligible(2)[OF assms(1)[unfolded that(1)] that(2)] tl by blast
  have h': "h' = (case r of None \<Rightarrow> h | Some (primary, _) \<Rightarrow> with_parent peer primary h)"
    by (rule ScheduleParent_heap[OF assms(1)])
  then show "next_peer h' = next_peer h" by (auto simp: with_parent_def split: option.split)
  have "refs_inv h'"
  proof (cases r)
    case None
    with h' inv show ?thesis by simp
  next
    case (Some pr)
    then obtain p ps where pr: "r = Some (p, ps)" by (cases pr) simp
    have "refs_inv (ReplaceParent peer (Some p) h)"
      using inv assms(3) r[OF pr, of p] by (intro refs_inv_ReplaceParent) (auto simp: tree_inv_def)
    with h' pr inv show ?thesis by (auto simp: with_parent_def split: option.split)
  qed
  moreover have "hosts_inv h'"
    using assms(2) h' by (auto simp: sched_inv_def with_parent_def split: option.split)
  ultimately show "sched_inv h'"
    using ScheduleParent_keeps[OF assms(1) inv(1) assms(3)] tl inv(2) unfolding sched_inv_def by blast
qed

lemma ScheduleChildren_inv:
  assumes "ScheduleChildren ev peer blank h = Ret (cs, h')" "sched_inv h" "peer < next_peer h"
  shows "sched_inv h'" "next_peer h' = next_peer h" and "\<And>c. c \<in> set cs \<Longrightarrow> c < next_peer h"
proof -
  have inv: "tree_inv h" "no_overload h" "refs_inv h" using assms(2) by (simp_all add: sched_inv_def)
  note tl = refs_inv_task_list[OF inv(3)]
  note sc = ScheduleChildren_cases[OF assms(1)]
  show c: "c < next_peer h" if "c \<in> set cs" for c using sc(2)[OF that] tl by blast
  show "next_peer h' = next_peer h" by (simp add: sc(1))
  have "refs_inv h'"
    unfolding sc(1)
  proof (rule refs_inv_attach_all[OF inv(1,3) assms(3)])
    fix d assume d: "d \<in> set cs"
    then have "IsDescendant h peer d = Some False" "peer \<noteq> d"
      using sc(2)[OF d] by (auto simp: child_ok_def IsAncestor_def IsDescendant_def)
    with c[OF d] show "d < next_peer h \<and> (peer, d) \<notin> (parent_rel h)\<^sup>*"
      using IsDescendant_rtrancl[OF inv(1) assms(3)] by blast
  qed
  moreover have "hosts_inv h'" using assms(2) by (simp add: sc(1) sched_inv_def)
  ultimately show "sched_inv h'"
    using ScheduleChildren_keeps[OF assms(1) inv(1) assms(3)] tl inv(2) unfolding sched_inv_def by blast
qed

end

section \<open>Handlers keep the invariant\<close>

definition st_ok :: "nat \<Rightarrow> state \<Rightarrow> bool" where
  "st_ok n s \<longleftrightarrow> sched_inv (st_heap s) \<and> next_peer (st_heap s) = n"

lemma st_ok_AddAfter [simp]: "st_ok n (AddAfter r d s) = st_ok n s"
  by (simp add: st_ok_def AddAfter_def)

lemma st_ok_seeds [simp]: "st_ok n (s\<lparr>st_seeds := x\<rparr>) = st_ok n s"
  by (simp add: st_ok_def)

lemma st_ok_on_heap: "st_ok n (on_heap f s) \<longleftrightarrow> sched_inv (f (st_heap s)) \<and> next_peer (f (st_heap s)) = n"
  by (simp add: st_ok_def on_heap_def)

lemma st_ok_sendErrorHandler [simp]: "st_ok n (sendErrorHandler e p s) = st_ok n s"
  by (simp add: sendErrorHandler_def)

lemma st_ok_send_packet [simp]: "st_ok n (send_packet p q cs s) = st_ok n s"
proof -
  let ?pk = "constructSuccessPeerPacket (st_heap s) p q cs"
  obtain r h where h: "SendSchedulePacket p ?pk (st_heap s) = (r, h)" by fastforce
  then have "sched_inv h = sched_inv (st_heap s)" "next_peer h = next_peer (st_heap s)"
    using sched_inv_ops(8)[of p ?pk "st_heap s"] next_peer_ops(7)[of p ?pk "st_heap s"] by simp_all
  then have "st_ok n (s\<lparr>st_heap := h\<rparr>) = st_ok n s" by (simp add: st_ok_def)
  with h show ?thesis by (simp add: send_packet_def split: option.split)
qed

lemma st_ok_send_all [simp]: "st_ok n (fold (\<lambda>c. send_packet c p []) cs s) = st_ok n s"
  by (induction cs arbitrary: s) simp_all

lemma sched_parent_ok:
  assumes "evaluator (e_evaluator e)" "sched_parent e peer blank s = Ret (r, s')" "st_ok n s" "peer < n"
  shows "st_ok n s'" and "\<And>p ps. r = Some (p, ps) \<Longrightarrow> p < n"
proof -
  obtain h' where h': "ScheduleParent (e_evaluator e) (e_CandidateParentCount e) peer blank (st_heap s) = Ret (r, h')"
    "s' = s\<lparr>st_heap := h'\<rparr>"
    using assms(2) by (auto simp: sched_parent_def)
  have "sched_inv (st_heap s)" "peer < next_peer (st_heap s)" using assms(3,4) by (simp_all add: st_ok_def)
  note si = evaluator.ScheduleParent_inv[OF assms(1) h'(1) this]
  show "st_ok n s'" using si(1,2) h'(2) assms(3) by (simp add: st_ok_def)
  show "p < n" if "r = Some (p, ps)" for p ps using si(3)[OF that, of p] assms(3) by (simp add: st_ok_def)
qed

lemma sched_children_ok:
  assumes "evaluator (e_evaluator e)" "sched_children e peer blank s = Ret (cs, s')" "st_ok n s" "peer < n"
  shows "st_ok n s'"
proof -
  obtain h' where h': "ScheduleChildren (e_evaluator e) peer blank (st_heap s) = Ret (cs, h')"
    "s' = s\<lparr>st_heap := h'\<rparr>"
    using assms(2) by (auto simp: sched_children_def)
  have "sched_inv (st_heap s)" "peer < next_peer (st_heap s)" using assms(3,4) by (simp_all add: st_ok_def)
  from evaluator.ScheduleChildren_inv[OF assms(1) h'(1) this] h'(2) assms(3) show ?thesis
    by (simp add: st_ok_def)
qed

lemma st_ok_detach: "st_ok n s \<Longrightarrow> peer < n \<Longrightarrow> st_ok n (on_heap (ReplaceParent peer None) s)"
  by (simp add: st_ok_on_heap) (simp add: st_ok_def sched_inv_detach)

lemma removePeerFromCurrentTree_ok:
  assumes "evaluator (e_evaluator e)" "removePeerFromCurrentTree e peer s = Ret s'" "st_ok n s" "peer < n"
  shows "st_ok n s'"
proof (cases "GetParent (st_heap s) peer")
  case None
  then have "s' = on_heap (ReplaceParent peer None) s"
    using assms(2) by (simp add: removePeerFromCurrentTree_def)
  with st_ok_detach[OF assms(3,4)] show ?thesis by simp
next
  case (Some q)
  have q: "q < n"
    using Some assms(3,4) by (auto simp: st_ok_def sched_inv_def tree_inv_def wf_refs_def)
  obtain cs s2 where "sched_children e q (Some [p_ID (peer_at (st_heap (on_heap (ReplaceParent peer None) s)) peer)])
      (on_heap (ReplaceParent peer None) s) = Ret (cs, s2)" "s' = fold (\<lambda>c. send_packet c peer []) cs s2"
    using assms(2) Some by (auto simp: removePeerFromCurrentTree_def Let_def)
  with sched_children_ok[OF assms(1) _ st_ok_detach[OF assms(3,4)] q] show ?thesis by simp
qed

lemma move_child_ok:
  assumes "evaluator (e_evaluator e)" "move_child e peer retry child s = Ret s'" "st_ok n s" "child < n"
  shows "st_ok n s'"
  using assms(2) sched_parent_ok(1)[OF assms(1) _ assms(3,4)]
  by (auto simp: move_child_def Let_def obind_eq_Ret split: option.splits)

lemma children_refs:
  assumes "st_ok n s" "peer < n" "c \<in> set (map snd (p_children (peer_at (st_heap s) peer)))"
  shows "c < n"
proof -
  have l: "links (st_heap s)" "next_peer (st_heap s) = n"
    using assms(1) by (simp_all add: st_ok_def sched_inv_def tree_inv_def)
  obtain k where "(k, c) \<in> set (children (st_heap s) peer)" using assms(3) by auto
  moreover have "wf_map (children (st_heap s) peer)" using links_wf[OF l(1)] l(2) assms(2) by simp
  ultimately have "Load (children (st_heap s) peer) k = Some c" by (simp add: Load_Some_iff)
  with l assms(2) show ?thesis by (auto simp: links_def)
qed

lemma move_children_ok:
  assumes "evaluator (e_evaluator e)" "st_ok n s" "peer < n"
    and "ofold (\<lambda>child. move_child e peer (f child) child) (map snd (p_children (peer_at (st_heap s) peer))) s = Ret s'"
  shows "st_ok n s'"
  using assms(4,2)
proof (rule ofold_invariant)
  fix c t t'
  assume "c \<in> set (map snd (children (st_heap s) peer))" "st_ok n t"
    "move_child e peer (f c) c t = Ret t'"
  then show "st_ok n t'" using move_child_ok[OF assms(1)] children_refs[OF assms(2,3)] by blast
qed

lemma sched_inv_Delete:
  assumes "sched_inv h"
  shows "sched_inv (peerManager_Delete k h)"
proof (cases "peerManager_Get k h")
  case None
  with assms show ?thesis by (simp add: peerManager_Delete_def)
next
  case (Some p)
  then have p: "p < next_peer h" using assms by (simp add: sched_inv_def refs_inv_def peerManager_Get_def)
  let ?g1 = "Host_DeletePeer (p_Host (peer_at h p)) k h"
  let ?g = "Task_DeletePeer (p_Task (peer_at h p)) p ?g1"
  have v: "tree_view ?g = tree_view h" by simp
  have ov: "no_overload ?g = no_overload h"
    by (rule no_overload_cong[OF v]) (simp add: Host_DeletePeer_def)
  have lists: "set (ul_container (t_peers (task_at ?g t))) \<subseteq> set (ul_container (t_peers (task_at h t)))" for t
    by (auto simp: Task_DeletePeer_def Host_DeletePeer_def ul_Remove_def intro: set_remove1_subset[THEN subsetD])
  have pm: "peerManager ?g = peerManager h" by (simp add: Host_DeletePeer_def)
  have "refs_inv h" using assms by (simp add: sched_inv_def)
  then have "refs_inv ?g"
    unfolding refs_inv_def pm tree_viewD(1,2)[OF v] using lists order_trans by blast
  moreover have "hosts_inv ?g = hosts_inv h"
    by (rule hosts_inv_cong[OF v]) (simp_all add: Host_DeletePeer_def Task_DeletePeer_def)
  ultimately have "sched_inv ?g" using assms tree_inv_cong[OF v] ov by (simp add: sched_inv_def)
  moreover have "p < next_peer ?g" using p by (simp only: tree_viewD(1)[OF v])
  ultimately have d: "sched_inv (ReplaceParent p None ?g)" by (rule sched_inv_detach)
  let ?d = "ReplaceParent p None ?g"
  have vd: "tree_view (?d\<lparr>peerManager := Delete k (peerManager ?d)\<rparr>) = tree_view ?d" by simp
  have "sched_inv (?d\<lparr>peerManager := Delete k (peerManager ?d)\<rparr>)"
    using d tree_inv_cong[OF vd] no_overload_cong[OF vd] hosts_inv_cong[OF vd]
    by (auto simp: sched_inv_def refs_inv_def)
  with Some show ?thesis by (simp add: peerManager_Delete_def Let_def)
qed

lemma st_ok_Delete: "st_ok n s \<Longrightarrow> st_ok n (on_heap (peerManager_Delete k) s)"
  by (simp add: st_ok_on_heap) (simp add: st_ok_def sched_inv_Delete)

subsection \<open>Handler by handler\<close>

lemma st_ok_view: "sched_view (f (st_heap s)) = sched_view (st_heap s) \<Longrightarrow> st_ok n (on_heap f s) = st_ok n s"
  using sched_inv_cong[of "f (st_heap s)" "st_heap s"] next_peer_view[of "f (st_heap s)" "st_heap s"]
  by (simp add: st_ok_def on_heap_def)

lemma apply_reScheduleParent_ok:
  assumes "evaluator (e_evaluator e)" "apply_reScheduleParent e rs s = Ret s'" "st_ok n s" "rs_peer rs < n"
  shows "st_ok n s'"
  using assms(2) sched_parent_ok(1)[OF assms(1) _ assms(3), of "rs_peer rs"] assms(3,4)
  by (auto simp: apply_reScheduleParent_def Let_def obind_eq_Ret st_ok_view split: if_splits option.splits)

lemma apply_startReportPieceResult_ok:
  assumes "evaluator (e_evaluator e)" "apply_startReportPieceResult e p s = Ret s'" "st_ok n s" "p < n"
  shows "st_ok n s'"
  using assms(2) sched_parent_ok(1)[OF assms(1) _ assms(3), of p] assms(3,4)
  by (auto simp: apply_startReportPieceResult_def Let_def obind_eq_Ret st_ok_view split: if_splits option.splits)

lemma apply_peerDownloadPieceFail_ok:
  assumes "apply_peerDownloadPieceFail p pr s = Ret s'" "st_ok n s"
  shows "st_ok n s'"
  using assms st_ok_Delete[OF assms(2)]
  by (auto simp: apply_peerDownloadPieceFail_def start_seed_def Let_def obind_eq_Ret split: if_splits)

lemma apply_taskSeedFail_ok: "apply_taskSeedFail t s = Ret s' \<Longrightarrow> st_ok n s \<Longrightarrow> st_ok n s'"
  by (auto simp: apply_taskSeedFail_def st_ok_view)

lemma apply_peerDownloadSuccess_ok:
  assumes "evaluator (e_evaluator e)" "apply_peerDownloadSuccess e p res s = Ret s'" "st_ok n s" "p < n"
  shows "st_ok n s'"
proof -
  let ?s = "on_heap (SetStatus p PeerStatusSuccess) s"
  have s0: "st_ok n ?s" using assms(3) by (simp add: st_ok_view)
  have upd: "st_ok n (on_heap (upd_task t (UpdateSuccess a b)) ?s)" for t a b
    using s0 by (simp add: st_ok_view sched_view_upd_task)
  let ?h = "st_heap ?s"
  obtain s1 s2 cs s3 where first: "(if ContainsBackToSourcePeer (p_ID (peer_at ?h p)) (peerTask ?h p) \<and> \<not> Task_IsSuccess (peerTask ?h p)
      then (case res of None \<Rightarrow> Panic ''nil pointer dereference''
            | Some res \<Rightarrow> Ret (on_heap (upd_task (p_Task (peer_at ?h p))
                (UpdateSuccess (res_TotalPieceCount res) (res_ContentLength res))) ?s))
      else Ret ?s) = Ret s1"
    and 1: "removePeerFromCurrentTree e p s1 = Ret s2"
    "sched_children e p (Some []) s2 = Ret (cs, s3)" "s' = fold (\<lambda>c. send_packet c p []) cs s3"
    using assms(2) unfolding apply_peerDownloadSuccess_def Let_def by (elim obind_RetE) auto
  have s1: "st_ok n s1" using first s0 upd by (auto split: if_splits option.splits)
  have "st_ok n s2" using removePeerFromCurrentTree_ok[OF assms(1) 1(1) s1 assms(4)] .
  from sched_children_ok[OF assms(1) 1(2) this assms(4)] 1(3) show ?thesis by simp
qed

lemma apply_peerDownloadFail_ok:
  assumes "evaluator (e_evaluator e)" "apply_peerDownloadFail e p res s = Ret s'" "st_ok n s" "p < n"
  shows "st_ok n s'"
proof -
  let ?s = "on_heap (SetStatus p PeerStatusFail) s" and ?t = "p_Task (peer_at (SetStatus p PeerStatusFail (st_heap s)) p)"
  have s0: "st_ok n ?s" using assms(3) by (simp add: st_ok_view)
  have "st_ok n (on_heap (\<lambda>h. handleCDNSeedTaskFail t (Task_SetStatus t TaskStatusFail h)) ?s)" for t
    using s0 by (simp add: st_ok_view)
  then consider "st_ok n s'" | s1 where "removePeerFromCurrentTree e p ?s = Ret s1"
    "ofold (move_child e p p) (map snd (p_children (peer_at (st_heap s1) p))) s1 = Ret s'"
    using assms(2) by (auto simp: apply_peerDownloadFail_def Let_def obind_eq_Ret split: if_splits)
  then show ?thesis
  proof cases
    case 2
    have "st_ok n s1" using removePeerFromCurrentTree_ok[OF assms(1) 2(1) s0 assms(4)] .
    from move_children_ok[OF assms(1) this assms(4), of "\<lambda>_. p"] 2(2) show ?thesis by simp
  qed
qed

lemma apply_peerLeave_ok:
  assumes "evaluator (e_evaluator e)" "apply_peerLeave e p s = Ret s'" "st_ok n s" "p < n"
  shows "st_ok n s'"
proof -
  let ?s = "on_heap (Leave p) s"
  have s0: "st_ok n ?s" using assms(3) by (simp add: st_ok_view)
  obtain s1 s2 where 1: "removePeerFromCurrentTree e p ?s = Ret s1"
    "ofold (\<lambda>c. move_child e p c c) (map snd (p_children (peer_at (st_heap s1) p))) s1 = Ret s2"
    "s' = on_heap (peerManager_Delete (p_ID (peer_at (st_heap s2) p))) s2"
    using assms(2) by (auto simp: apply_peerLeave_def Let_def obind_eq_Ret)
  have "st_ok n s1" using removePeerFromCurrentTree_ok[OF assms(1) 1(1) s0 assms(4)] .
  from move_children_ok[OF assms(1) this assms(4), of "\<lambda>c. c"] 1(2) have "st_ok n s2" by simp
  with 1(3) st_ok_Delete show ?thesis by simp
qed

lemma sched_inv_attach:
  assumes "sched_inv h" "c < next_peer h" "q < next_peer h" "c \<noteq> q" "IsDescendant h q c = Some False"
    "0 < sint (GetFreeUploadLoad (peerHost h q))"
  shows "sched_inv (ReplaceParent c (Some q) h)"
proof -
  have inv: "tree_inv h" "no_overload h" "refs_inv h" using assms(1) by (simp_all add: sched_inv_def)
  have "(q, c) \<notin> (parent_rel h)\<^sup>*" using IsDescendant_rtrancl[OF inv(1) assms(3,2)] assms(4,5) by blast
  then have "tree_inv (ReplaceParent c (Some q) h)" using inv(1) assms(2,3) by (intro tree_inv_attach)
  moreover have "no_overload (ReplaceParent c (Some q) h)"
    using no_overload_attach_all[OF inv(1,2) assms(3), of "[c]"] assms(6) by simp
  moreover have "refs_inv (ReplaceParent c (Some q) h)"
    using inv assms(2,3) by (intro refs_inv_ReplaceParent) (auto simp: tree_inv_def)
  ultimately show ?thesis using assms(1) by (simp add: sched_inv_def)
qed

text \<open>The peer a piece came from can become the parent: it is above or beside the reporting peer.\<close>

definition piece_target_ok :: "heap \<Rightarrow> peer_ref \<Rightarrow> PieceResult \<Rightarrow> bool" where
  "piece_target_ok h peer pr \<longleftrightarrow>
     (case peerManager_Get (pr_DstPid pr) h of
        None \<Rightarrow> True
      | Some dst \<Rightarrow> IsLeave h dst \<or> GetParent h peer = Some dst
          \<or> (IsDescendant h dst peer = Some False \<and> 0 < sint (GetFreeUploadLoad (peerHost h dst))))"

lemma UpdateProgress_frame [simp, frame_simps]:
  "peerManager (UpdateProgress p n c h) = peerManager h" "host_at (UpdateProgress p n c h) = host_at h"
  "IsLeave (UpdateProgress p n c h) q = IsLeave h q" "GetParent (UpdateProgress p n c h) q = GetParent h q"
  "p_ID (peer_at (UpdateProgress p n c h) q) = p_ID (peer_at h q)"
  "p_Host (peer_at (UpdateProgress p n c h) q) = p_Host (peer_at h q)"
  "next_peer (UpdateProgress p n c h) = next_peer h"
  by (simp_all add: UpdateProgress_def Let_def SetPieceCosts_def IsLeave_def GetParent_def)

lemma piece_target_ok_UpdateProgress:
  assumes "sched_inv h" "peer < next_peer h" "piece_target_ok h peer pr"
  shows "piece_target_ok (UpdateProgress peer n c h) peer pr"
proof -
  let ?g = "UpdateProgress peer n c h"
  have g: "sched_inv ?g" by (rule sched_inv_UpdateProgress[OF assms(1,2)])
  have rel: "parent_rel ?g = parent_rel h" by (rule parent_rel_cong) simp
  show ?thesis
  proof (cases "peerManager_Get (pr_DstPid pr) h")
    case None
    then show ?thesis by (simp add: piece_target_ok_def peerManager_Get_def)
  next
    case (Some dst)
    then have d: "dst < next_peer h" using assms(1) by (simp add: sched_inv_def refs_inv_def peerManager_Get_def)
    have "IsDescendant ?g dst peer = IsDescendant h dst peer"
      using isDescendant_correct[of ?g dst peer] isDescendant_correct[of h dst peer] g assms(1,2) d rel
      by (simp add: IsDescendant_def sched_inv_def)
    moreover have "peerManager_Get (pr_DstPid pr) ?g = Some dst" using Some by (simp add: peerManager_Get_def)
    ultimately show ?thesis
      using assms(3) Some by (simp add: piece_target_ok_def peerHost_def)
  qed
qed

lemma apply_peerDownloadPieceSuccess_ok:
  assumes ev: "evaluator (e_evaluator e)" and ret: "apply_peerDownloadPieceSuccess e p pr s0 = Ret s'"
    and ok: "st_ok n s0" and p: "p < n" and target: "piece_target_ok (st_heap s0) p pr"
  shows "st_ok n s'"
proof -
  let ?up = "UpdateProgress p (pr_FinishedCount pr) (sint (pr_EndTime pr - pr_BeginTime pr))"
  define s where "s = on_heap ?up s0"
  have s: "st_ok n s"
    using ok p by (simp add: s_def st_ok_on_heap) (simp add: st_ok_def sched_inv_UpdateProgress)
  have t: "piece_target_ok (st_heap s) p pr"
    using piece_target_ok_UpdateProgress[OF _ _ target] ok p by (simp add: s_def on_heap_def st_ok_def)
  have finish: "st_ok n (piece_finish e p pr q cs s3)" if "st_ok n s3"
    "piece_replaces (st_heap s3) p pr \<Longrightarrow> q < n \<and> q \<noteq> p \<and> IsDescendant (st_heap s3) q p = Some False
       \<and> 0 < sint (GetFreeUploadLoad (peerHost (st_heap s3) q))" for q cs s3
  proof -
    have "st_ok n (if piece_replaces (st_heap s3) p pr then on_heap (ReplaceParent p (Some q)) s3 else s3)"
      using that p sched_inv_attach[of "st_heap s3" p q] by (auto simp: st_ok_def on_heap_def)
    then show ?thesis by (simp add: piece_finish_def Let_def st_ok_view)
  qed
  have ret': "(if ContainsBackToSourcePeer (p_ID (peer_at (st_heap s) p)) (peerTask (st_heap s) p)
      then seed_piece p pr s
      else case peerManager_Get (pr_DstPid pr) (st_heap s) of None \<Rightarrow> Ret s
        | Some dst \<Rightarrow> obind (piece_source e p dst s) (\<lambda>(q, cs, s3). Ret (piece_finish e p pr q cs s3))) = Ret s'"
    using ret unfolding apply_peerDownloadPieceSuccess_def Let_def s_def .
  show ?thesis
  proof (cases "ContainsBackToSourcePeer (p_ID (peer_at (st_heap s) p)) (peerTask (st_heap s) p)")
    case True
    with ret' have "seed_piece p pr s = Ret s'" by simp
    with s show ?thesis
      by (auto simp: seed_piece_def Let_def st_ok_view sched_view_upd_task split: option.splits if_splits)
  next
    case False
    show ?thesis
    proof (cases "peerManager_Get (pr_DstPid pr) (st_heap s)")
      case None
      with False ret' s show ?thesis by simp
    next
      case (Some dst)
      have dst: "dst < n" "p_ID (peer_at (st_heap s) dst) = pr_DstPid pr"
        using Some s by (auto simp: st_ok_def sched_inv_def refs_inv_def peerManager_Get_def)
      from ret' False Some obtain q cs s3 where src: "piece_source e p dst s = Ret (q, cs, s3)"
        and fin: "s' = piece_finish e p pr q cs s3" by (auto simp: obind_eq_Ret)
      show ?thesis
      proof (cases "IsLeave (st_heap s) dst")
        case stay: False
        then have eq: "q = dst" "s3 = s" using src by (simp_all add: piece_source_def)
        have "st_ok n (piece_finish e p pr dst cs s)"
        proof (rule finish[OF s])
          assume "piece_replaces (st_heap s) p pr"
          then have "dst \<noteq> p" "GetParent (st_heap s) p \<noteq> Some dst"
            using dst(2) by (auto simp: piece_replaces_def)
          with t Some stay dst(1) show "dst < n \<and> dst \<noteq> p \<and> IsDescendant (st_heap s) dst p = Some False
              \<and> 0 < sint (GetFreeUploadLoad (peerHost (st_heap s) dst))"
            by (simp add: piece_target_ok_def)
        qed
        with fin eq show ?thesis by simp
      next
        case left: True
        let ?s1 = "on_heap (ReplaceParent p None) s" and ?blank = "Some [p_ID (peer_at (st_heap s) dst)]"
        have sp: "sched_parent e p ?blank ?s1 = Ret (Some (q, cs), s3)"
          using src left by (auto simp: piece_source_def obind_eq_Ret split: option.splits)
        have s1: "st_ok n ?s1" by (rule st_ok_detach[OF s p])
        have s3: "st_ok n s3" "q < n" using sched_parent_ok[OF ev sp s1 p] by simp_all
        obtain h' where h': "ScheduleParent (e_evaluator e) (e_CandidateParentCount e) p ?blank (st_heap ?s1)
            = Ret (Some (q, cs), h')" "s3 = ?s1\<lparr>st_heap := h'\<rparr>"
          using sp by (auto simp: sched_parent_def obind_eq_Ret)
        have "h' = st_heap ?s1"
          using evaluator.ScheduleParent_heap[OF ev h'(1)] by (simp add: with_parent_def on_heap_def)
        moreover have "parent_ok (e_evaluator e) (st_heap ?s1) p ?blank q"
          using evaluator.ScheduleParent_eligible(1)[OF ev h'(1)] by simp
        ultimately show ?thesis
          unfolding fin using finish[OF s3(1)] s3(2) h'(2) by (auto simp: parent_ok_def)
      qed
    qed
  qed
qed

end
