(* ===== verification/Ids.thy ===== *)
theory Ids
  imports Supervisor_Model Go_Text
begin

text \<open>
  \<open>pkg/idgen\<close> (identifiers of hosts, peers and tasks), \<open>pkg/util/digestutils\<close> and the helpers
  of \<open>pkg/util/stringutils\<close> and \<open>pkg/util/net/urlutils\<close> they use. The hash functions, the
  process id, the random UUID and \<open>net/url\<close> are parameters: every statement holds for all of them.
\<close>

section \<open>stringutils\<close>

text \<open>A string is a list of bytes; the functions on runes are modelled for ASCII strings.\<close>

definition SubString :: "string \<Rightarrow> int \<Rightarrow> int \<Rightarrow> string" where
  "SubString str start stop =
     (let length = int (length str)
      in if start < 0 \<or> start \<ge> length \<or> stop \<le> 0 \<or> stop > length \<or> start \<ge> stop then []
         else take (nat (stop - start)) (drop (nat start) str))"

definition IsSpace :: "char \<Rightarrow> bool" where
  "IsSpace c \<longleftrightarrow> (of_char c :: nat) \<in> {9, 10, 11, 12, 13, 32}"

fun IsBlank :: "string \<Rightarrow> bool" where
  "IsBlank [] = True"
| "IsBlank (c # str) = (if \<not> IsSpace c then False else IsBlank str)"

definition IsEmpty :: "string \<Rightarrow> bool" where
  "IsEmpty str \<longleftrightarrow> str = []"

definition to_lower :: "char \<Rightarrow> char" where
  "to_lower c = (if 65 \<le> (of_char c :: nat) \<and> (of_char c :: nat) \<le> 90 then char_of (of_char c + 32 :: nat) else c)"

definition EqualFold :: "string \<Rightarrow> string \<Rightarrow> bool" where
  "EqualFold s t \<longleftrightarrow> map to_lower s = map to_lower t"

fun ContainsFold :: "string list \<Rightarrow> string \<Rightarrow> bool" where
  "ContainsFold [] ele = False"
| "ContainsFold (one # ones) ele = (if EqualFold one ele then True else ContainsFold ones ele)"

fun Contains_str :: "string list \<Rightarrow> string \<Rightarrow> bool" where
  "Contains_str [] ele = False"
| "Contains_str (one # ones) ele = (if one = ele then True else Contains_str ones ele)"

section \<open>urlutils\<close>

text \<open>What the code calls of \<open>net/url\<close>: parse, the query's values, and the text with a new query.\<close>

record 'u net_url =
  url_Parse :: "string \<Rightarrow> 'u option"
  url_Query :: "'u \<Rightarrow> (string, string list) gomap"
  url_with_query :: "'u \<Rightarrow> (string, string list) gomap \<Rightarrow> string"
  url_Scheme :: "'u \<Rightarrow> string"
  url_Host :: "'u \<Rightarrow> string"

definition FilterURLParam :: "'u net_url \<Rightarrow> string \<Rightarrow> string list \<Rightarrow> string" where
  "FilterURLParam lib str filters =
     (if filters = [] \<or> str = [] then str
      else case url_Parse lib str of
             None \<Rightarrow> []
           | Some u \<Rightarrow>
               url_with_query lib u
                 (fold (\<lambda>(k, v) values. if \<not> ContainsFold filters k then Store k v values else values)
                    (url_Query lib u) []))"

definition IsValidURL :: "'u net_url \<Rightarrow> string \<Rightarrow> bool" where
  "IsValidURL lib str =
     (case url_Parse lib str of None \<Rightarrow> False | Some u \<Rightarrow> url_Scheme lib u \<noteq> [] \<and> url_Host lib u \<noteq> [])"

section \<open>digestutils\<close>

text \<open>A hash function, from the bytes written so far to the digest.\<close>

type_synonym hash = "string \<Rightarrow> uint8 list"

definition hex_digit :: "nat \<Rightarrow> char" where
  "hex_digit n = (if n < 10 then char_of (48 + n) else char_of (87 + n))"

definition EncodeToString :: "uint8 list \<Rightarrow> string" where
  "EncodeToString bs = concat (map (\<lambda>b. [hex_digit (unat b div 16), hex_digit (unat b mod 16)]) bs)"

definition ToHashString :: "uint8 list \<Rightarrow> string" where
  "ToHashString h = EncodeToString h"

definition Sha256 :: "hash \<Rightarrow> string list \<Rightarrow> string" where
  "Sha256 sha256 values = (if values = [] then [] else ToHashString (sha256 (fold (\<lambda>content h. h @ content) values [])))"

definition Md5Bytes :: "hash \<Rightarrow> string \<Rightarrow> string" where
  "Md5Bytes md5 bytes = ToHashString (md5 bytes)"

definition Parse_digest :: "string \<Rightarrow> string list" where
  "Parse_digest digest = Split (trim_by (\<lambda>c. c = CHR '' '') digest) (CHR '':'')"

datatype algorithm = Sha256Hash | Md5Hash

definition Algorithms :: "(string, algorithm) gomap" where
  "Algorithms = [(''sha256'', Sha256Hash), (''md5'', Md5Hash)]"

definition CreateHash :: "string \<Rightarrow> algorithm option" where
  "CreateHash hashType = Load Algorithms hashType"

subsection \<open>The digest reader\<close>

text \<open>
  \<open>digestReader\<close>: a reader that hashes what passes through and compares the digest when the
  underlying reader reports the end. The underlying reader is the list of results of its
  \<open>Read\<close> calls: the bytes returned and an error, if any.
\<close>

datatype io_error = EOF | ErrDigestNotMatch | IoError string

record digestReader =
  dr_r :: "(string \<times> io_error option) list"
  dr_hash :: string
  dr_digest :: string

definition Digest :: "hash \<Rightarrow> digestReader \<Rightarrow> string" where
  "Digest md5 dr = EncodeToString (take 16 (md5 (dr_hash dr)))"

text \<open>A reader that is used up keeps reporting the end.\<close>

definition next_read :: "(string \<times> io_error option) list \<Rightarrow> (string \<times> io_error option) \<times> (string \<times> io_error option) list" where
  "next_read rs = (case rs of [] \<Rightarrow> (([], Some EOF), []) | r # rest \<Rightarrow> (r, rest))"

definition digestReader_Read :: "hash \<Rightarrow> digestReader \<Rightarrow> (string \<times> io_error option) \<times> digestReader" where
  "digestReader_Read md5 dr =
     (case next_read (dr_r dr) of
        ((p, err), rest) \<Rightarrow>
          let dr1 = dr\<lparr>dr_r := rest\<rparr>
          in if err \<noteq> None \<and> err \<noteq> Some EOF then ((p, err), dr1)
             else let dr2 = dr1\<lparr>dr_hash := dr_hash dr1 @ p\<rparr>
                  in if err = Some EOF \<and> dr_digest dr2 \<noteq> [] \<and> Digest md5 dr2 \<noteq> dr_digest dr2
                     then ((p, Some ErrDigestNotMatch), dr2)
                     else ((p, err), dr2))"

text \<open>\<open>io.ReadAll\<close> on the reader: everything read up to the first error.\<close>

function ReadAll :: "hash \<Rightarrow> digestReader \<Rightarrow> string \<Rightarrow> string \<times> io_error option" where
  "ReadAll md5 dr acc =
     (case digestReader_Read md5 dr of
        ((p, None), dr') \<Rightarrow> ReadAll md5 dr' (acc @ p)
      | ((p, Some EOF), dr') \<Rightarrow> (acc @ p, None)
      | ((p, Some err), dr') \<Rightarrow> (acc @ p, Some err))"
  by pat_completeness auto
termination
  by (relation "measure (\<lambda>(md5, dr, acc). length (dr_r dr))")
     (auto simp: digestReader_Read_def next_read_def Let_def split: list.splits prod.splits if_splits)

declare ReadAll.simps [simp del]

section \<open>idgen\<close>

definition HostID :: "string \<Rightarrow> int32 \<Rightarrow> string" where
  "HostID hostname port = hostname @ ''-'' @ show_int (sint port)"

definition CDNHostID :: "string \<Rightarrow> int32 \<Rightarrow> string" where
  "CDNHostID hostname port = HostID hostname port @ ''_CDN''"

definition PeerID :: "int \<Rightarrow> string \<Rightarrow> string \<Rightarrow> string" where
  "PeerID pid uuid ip = ip @ ''-'' @ show_int pid @ ''-'' @ uuid"

definition CDNPeerID :: "int \<Rightarrow> string \<Rightarrow> string \<Rightarrow> string" where
  "CDNPeerID pid uuid ip = PeerID pid uuid ip @ ''_'' @ ''CDN''"

definition TaskID :: "hash \<Rightarrow> 'u net_url \<Rightarrow> string \<Rightarrow> UrlMeta option \<Rightarrow> string" where
  "TaskID sha256 lib url meta =
     (let filters = (case meta of
                       Some m \<Rightarrow> if um_Filter m \<noteq> [] then Split (um_Filter m) (CHR ''&'') else []
                     | None \<Rightarrow> []);
          data = [FilterURLParam lib url filters];
          data = (case meta of
                    None \<Rightarrow> data
                  | Some m \<Rightarrow>
                      (let data = (if um_Digest m \<noteq> [] then data @ [um_Digest m] else data);
                           data = (if um_Range m \<noteq> [] then data @ [um_Range m] else data)
                       in if um_Tag m \<noteq> [] then data @ [um_Tag m] else data))
      in Sha256 sha256 data)"

section \<open>Lemmas\<close>

lemma Contains_str_iff [simp]: "Contains_str xs x \<longleftrightarrow> x \<in> set xs"
  by (induction xs) auto

lemma ContainsFold_iff: "ContainsFold xs x \<longleftrightarrow> (\<exists>y \<in> set xs. EqualFold y x)"
  by (induction xs) auto

lemma fold_concat: "fold (\<lambda>content h. h @ content) xs acc = acc @ concat xs"
  by (induction xs arbitrary: acc) simp_all

lemma Sha256_eq: "values \<noteq> [] \<Longrightarrow> Sha256 sha256 values = EncodeToString (sha256 (concat values))"
  by (simp add: Sha256_def ToHashString_def fold_concat)

lemma length_EncodeToString [simp]: "length (EncodeToString bs) = 2 * length bs"
  by (induction bs) (simp_all add: EncodeToString_def)

text \<open>Hexadecimal text determines the bytes.\<close>

lemma hex_digit_inj:
  assumes "m < 16" "n < 16" "hex_digit m = hex_digit n"
  shows "m = n"
proof -
  have "(of_char (hex_digit k) :: nat) = (if k < 10 then 48 + k else 87 + k)" if "k < 16" for k
    using that by (simp add: hex_digit_def)
  with assms have "(if m < 10 then 48 + m else 87 + m) = (if n < 10 then 48 + n else 87 + n)" by metis
  with assms(1,2) show ?thesis by (auto split: if_splits)
qed

lemma EncodeToString_Cons:
  "EncodeToString (b # bs) = hex_digit (unat b div 16) # hex_digit (unat b mod 16) # EncodeToString bs"
  by (simp add: EncodeToString_def)

lemma EncodeToString_inj: "EncodeToString xs = EncodeToString ys \<Longrightarrow> xs = ys"
proof (induction xs arbitrary: ys)
  case Nil
  then show ?case by (cases ys) (simp_all add: EncodeToString_Cons, simp add: EncodeToString_def)
next
  case (Cons x xs)
  then obtain y ys' where ys: "ys = y # ys'"
    by (cases ys) (simp_all add: EncodeToString_Cons, simp add: EncodeToString_def)
  have lt: "unat b div 16 < 16" "unat b mod 16 < 16" for b :: uint8
  proof -
    have "unat b < 2 ^ LENGTH(8)" by (rule unsigned_less)
    then show "unat b div 16 < 16" "unat b mod 16 < 16" by (simp_all add: less_mult_imp_div_less)
  qed
  from Cons.prems ys have "hex_digit (unat x div 16) = hex_digit (unat y div 16)"
    "hex_digit (unat x mod 16) = hex_digit (unat y mod 16)" "EncodeToString xs = EncodeToString ys'"
    by (simp_all add: EncodeToString_Cons)
  then have "unat x div 16 = unat y div 16" "unat x mod 16 = unat y mod 16" "xs = ys'"
    using hex_digit_inj lt Cons.IH by blast+
  then have "unat x = unat y" by (metis div_mult_mod_eq)
  then have "x = y" by (rule unsigned_word_eqI)
  with ys \<open>xs = ys'\<close> show ?case by simp
qed

lemma show_nat_inj: "show_nat m = show_nat n \<Longrightarrow> m < 2 ^ 64 \<Longrightarrow> n < 2 ^ 64 \<Longrightarrow> m = n"
  by (metis parse_show_nat sum.inject(2))

lemma split_last_dash:
  assumes "a @ CHR ''-'' # x = b @ CHR ''-'' # y" "CHR ''-'' \<notin> set x" "CHR ''-'' \<notin> set y"
  shows "a = b \<and> x = y"
proof -
  from assms(1) obtain us where "a = b @ us \<and> us @ CHR ''-'' # x = CHR ''-'' # y
      \<or> a @ us = b \<and> CHR ''-'' # x = us @ CHR ''-'' # y"
    by (auto simp: append_eq_append_conv2)
  with assms(2,3) show ?thesis by (cases us) auto
qed

lemma digestReader_hash:
  "digestReader_Read md5 dr = ((p, err), dr') \<Longrightarrow> err = None \<or> err = Some EOF \<or> err = Some ErrDigestNotMatch
     \<Longrightarrow> (\<forall>r \<in> set (dr_r dr). snd r \<noteq> Some ErrDigestNotMatch) \<Longrightarrow>
   dr_hash dr' = dr_hash dr @ p \<and> dr_digest dr' = dr_digest dr \<and>
   (err = Some EOF \<longrightarrow> dr_digest dr = [] \<or> Digest md5 dr' = dr_digest dr)"
  by (cases "dr_r dr") (auto simp: digestReader_Read_def next_read_def Let_def split: if_splits prod.splits)

lemma ReadAll_verified:
  assumes "ReadAll md5 dr acc = (data, None)" "dr_hash dr = acc"
    "\<forall>r \<in> set (dr_r dr). snd r \<noteq> Some ErrDigestNotMatch" "dr_digest dr \<noteq> []"
  shows "EncodeToString (take 16 (md5 data)) = dr_digest dr"
  using assms
proof (induction md5 dr acc rule: ReadAll.induct)
  case (1 md5 dr acc)
  obtain p err dr' where rd: "digestReader_Read md5 dr = ((p, err), dr')" by (metis surj_pair)
  have sub: "set (dr_r dr') \<subseteq> set (dr_r dr)"
    using rd by (cases "dr_r dr") (auto simp: digestReader_Read_def next_read_def Let_def split: if_splits)
  show ?case
  proof (cases err)
    case None
    with digestReader_hash[OF rd _ "1.prems"(3)] have h: "dr_hash dr' = dr_hash dr @ p" "dr_digest dr' = dr_digest dr"
      by simp_all
    have "ReadAll md5 dr' (acc @ p) = (data, None)"
      using "1.prems"(1) rd None by (subst (asm) ReadAll.simps) simp
    with "1.IH"[OF rd[unfolded None, symmetric] refl refl] h sub "1.prems"(2,3,4) show ?thesis by auto
  next
    case (Some x)
    from "1.prems"(1) rd Some have x: "x = EOF" and d: "data = acc @ p"
      by (subst (asm) ReadAll.simps, simp split: io_error.splits)+
    with digestReader_hash[OF rd _ "1.prems"(3)] Some "1.prems"(2,4) have "Digest md5 dr' = dr_digest dr" "dr_hash dr' = data"
      by auto
    then show ?thesis by (simp add: Digest_def)
  qed
qed

section \<open>Properties\<close>

text \<open>
  C20. Reading a stream to its end through a digest reader with an expected digest succeeds only
  if the MD5 digest of exactly the bytes delivered is the expected one.
\<close>

theorem digest_reader_verifies:
  assumes "ReadAll md5 \<lparr>dr_r = reads, dr_hash = [], dr_digest = expected\<rparr> [] = (data, None)"
    and "\<forall>r \<in> set reads. snd r \<noteq> Some ErrDigestNotMatch" and "expected \<noteq> []"
  shows "EncodeToString (take 16 (md5 data)) = expected"
  using ReadAll_verified[OF assms(1)] assms(2,3) by simp

lemma char_digits: "char_of (48 :: nat) = CHR ''0''" "char_of (50 :: nat) = CHR ''2''"
  by code_simp+

theorem digest_reader_verifies_witness:
  "EncodeToString (take 16 ((\<lambda>s. [of_nat (length s)]) ''hi'')) = ''02''"
proof (rule digest_reader_verifies)
  show "ReadAll (\<lambda>s. [of_nat (length s)])
      \<lparr>dr_r = [(''h'', None), (''i'', Some EOF)], dr_hash = [], dr_digest = ''02''\<rparr> [] = (''hi'', None)"
    by (subst ReadAll.simps, simp add: digestReader_Read_def next_read_def,
        subst ReadAll.simps, simp add: digestReader_Read_def next_read_def Digest_def EncodeToString_def hex_digit_def char_digits Let_def)
qed simp_all

text \<open>
  Host identifiers are unambiguous: two hosts with non-negative ports get the same
  identifier only if both the host name and the port agree.
\<close>

theorem host_id_injective:
  assumes "HostID a p = HostID b q" "0 \<le> sint p" "0 \<le> sint q"
  shows "a = b \<and> p = q"
proof -
  have "a @ CHR ''-'' # show_nat (nat (sint p)) = b @ CHR ''-'' # show_nat (nat (sint q))"
    using assms by (simp add: HostID_def show_int_def)
  then have ab: "a = b" "show_nat (nat (sint p)) = show_nat (nat (sint q))"
    using split_last_dash show_nat_no_dash by blast+
  have "nat (sint w) < 2 ^ 64" for w :: int32
    using sint_bounds_32[of w] by (cases "0 \<le> sint w") (simp_all add: nat_less_iff)
  then have "nat (sint p) = nat (sint q)" using show_nat_inj[OF ab(2)] by blast
  then have "sint p = sint q" using assms(2,3) by simp
  then show ?thesis using ab(1) by (simp add: signed_word_eqI)
qed

theorem host_id_injective_witness: "''cdn'' = ''cdn'' \<and> (8001 :: int32) = 8001"
  by (rule host_id_injective) simp_all

text \<open>
  Task identifiers do not separate the fields they hash: a request with a digest and a tag
  and one whose digest is the two texts run together get the same identifier.
\<close>

theorem task_id_collision:
  "TaskID sha256 lib url (Some \<lparr>um_Digest = d, um_Tag = t, um_Range = [], um_Filter = []\<rparr>) =
   TaskID sha256 lib url (Some \<lparr>um_Digest = d @ t, um_Tag = [], um_Range = [], um_Filter = []\<rparr>)"
  by (auto simp add: TaskID_def Let_def Sha256_eq FilterURLParam_def)

end
