(* ===== verification/Scheduler_Service.thy ===== *)
theory Scheduler_Service
  imports Event_Invariants Ids
begin

unbundle bit_operations_syntax

text \<open>
  \<open>scheduler/core/service.go\<close>, \<open>scheduler/core/worker.go\<close> and \<open>scheduler/rpcserver/rpcserver.go\<close>:
  registration of peers and tasks, the reports of peers turned into events, and the choice of a
  worker for an event. An operation that sends an event returns it; the worker group delivers
  it to the worker chosen by the event's key. The gRPC stream, traces, logs and metric
  counters are left out, except that reading a nil piece for a counter panics.
\<close>

section \<open>Configuration and requests\<close>

record SchedulerConfig =
  AccessWindow :: time
  BackSourceCount :: int32
  ClientLoadLimit :: "uint32 option" \<comment> \<open>\<open>GetSchedulerClusterClientConfig\<close>\<close>
  EnablePeerHost :: bool

record PeerHost =
  ph_Uuid :: string
  ph_Ip :: string
  ph_RpcPort :: int32
  ph_DownPort :: int32
  ph_HostName :: string
  ph_SecurityDomain :: string
  ph_Location :: string
  ph_Idc :: string

record PeerTaskRequest =
  req_Url :: string
  req_UrlMeta :: "UrlMeta option"
  req_PeerId :: string
  req_PeerHost :: "PeerHost option"

section \<open>service.go\<close>

text \<open>The state when the service starts: no object, empty managers.\<close>

definition init_heap :: heap where
  "init_heap =
     \<lparr>host_at = (\<lambda>_. NewClientHost [] [] [] 0 0 [] [] [] []),
      task_at = (\<lambda>_. \<lparr>t_ID = [], t_URL = [], t_URLMeta = None, t_DirectPiece = [], t_ContentLength = 0,
        t_CreateAt = 0, t_LastTriggerAt = 0, t_lastAccessAt = 0, t_status = TaskStatusWaiting,
        t_peers = NewSortedUniqueList, t_BackToSourceWeight = 0, t_backToSourcePeers = [],
        t_pieces = [], t_TotalPieceCount = 0\<rparr>),
      peer_at = (\<lambda>_. \<lparr>p_ID = [], p_Task = 0, p_Host = 0, p_TotalPieceCount = 0, p_CreateAt = 0,
        p_lastAccessAt = 0, p_parent = None, p_children = [], p_status = PeerStatusWaiting,
        p_pieceCosts = [], p_conn = None, p_leave = False\<rparr>),
      chan_at = (\<lambda>_. newChannel True False),
      next_host = 0, next_task = 0, next_peer = 0, next_chan = 0,
      hostManager = [], taskManager = [], peerManager = []\<rparr>"

definition NewSchedulerService :: "bool \<Rightarrow> state" where
  "NewSchedulerService disableCDN =
     \<lparr>st_heap = init_heap, st_wait = [], st_seeds = [], st_cdn = (\<not> disableCDN)\<rparr>"

definition SelectParent :: "env \<Rightarrow> peer_ref \<Rightarrow> state \<Rightarrow> ((string + peer_ref) \<times> state) outcome" where
  "SelectParent e peer s =
     obind (sched_parent e peer (Some []) s) (\<lambda>(r, s1).
       case r of
         None \<Rightarrow> Ret (Inl (''no parent peer available for peer '' @ p_ID (peer_at (st_heap s1) peer)), s1)
       | Some (parent, _) \<Rightarrow> Ret (Inr parent, s1))"

definition GetPeer :: "string \<Rightarrow> state \<Rightarrow> peer_ref option" where
  "GetPeer key s = peerManager_Get key (st_heap s)"

definition register_host :: "SchedulerConfig \<Rightarrow> PeerHost \<Rightarrow> heap \<Rightarrow> host_ref \<times> heap" where
  "register_host cfg ph h =
     (case hostManager_Get (ph_Uuid ph) h of
        Some host \<Rightarrow> (host, h)
      | None \<Rightarrow>
          (let options = (case ClientLoadLimit cfg of Some limit \<Rightarrow> [WithTotalUploadLoad limit] | None \<Rightarrow> []);
               (host, h1) = alloc_host (NewClientHost (ph_Uuid ph) (ph_Ip ph) (ph_HostName ph)
                  (ph_RpcPort ph) (ph_DownPort ph) (ph_SecurityDomain ph) (ph_Location ph) (ph_Idc ph) options) h
           in (host, hostManager_Add host h1)))"

definition RegisterTask ::
  "SchedulerConfig \<Rightarrow> time \<Rightarrow> PeerTaskRequest \<Rightarrow> task_ref \<Rightarrow> state \<Rightarrow> (peer_ref \<times> state) outcome" where
  "RegisterTask cfg now req task s =
     (case req_PeerHost req of
        None \<Rightarrow> Panic ''nil pointer dereference''
      | Some ph \<Rightarrow>
          (let (host, h1) = register_host cfg ph (st_heap s)
           in case peerManager_Get (req_PeerId req) h1 of
                Some peer \<Rightarrow> Ret (peer, s\<lparr>st_heap := h1\<rparr>)
              | None \<Rightarrow>
                  (let (peer, h2) = NewPeer (req_PeerId req) task host now h1
                   in Ret (peer, s\<lparr>st_heap := peerManager_Add peer h2\<rparr>))))"

text \<open>
  \<open>GetOrAddTask\<close> in its two critical sections: the one under the read lock says whether the
  task needs no trigger; the one under the write lock triggers it.
\<close>

definition GetOrAddTask_read ::
  "SchedulerConfig \<Rightarrow> time \<Rightarrow> task_ref \<Rightarrow> state \<Rightarrow> (task_ref \<times> bool) \<times> state" where
  "GetOrAddTask_read cfg now new s =
     (let ((task, ok), h) = taskManager_GetOrAdd new (st_heap s)
      in ((task, ok \<and> (t_LastTriggerAt (task_at h task) + AccessWindow cfg > now \<or> IsHealth (task_at h task))),
          s\<lparr>st_heap := h\<rparr>))"

definition GetOrAddTask_write :: "SchedulerConfig \<Rightarrow> time \<Rightarrow> task_ref \<Rightarrow> state \<Rightarrow> state" where
  "GetOrAddTask_write cfg now task s =
     (if IsHealth (task_at (st_heap s) task) then s
      else let s1 = on_heap (\<lambda>h. Task_SetStatus task TaskStatusRunning
                               (upd_task task (\<lambda>t. t\<lparr>t_LastTriggerAt := now\<rparr>) h)) s
           in if \<not> st_cdn s
              then on_heap (upd_task task (\<lambda>t. t\<lparr>t_BackToSourceWeight := BackSourceCount cfg\<rparr>)) s1
              else s1\<lparr>st_seeds := st_seeds s1 @ [task]\<rparr>)"

definition GetOrAddTask :: "SchedulerConfig \<Rightarrow> time \<Rightarrow> task_ref \<Rightarrow> state \<Rightarrow> task_ref \<times> state" where
  "GetOrAddTask cfg now new s =
     (case GetOrAddTask_read cfg now new s of
        ((task, True), s1) \<Rightarrow> (task, s1)
      | ((task, False), s1) \<Rightarrow> (task, GetOrAddTask_write cfg now task s1))"

text \<open>What the seeding goroutine does with the result of \<open>StartSeedTask\<close>.\<close>

definition seed_finished :: "SchedulerConfig \<Rightarrow> task_ref \<Rightarrow> (string + peer_ref) \<Rightarrow> state \<Rightarrow> event \<times> state" where
  "seed_finished cfg task r s =
     (case r of
        Inl err \<Rightarrow> (taskSeedFailEvent task,
                     on_heap (upd_task task (\<lambda>t. t\<lparr>t_BackToSourceWeight := BackSourceCount cfg\<rparr>)) s)
      | Inr cdnPeer \<Rightarrow> (peerDownloadSuccessEvent cdnPeer None, s))"

definition EndOfPiece :: int32 where
  "EndOfPiece = push_bit 30 1"

definition ZeroOfPiece :: int32 where
  "ZeroOfPiece = - 1"

definition HandlePieceResult ::
  "SchedulerConfig \<Rightarrow> time \<Rightarrow> peer_ref \<Rightarrow> PieceResult \<Rightarrow> state \<Rightarrow> (event option \<times> state) outcome" where
  "HandlePieceResult cfg now peer pr s0 =
     (let s = on_heap (Touch peer now) s0
      in if pr_Success pr \<and> EnablePeerHost cfg \<and> pr_PieceInfo pr = None
         then Panic ''nil pointer dereference''
         else if (case pr_PieceInfo pr of Some piece \<Rightarrow> PieceNum piece = EndOfPiece | None \<Rightarrow> False) then Ret (None, s)
         else if (case pr_PieceInfo pr of Some piece \<Rightarrow> PieceNum piece = ZeroOfPiece | None \<Rightarrow> False)
         then Ret (Some (startReportPieceResultEvent peer), s)
         else if pr_Success pr then Ret (Some (peerDownloadPieceSuccessEvent peer pr), s)
         else if pr_Code pr \<noteq> Code_Success then Ret (Some (peerDownloadPieceFailEvent peer pr), s)
         else Ret (None, s))"

definition HandlePeerResult :: "time \<Rightarrow> peer_ref \<Rightarrow> PeerResult \<Rightarrow> state \<Rightarrow> event \<times> state" where
  "HandlePeerResult now peer res s =
     (if res_Success res then peerDownloadSuccessEvent peer (Some res) else peerDownloadFailEvent peer res,
      on_heap (Touch peer now) s)"

definition HandleLeaveTask :: "time \<Rightarrow> peer_ref \<Rightarrow> state \<Rightarrow> event \<times> state" where
  "HandleLeaveTask now peer s = (peerLeaveEvent peer, on_heap (Touch peer now) s)"

section \<open>worker.go\<close>

text \<open>\<open>hash/crc32\<close> with the IEEE polynomial, bit by bit.\<close>

definition crc32_bit :: "uint32 \<Rightarrow> uint32" where
  "crc32_bit c = (if c AND 1 \<noteq> 0 then drop_bit 1 c XOR 0xEDB88320 else drop_bit 1 c)"

definition crc32_byte :: "uint32 \<Rightarrow> char \<Rightarrow> uint32" where
  "crc32_byte crc b = (crc32_bit ^^ 8) (crc XOR of_char b)"

definition ChecksumIEEE :: "string \<Rightarrow> uint32" where
  "ChecksumIEEE data = NOT (foldl crc32_byte (NOT 0) data)"

record baseWorker =
  w_events :: "event list" \<comment> \<open>received, in order\<close>
  w_done :: bool

definition newWorker :: baseWorker where
  "newWorker = \<lparr>w_events = [], w_done = False\<rparr>"

type_synonym workerGroup = "baseWorker list"

definition workerGroup_start :: "nat \<Rightarrow> workerGroup" where
  "workerGroup_start workerNum = replicate workerNum newWorker"

definition choiceWorkerID :: "nat \<Rightarrow> string \<Rightarrow> nat outcome" where
  "choiceWorkerID workerNum key =
     (if (of_nat workerNum :: uint32) = 0 then Panic ''integer divide by zero''
      else Ret (unat (ChecksumIEEE key mod of_nat workerNum)))"

definition baseWorker_send :: "event \<Rightarrow> baseWorker \<Rightarrow> bool \<times> baseWorker" where
  "baseWorker_send e w = (if w_done w then (False, w) else (True, w\<lparr>w_events := w_events w @ [e]\<rparr>))"

definition workerGroup_send :: "heap \<Rightarrow> event \<Rightarrow> workerGroup \<Rightarrow> (bool \<times> workerGroup) outcome" where
  "workerGroup_send h e wg =
     obind (choiceWorkerID (length wg) (hashKey h e)) (\<lambda>i.
       if i < length wg
       then (case baseWorker_send e (wg ! i) of (ok, w) \<Rightarrow> Ret (ok, wg[i := w]))
       else Panic ''index out of range'')"

definition workerGroup_stop :: "workerGroup \<Rightarrow> workerGroup" where
  "workerGroup_stop wg = map (\<lambda>w. w\<lparr>w_done := True\<rparr>) wg"

section \<open>rpcserver.go\<close>

record SinglePiece =
  sp_DstPid :: string
  sp_DstAddr :: string
  sp_PieceInfo :: PieceInfo

datatype DirectPiece = NoDirectPiece | PieceContent "uint8 list" | Single SinglePiece

record RegisterResult =
  rr_TaskId :: string
  rr_SizeScope :: SizeScope
  rr_DirectPiece :: DirectPiece

definition single_piece :: "heap \<Rightarrow> peer_ref \<Rightarrow> PieceInfo \<Rightarrow> SinglePiece" where
  "single_piece h parent firstPiece =
     \<lparr>sp_DstPid = p_ID (peer_at h parent),
      sp_DstAddr = h_IP (peerHost h parent) @ '':'' @ show_int (sint (h_DownloadPort (peerHost h parent))),
      sp_PieceInfo = firstPiece\<rparr>"

text \<open>The answer for a finished task of one piece.\<close>

definition register_small ::
  "SchedulerConfig \<Rightarrow> env \<Rightarrow> string \<Rightarrow> PeerTaskRequest \<Rightarrow> task_ref \<Rightarrow> state \<Rightarrow> (RegisterResult \<times> state) outcome" where
  "register_small cfg e taskID req task s =
     obind (RegisterTask cfg (e_now e) req task s) (\<lambda>(peer, s1).
     obind (SelectParent e peer s1) (\<lambda>(r, s2).
       case r of
         Inl _ \<Rightarrow> Ret (\<lparr>rr_TaskId = taskID, rr_SizeScope = SizeScope_SMALL, rr_DirectPiece = NoDirectPiece\<rparr>, s2)
       | Inr parent \<Rightarrow>
           (case GetPiece 0 (task_at (st_heap s2) task) of
              None \<Rightarrow> Ret (\<lparr>rr_TaskId = taskID, rr_SizeScope = SizeScope_SMALL, rr_DirectPiece = NoDirectPiece\<rparr>, s2)
            | Some firstPiece \<Rightarrow>
                Ret (\<lparr>rr_TaskId = taskID, rr_SizeScope = SizeScope_SMALL,
                      rr_DirectPiece = Single (single_piece (st_heap s2) parent firstPiece)\<rparr>, s2))))"

definition register_normal ::
  "SchedulerConfig \<Rightarrow> env \<Rightarrow> string \<Rightarrow> PeerTaskRequest \<Rightarrow> task_ref \<Rightarrow> state \<Rightarrow> (RegisterResult \<times> state) outcome" where
  "register_normal cfg e taskID req task s =
     obind (RegisterTask cfg (e_now e) req task s) (\<lambda>(peer, s1).
       Ret (\<lparr>rr_TaskId = taskID, rr_SizeScope = SizeScope_NORMAL, rr_DirectPiece = NoDirectPiece\<rparr>, s1))"

definition RegisterPeerTask ::
  "(string \<Rightarrow> UrlMeta option \<Rightarrow> string) \<Rightarrow> SchedulerConfig \<Rightarrow> env \<Rightarrow> PeerTaskRequest \<Rightarrow> state
   \<Rightarrow> ((error + RegisterResult) \<times> state) outcome" where
  "RegisterPeerTask taskIDof cfg e req s =
     (let taskID = taskIDof (req_Url req) (req_UrlMeta req);
          (new, h) = NewTask taskID (req_Url req) (req_UrlMeta req) (e_now e) (st_heap s);
          (task, s1) = GetOrAddTask cfg (e_now e) new (s\<lparr>st_heap := h\<rparr>);
          t = task_at (st_heap s1) task
      in if Task_IsFail t then Ret (Inl (DfError Code_SchedTaskStatusError ''task status is fail''), s1)
         else if Task_IsSuccess t
         then (case GetSizeScope t of
                 SizeScope_TINY \<Rightarrow>
                   Ret (Inr \<lparr>rr_TaskId = taskID, rr_SizeScope = SizeScope_TINY,
                             rr_DirectPiece = PieceContent (t_DirectPiece t)\<rparr>, s1)
               | SizeScope_SMALL \<Rightarrow>
                   obind (register_small cfg e taskID req task s1) (\<lambda>(r, s2). Ret (Inr r, s2))
               | SizeScope_NORMAL \<Rightarrow>
                   obind (register_normal cfg e taskID req task s1) (\<lambda>(r, s2). Ret (Inr r, s2)))
         else obind (register_normal cfg e taskID req task s1) (\<lambda>(r, s2). Ret (Inr r, s2)))"

text \<open>
  The opening of a piece report stream: the peer is looked up and bound to the new channel, and
  the first report is handled. Each later report is one \<open>HandlePieceResult\<close>.
\<close>

definition ReportPieceResult_open ::
  "SchedulerConfig \<Rightarrow> time \<Rightarrow> Channel \<Rightarrow> string \<Rightarrow> PieceResult \<Rightarrow> state
   \<Rightarrow> ((error + chan_ref \<times> event option) \<times> state) outcome" where
  "ReportPieceResult_open cfg now chan srcPid pr s =
     (case GetPeer srcPid s of
        None \<Rightarrow> Ret (Inl (DfError Code_SchedPeerNotFound (''peer '' @ srcPid @ '' not found'')), s)
      | Some peer \<Rightarrow>
          if Task_IsFail (peerTask (st_heap s) peer)
          then Ret (Inl (DfError Code_SchedTaskStatusError ''peer's task status is fail, task status Fail''), s)
          else let (conn, h1) = BindNewConn peer chan (st_heap s)
               in obind (HandlePieceResult cfg now peer pr (s\<lparr>st_heap := h1\<rparr>)) (\<lambda>(ev, s2).
                    Ret (Inr (conn, ev), s2)))"

definition ReportPeerResult :: "time \<Rightarrow> string \<Rightarrow> PeerResult \<Rightarrow> state \<Rightarrow> (error + event) \<times> state" where
  "ReportPeerResult now peerId res s =
     (case GetPeer peerId s of
        None \<Rightarrow> (Inl (DfError Code_SchedPeerNotFound (''peer '' @ peerId @ '' not found'')), s)
      | Some peer \<Rightarrow> (case HandlePeerResult now peer res s of (e, s') \<Rightarrow> (Inr e, s')))"

definition LeaveTask :: "time \<Rightarrow> string \<Rightarrow> state \<Rightarrow> event option \<times> state" where
  "LeaveTask now peerId s =
     (case GetPeer peerId s of
        None \<Rightarrow> (None, s)
      | Some peer \<Rightarrow> (case HandleLeaveTask now peer s of (e, s') \<Rightarrow> (Some e, s')))"

end
