(* ===== verification/Cache.thy ===== *)
theory Cache
  imports Go_Prelude
begin

text \<open>
  \<open>pkg/cache/cache.go\<close>: a map from keys to items with an expiration in nanoseconds, kept as a
  64-bit word so that \<open>UnixNano\<close> wraps. Every operation is one critical section of the
  cache's lock and takes the current time. The eviction callback is given by whether it is
  set; an operation that calls it returns the calls in order. A file is what \<open>encoding/gob\<close>
  wrote into it: the items, or nothing that decodes.
\<close>

section \<open>Items and times\<close>

text \<open>A time is the number of nanoseconds since 1970; \<open>UnixNano\<close> truncates it to 64 bits.\<close>

definition UnixNano :: "int \<Rightarrow> int64" where
  "UnixNano t = word_of_int t"

record 'v Item =
  Object :: 'v
  Expiration :: int64

definition Expired :: "int \<Rightarrow> 'v Item \<Rightarrow> bool" where
  "Expired now item = (if Expiration item = 0 then False else sint (UnixNano now) > sint (Expiration item))"

definition NoExpiration :: int64 where "NoExpiration = - 1"

definition DefaultExpiration :: int64 where "DefaultExpiration = 0"

definition NoCleanup :: int64 where "NoCleanup = - 1"

record 'v cache =
  defaultExpiration :: int64
  c_items :: "(string, 'v Item) gomap"
  c_onEvicted :: bool
  c_janitor :: "int64 option"

section \<open>Operations\<close>

definition expiration_of :: "int \<Rightarrow> int64 \<Rightarrow> 'v cache \<Rightarrow> int64" where
  "expiration_of now d c =
     (let d' = (if d = DefaultExpiration then defaultExpiration c else d)
      in if sint d' > 0 then UnixNano (now + sint d') else 0)"

text \<open>\<open>set\<close>\<close>

definition set_item :: "int \<Rightarrow> string \<Rightarrow> 'v \<Rightarrow> int64 \<Rightarrow> 'v cache \<Rightarrow> 'v cache" where
  "set_item now k x d c =
     c\<lparr>c_items := Store k \<lparr>Object = x, Expiration = expiration_of now d c\<rparr> (c_items c)\<rparr>"

definition Cache_Set :: "int \<Rightarrow> string \<Rightarrow> 'v \<Rightarrow> int64 \<Rightarrow> 'v cache \<Rightarrow> 'v cache" where
  "Cache_Set now k x d c =
     (let d1 = (if d = DefaultExpiration then defaultExpiration c else d);
          e = (if sint d1 > 0 then UnixNano (now + sint d1) else 0)
      in c\<lparr>c_items := Store k \<lparr>Object = x, Expiration = e\<rparr> (c_items c)\<rparr>)"

definition SetDefault :: "int \<Rightarrow> string \<Rightarrow> 'v \<Rightarrow> 'v cache \<Rightarrow> 'v cache" where
  "SetDefault now k x c = Cache_Set now k x DefaultExpiration c"

definition get_item :: "int \<Rightarrow> string \<Rightarrow> 'v cache \<Rightarrow> 'v option" where
  "get_item now k c =
     (case Load (c_items c) k of
        None \<Rightarrow> None
      | Some item \<Rightarrow>
          if sint (Expiration item) > 0 \<and> sint (UnixNano now) > sint (Expiration item) then None
          else Some (Object item))"

definition Cache_Add :: "int \<Rightarrow> string \<Rightarrow> 'v \<Rightarrow> int64 \<Rightarrow> 'v cache \<Rightarrow> bool \<times> 'v cache" where
  "Cache_Add now k x d c =
     (case get_item now k c of Some _ \<Rightarrow> (False, c) | None \<Rightarrow> (True, set_item now k x d c))"

definition Cache_Get :: "string \<Rightarrow> 'v cache \<Rightarrow> 'v option" where
  "Cache_Get k c = map_option Object (Load (c_items c) k)"

text \<open>The expiration time is None for the zero time.\<close>

definition GetWithExpiration :: "int \<Rightarrow> string \<Rightarrow> 'v cache \<Rightarrow> ('v \<times> int64 option) option" where
  "GetWithExpiration now k c =
     (case Load (c_items c) k of
        None \<Rightarrow> None
      | Some item \<Rightarrow>
          if sint (Expiration item) > 0
          then if sint (UnixNano now) > sint (Expiration item) then None
               else Some (Object item, Some (Expiration item))
          else Some (Object item, None))"

definition delete_item :: "string \<Rightarrow> 'v cache \<Rightarrow> 'v option \<times> 'v cache" where
  "delete_item k c =
     ((if c_onEvicted c then map_option Object (Load (c_items c) k) else None),
      c\<lparr>c_items := Delete k (c_items c)\<rparr>)"

definition Cache_Delete :: "string \<Rightarrow> 'v cache \<Rightarrow> (string \<times> 'v) list \<times> 'v cache" where
  "Cache_Delete k c =
     (case delete_item k c of (v, c') \<Rightarrow> ((case v of Some x \<Rightarrow> [(k, x)] | None \<Rightarrow> []), c'))"

definition expired_at :: "int \<Rightarrow> 'v Item \<Rightarrow> bool" where
  "expired_at now v \<longleftrightarrow> sint (Expiration v) > 0 \<and> sint (UnixNano now) > sint (Expiration v)"

definition DeleteExpired :: "int \<Rightarrow> 'v cache \<Rightarrow> (string \<times> 'v) list \<times> 'v cache" where
  "DeleteExpired now c =
     fold (\<lambda>(k, v) (evictedItems, c).
             if expired_at now v
             then (case delete_item k c of
                     (Some ov, c') \<Rightarrow> (evictedItems @ [(k, ov)], c')
                   | (None, c') \<Rightarrow> (evictedItems, c'))
             else (evictedItems, c))
       (c_items c) ([], c)"

definition Keys :: "'v cache \<Rightarrow> string list" where
  "Keys c = map fst (c_items c)"

definition OnEvicted :: "bool \<Rightarrow> 'v cache \<Rightarrow> 'v cache" where
  "OnEvicted f c = c\<lparr>c_onEvicted := f\<rparr>"

definition Items :: "int \<Rightarrow> 'v cache \<Rightarrow> (string, 'v Item) gomap" where
  "Items now c =
     fold (\<lambda>(k, v) m. if expired_at now v then m else Store k v m) (c_items c) []"

definition ItemCount :: "'v cache \<Rightarrow> nat" where
  "ItemCount c = length (c_items c)"

definition Flush :: "'v cache \<Rightarrow> 'v cache" where
  "Flush c = c\<lparr>c_items := []\<rparr>"

section \<open>Files\<close>

datatype 'v gobfile = Encoded "(string, 'v Item) gomap" | Undecodable

text \<open>Which of the file operations succeed.\<close>

record file_ops =
  op_mkdir :: bool
  op_create :: bool
  op_encode :: bool
  op_close :: bool

definition SaveFile :: "file_ops \<Rightarrow> 'v cache \<Rightarrow> 'v gobfile option \<Rightarrow> bool \<times> 'v gobfile option" where
  "SaveFile ops c file =
     (if \<not> op_mkdir ops \<or> \<not> op_create ops then (False, file)
      else if \<not> op_encode ops then (False, Some Undecodable)
      else (op_close ops, Some (Encoded (c_items c))))"

definition Cache_Load :: "int \<Rightarrow> 'v gobfile \<Rightarrow> 'v cache \<Rightarrow> bool \<times> 'v cache" where
  "Cache_Load now file c =
     (case file of
        Undecodable \<Rightarrow> (False, c)
      | Encoded its \<Rightarrow>
          (True, fold (\<lambda>(k, v) c.
                   case Load (c_items c) k of
                     None \<Rightarrow> c\<lparr>c_items := Store k v (c_items c)\<rparr>
                   | Some ov \<Rightarrow> if Expired now ov then c\<lparr>c_items := Store k v (c_items c)\<rparr> else c) its c))"

definition LoadFile :: "int \<Rightarrow> file_ops \<Rightarrow> 'v gobfile option \<Rightarrow> 'v cache \<Rightarrow> bool \<times> 'v cache" where
  "LoadFile now ops file c =
     (case file of
        None \<Rightarrow> (False, c)
      | Some f \<Rightarrow> (case Cache_Load now f c of (ok, c') \<Rightarrow> (ok \<and> op_close ops, c')))"

section \<open>Construction and the janitor\<close>

definition newCache :: "int64 \<Rightarrow> 'v cache" where
  "newCache de = \<lparr>defaultExpiration = (if de = 0 then - 1 else de), c_items = [], c_onEvicted = False,
                  c_janitor = None\<rparr>"

definition Cache_New :: "int64 \<Rightarrow> int64 \<Rightarrow> 'v cache" where
  "Cache_New de ci = (if sint ci > 0 then (newCache de)\<lparr>c_janitor := Some ci\<rparr> else newCache de)"

datatype janitor_event = Tick int | StopJanitor

fun janitor_Run :: "janitor_event list \<Rightarrow> 'v cache \<Rightarrow> (string \<times> 'v) list \<times> 'v cache" where
  "janitor_Run [] c = ([], c)"
| "janitor_Run (StopJanitor # es) c = ([], c)"
| "janitor_Run (Tick now # es) c =
     (case DeleteExpired now c of
        (evs, c') \<Rightarrow> (case janitor_Run es c' of (evs', c'') \<Rightarrow> (evs @ evs', c'')))"

section \<open>Lemmas\<close>

named_theorems cache_defs

lemmas [cache_defs] = Cache_Set_def set_item_def SetDefault_def Cache_Get_def GetWithExpiration_def
  get_item_def delete_item_def expired_at_def OnEvicted_def ItemCount_def Flush_def

text \<open>\<open>set\<close> and its inlining in \<open>Set\<close> are the same function.\<close>

lemma Cache_Set_eq: "Cache_Set now k x d c = set_item now k x d c"
  by (simp add: cache_defs expiration_of_def Let_def)

lemma get_item_eq: "get_item now k c = map_option fst (GetWithExpiration now k c)"
  by (simp add: cache_defs split: option.split)

definition cache_ok :: "'v cache \<Rightarrow> bool" where
  "cache_ok c \<longleftrightarrow> wf_map (c_items c)"

lemma cache_ok_ops [simp]:
  "cache_ok c \<Longrightarrow> cache_ok (set_item now k x d c)"
  "cache_ok c \<Longrightarrow> cache_ok (snd (delete_item k c))"
  "cache_ok (newCache de)" "cache_ok (Flush c)"
  by (simp_all add: cache_ok_def cache_defs newCache_def)

text \<open>The loop of \<open>DeleteExpired\<close> over a part of the items.\<close>

definition evict_step :: "int \<Rightarrow> string \<times> 'v Item \<Rightarrow> (string \<times> 'v) list \<times> 'v cache \<Rightarrow> (string \<times> 'v) list \<times> 'v cache" where
  "evict_step now = (\<lambda>(k, v) (evictedItems, c).
             if expired_at now v
             then (case delete_item k c of
                     (Some ov, c') \<Rightarrow> (evictedItems @ [(k, ov)], c')
                   | (None, c') \<Rightarrow> (evictedItems, c'))
             else (evictedItems, c))"

lemma filter_Delete:
  "wf_map m \<Longrightarrow> Delete k m = filter (\<lambda>(k', _). k' \<noteq> k) m"
  by (induction m) (auto simp: Delete_def)

lemma evict_loop:
  assumes "wf_map its" and "wf_map (c_items c)" and "set its \<subseteq> set (c_items c)"
  shows "fold (evict_step now) its (evs, c) =
    (evs @ (if c_onEvicted c then map (\<lambda>(k, v). (k, Object v)) (filter (expired_at now \<circ> snd) its) else []),
     c\<lparr>c_items := filter (\<lambda>p. p \<notin> set (filter (expired_at now \<circ> snd) its)) (c_items c)\<rparr>)"
  using assms
proof (induction its arbitrary: evs c)
  case Nil
  then show ?case by simp
next
  case (Cons kv its)
  obtain k v where kv: "kv = (k, v)" by (cases kv)
  show ?case
  proof (cases "expired_at now v")
    case False
    then show ?thesis using Cons.IH[of c evs] Cons.prems kv
      by (simp add: evict_step_def)
  next
    case True
    define c' where "c' = c\<lparr>c_items := Delete k (c_items c)\<rparr>"
    have l: "Load (c_items c) k = Some v" using Cons.prems kv by (simp add: Load_Some_iff)
    have del: "delete_item k c = (if c_onEvicted c then Some (Object v) else None, c')"
      by (simp add: delete_item_def l c'_def)
    have its': "Delete k (c_items c) = filter (\<lambda>p. p \<noteq> (k, v)) (c_items c)"
      using Cons.prems(2) kv Cons.prems(3)
      by (auto simp: filter_Delete intro!: filter_cong dest: eq_key_imp_eq_value)
    have sub: "set its \<subseteq> set (c_items c')"
      using Cons.prems kv by (auto simp: c'_def its' image_iff)
    have "fold (evict_step now) (kv # its) (evs, c) =
        fold (evict_step now) its (evs @ (if c_onEvicted c then [(k, Object v)] else []), c')"
      using True by (simp add: kv evict_step_def del)
    also have "\<dots> = (evs @ (if c_onEvicted c then [(k, Object v)] else []) @
        (if c_onEvicted c' then map (\<lambda>(k, v). (k, Object v)) (filter (expired_at now \<circ> snd) its) else []),
       c'\<lparr>c_items := filter (\<lambda>p. p \<notin> set (filter (expired_at now \<circ> snd) its)) (c_items c')\<rparr>)"
      using Cons.IH[of c'] Cons.prems sub by (simp add: c'_def)
    finally show ?thesis
      using True by (auto simp: c'_def its' kv intro!: filter_cong)
  qed
qed

lemma DeleteExpired_eq:
  assumes "cache_ok c"
  shows "DeleteExpired now c =
    ((if c_onEvicted c then map (\<lambda>(k, v). (k, Object v)) (filter (expired_at now \<circ> snd) (c_items c)) else []),
     c\<lparr>c_items := filter (\<lambda>p. \<not> expired_at now (snd p)) (c_items c)\<rparr>)"
proof -
  have "DeleteExpired now c = fold (evict_step now) (c_items c) ([], c)"
    by (simp add: DeleteExpired_def evict_step_def)
  also have "\<dots> = ([] @ (if c_onEvicted c then map (\<lambda>(k, v). (k, Object v)) (filter (expired_at now \<circ> snd) (c_items c)) else []),
     c\<lparr>c_items := filter (\<lambda>p. p \<notin> set (filter (expired_at now \<circ> snd) (c_items c))) (c_items c)\<rparr>)"
    using evict_loop[of "c_items c" c] assms by (simp add: cache_ok_def)
  also have "filter (\<lambda>p. p \<notin> set (filter (expired_at now \<circ> snd) (c_items c))) (c_items c) =
      filter (\<lambda>p. \<not> expired_at now (snd p)) (c_items c)"
    by (rule filter_cong) auto
  finally show ?thesis by simp
qed


lemma cache_ok_DeleteExpired: "cache_ok c \<Longrightarrow> cache_ok (snd (DeleteExpired now c))"
  by (simp add: DeleteExpired_eq cache_ok_def distinct_map_filter)


lemma sint_UnixNano: "- (2 ^ 63) \<le> t \<Longrightarrow> t < 2 ^ 63 \<Longrightarrow> sint (UnixNano t) = t"
  by (simp add: UnixNano_def sint_sbintrunc' signed_take_bit_int_eq_self)

section \<open>Properties\<close>



text \<open>
  What \<open>Set\<close> stored is found by \<open>GetWithExpiration\<close> up to and including its deadline and not
  after it; \<open>Get\<close> ignores the deadline and finds it forever.
\<close>

theorem cache_set_deadline:
  assumes "0 < sint d" and "0 \<le> now" and "now \<le> t" and "t < 2 ^ 63" and "now + sint d < 2 ^ 63"
  shows "GetWithExpiration t k (Cache_Set now k x d c) =
      (if t \<le> now + sint d then Some (x, Some (UnixNano (now + sint d))) else None) \<and>
    Cache_Get k (Cache_Set now k x d c) = Some x"
proof -
  have "d \<noteq> 0" using assms(1) by auto
  then show ?thesis
    using assms by (simp add: cache_defs Let_def DefaultExpiration_def sint_UnixNano)
qed

theorem cache_set_deadline_witness:
  "GetWithExpiration 106 ''a'' (Cache_Set 100 ''a'' (7 :: nat) 5 (Cache_New 10 NoCleanup)) = None \<and>
   GetWithExpiration 105 ''a'' (Cache_Set 100 ''a'' (7 :: nat) 5 (Cache_New 10 NoCleanup)) = Some (7, Some 105)"
  using cache_set_deadline[of 5 100 106 "''a''" "7 :: nat" "Cache_New 10 NoCleanup"]
    cache_set_deadline[of 5 100 105 "''a''" "7 :: nat" "Cache_New 10 NoCleanup"]
  by (simp add: UnixNano_def)

text \<open>A cache saved and loaded into a fresh one has the same items.\<close>

lemma load_fold:
  assumes "wf_map its" and "\<forall>k \<in> fst ` set its. Load (c_items c) k = None"
  shows "fold (\<lambda>(k, v) c. case Load (c_items c) k of
                     None \<Rightarrow> c\<lparr>c_items := Store k v (c_items c)\<rparr>
                   | Some ov \<Rightarrow> if Expired now ov then c\<lparr>c_items := Store k v (c_items c)\<rparr> else c) its c
    = c\<lparr>c_items := c_items c @ its\<rparr>"
  using assms
proof (induction its arbitrary: c)
  case (Cons kv its)
  obtain k v where kv: "kv = (k, v)" by (cases kv)
  have "Store k v (c_items c) = c_items c @ [(k, v)]"
    using Cons.prems kv by (intro set_Store_fresh) (simp add: Load_None_iff)
  moreover have "Load (c_items c) k = None" using Cons.prems kv by simp
  moreover have "\<forall>k' \<in> fst ` set its. Load (c_items c @ [(k, v)]) k' = None"
    using Cons.prems kv by (auto simp: Load_None_iff)
  ultimately show ?case
    using Cons.IH[of "c\<lparr>c_items := c_items c @ [(k, v)]\<rparr>"] Cons.prems kv by simp
qed simp

lemma load_save_roundtrip:
  assumes "cache_ok c" and "SaveFile ops c file = (True, f)"
  shows "LoadFile now ops f (newCache de) = (True, (newCache de)\<lparr>c_items := c_items c\<rparr>)"
proof -
  have f: "f = Some (Encoded (c_items c))" "op_close ops"
    using assms(2) by (auto simp: SaveFile_def split: if_splits)
  show ?thesis
    using assms(1) load_fold[of "c_items c" "newCache de" now]
    by (simp add: LoadFile_def f Cache_Load_def newCache_def cache_ok_def)
qed

end
