(* ===== verification/Dynconfig.thy ===== *)
theory Dynconfig
  imports Supervisor_Model Cache
begin

text \<open>
  \<open>internal/dynconfig\<close> and \<open>scheduler/config/dynconfig.go\<close>: the dynamic configuration of the
  scheduler, its sources (the manager, cached in memory and in a file, or a local file, or a
  directory of CDN descriptions) and its observers. The configuration directory is the list of its entries in the order in which
  \<open>os.ReadDir\<close> gives them. The decoders (\<open>encoding/json\<close>, \<open>mapstructure\<close>, YAML) and the
  answers of the manager are parameters.
\<close>

section \<open>Configuration data\<close>

record CDNClusterConfig =
  cc_LoadLimit :: uint32
  cc_NetTopology :: string

record CDNNode =
  cn_ID :: nat
  cn_HostName :: string
  cn_IP :: string
  cn_Port :: int32
  cn_DownloadPort :: int32
  cn_SecurityGroup :: string
  cn_Location :: string
  cn_IDC :: string
  cn_CDNCluster :: "string option" \<comment> \<open>the bytes of \<open>CDNCluster.Config\<close>\<close>

record SchedulerCluster =
  sc_Config :: string
  sc_ClientConfig :: string

record DynconfigData =
  dd_CDNs :: "CDNNode option list" \<comment> \<open>pointers\<close>
  dd_SchedulerCluster :: "SchedulerCluster option"

record codecs =
  dec_cdn_cluster :: "string \<Rightarrow> CDNClusterConfig option"
  dec_scheduler_cluster :: "string \<Rightarrow> unit option"
  dec_client_config :: "string \<Rightarrow> uint32 option" \<comment> \<open>the load limit\<close>
  dec_cdn :: "string \<Rightarrow> CDNNode option option" \<comment> \<open>the JSON text null decodes to a nil pointer\<close>

definition CDN_GetCDNClusterConfig :: "codecs \<Rightarrow> CDNNode option \<Rightarrow> CDNClusterConfig option outcome" where
  "CDN_GetCDNClusterConfig cs cdn =
     (case cdn of
        None \<Rightarrow> Panic ''nil pointer dereference''
      | Some c \<Rightarrow> Ret (case cn_CDNCluster c of None \<Rightarrow> None | Some config \<Rightarrow> dec_cdn_cluster cs config))"

section \<open>\<open>internal/dynconfig\<close>\<close>

datatype SourceType = LocalSourceType | ManagerSourceType | OtherSourceType string

record 'd dynconfigManager =
  dm_cache :: "'d cache"
  dm_file :: "'d gobfile option" \<comment> \<open>the file at \<open>cachePath\<close>\<close>
  dm_expire :: int64

definition defaultCacheKey :: string where "defaultCacheKey = ''dynconfig''"

text \<open>\<open>client\<close> is the answer of the manager, None an error.\<close>

definition dynconfig_load :: "file_ops \<Rightarrow> time \<Rightarrow> 'd option \<Rightarrow> 'd dynconfigManager \<Rightarrow> bool \<times> 'd dynconfigManager" where
  "dynconfig_load ops now client d =
     (case client of
        None \<Rightarrow> (False, d)
      | Some dynconfig \<Rightarrow>
          (let c = Cache_Set now defaultCacheKey dynconfig (dm_expire d) (dm_cache d)
           in case SaveFile ops c (dm_file d) of
                (ok, f) \<Rightarrow> (ok, d\<lparr>dm_cache := c, dm_file := f\<rparr>)))"

definition newDynconfigManager ::
  "file_ops \<Rightarrow> time \<Rightarrow> 'd option \<Rightarrow> int64 \<Rightarrow> 'd gobfile option \<Rightarrow> 'd dynconfigManager option" where
  "newDynconfigManager ops now client expire file =
     (let d = \<lparr>dm_cache = Cache_New expire NoCleanup, dm_file = file, dm_expire = expire\<rparr>
      in case LoadFile now ops file (dm_cache d) of
           (True, c) \<Rightarrow> Some (d\<lparr>dm_cache := c\<rparr>)
         | (False, c) \<Rightarrow>
             (case dynconfig_load ops now client (d\<lparr>dm_cache := c\<rparr>) of
                (True, d') \<Rightarrow> Some d'
              | (False, _) \<Rightarrow> None))"

definition dynconfig_get ::
  "file_ops \<Rightarrow> time \<Rightarrow> 'd option \<Rightarrow> 'd dynconfigManager \<Rightarrow> 'd option \<times> 'd dynconfigManager" where
  "dynconfig_get ops now client d =
     (case GetWithExpiration now defaultCacheKey (dm_cache d) of
        Some (dynconfig, _) \<Rightarrow> (Some dynconfig, d)
      | None \<Rightarrow>
          (case dynconfig_load ops now client d of
             (_, d') \<Rightarrow> (Cache_Get defaultCacheKey (dm_cache d'), d')))"

text \<open>The parameters of \<open>New\<close>: which of them are set.\<close>

record Dynconfig =
  dyn_sourceType :: SourceType
  dyn_managerClient :: bool
  dyn_localConfigPath :: string
  dyn_cachePath :: string
  dyn_expire :: int64

definition validate :: "Dynconfig \<Rightarrow> string option" where
  "validate d =
     (if dyn_sourceType d = ManagerSourceType \<and> \<not> dyn_managerClient d
      then Some ''missing parameter ManagerClient, use method WithManagerClient to assign''
      else if dyn_sourceType d = ManagerSourceType \<and> dyn_cachePath d = []
      then Some ''missing parameter CachePath, use method WithCachePath to assign''
      else if dyn_sourceType d = ManagerSourceType \<and> dyn_expire d = 0
      then Some ''missing parameter Expire, use method WithExpireTime to assign''
      else if dyn_sourceType d = LocalSourceType \<and> dyn_localConfigPath d = []
      then Some ''missing parameter LocalConfigPath, use method WithLocalConfigPath to assign''
      else None)"

section \<open>The configuration directory\<close>

datatype link = NotALink | Dangling | LinkToDir | LinkToFile

record dir_file =
  df_IsDir :: bool
  df_Symlink :: link
  df_Read :: "string option" \<comment> \<open>what \<open>os.ReadFile\<close> returns\<close>

fun read_cdns :: "codecs \<Rightarrow> dir_file list \<Rightarrow> CDNNode option list \<Rightarrow> string + CDNNode option list" where
  "read_cdns cs [] data = Inr data"
| "read_cdns cs (file # files) data =
     (if df_IsDir file \<or> df_Symlink file = Dangling \<or> df_Symlink file = LinkToDir
      then read_cdns cs files data
      else case df_Read file of
             None \<Rightarrow> Inl ''read''
           | Some b \<Rightarrow>
               (case dec_cdn cs b of
                  None \<Rightarrow> Inl ''unmarshal''
                | Some s \<Rightarrow> read_cdns cs files (data @ [s])))"

definition getCDNFromDirPath :: "codecs \<Rightarrow> dir_file list option \<Rightarrow> string + CDNNode option list" where
  "getCDNFromDirPath cs readDir =
     (case readDir of None \<Rightarrow> Inl ''readdir'' | Some files \<Rightarrow> read_cdns cs files [])"

section \<open>\<open>scheduler/config/dynconfig.go\<close>\<close>

text \<open>
  \<open>d_unmarshal\<close> is what \<open>Unmarshal\<close> of the source decodes, at the top level and under the key
  \<open>dynconfig\<close>; observers are identified by numbers.
\<close>

record dynconfig =
  d_cdnDirPath :: string
  d_readDir :: "dir_file list option"
  d_sourceType :: SourceType
  d_unmarshal :: "DynconfigData option"
  d_unmarshal_local :: "DynconfigData option"
  d_observers :: "nat list"

definition dyn_Get :: "codecs \<Rightarrow> dynconfig \<Rightarrow> string + DynconfigData" where
  "dyn_Get cs d =
     (if d_cdnDirPath d \<noteq> []
      then (case getCDNFromDirPath cs (d_readDir d) of
              Inl err \<Rightarrow> Inl err
            | Inr cdns \<Rightarrow> Inr \<lparr>dd_CDNs = cdns, dd_SchedulerCluster = None\<rparr>)
      else if d_sourceType d = ManagerSourceType
      then (case d_unmarshal d of None \<Rightarrow> Inl ''unmarshal'' | Some config \<Rightarrow> Inr config)
      else (case d_unmarshal_local d of None \<Rightarrow> Inl ''unmarshal'' | Some config \<Rightarrow> Inr config))"

text \<open>The test of \<open>data.SchedulerCluster\<close> is inverted: the dereference below it is of nil.\<close>

definition GetSchedulerClusterConfig :: "codecs \<Rightarrow> dynconfig \<Rightarrow> unit option outcome" where
  "GetSchedulerClusterConfig cs d =
     (case dyn_Get cs d of
        Inl err \<Rightarrow> Ret None
      | Inr data \<Rightarrow>
          if dd_SchedulerCluster data \<noteq> None then Ret None
          else case dd_SchedulerCluster data of
                 None \<Rightarrow> Panic ''nil pointer dereference''
               | Some sc \<Rightarrow> Ret (dec_scheduler_cluster cs (sc_Config sc)))"

definition GetSchedulerClusterClientConfig :: "codecs \<Rightarrow> dynconfig \<Rightarrow> uint32 option" where
  "GetSchedulerClusterClientConfig cs d =
     (case dyn_Get cs d of
        Inl err \<Rightarrow> None
      | Inr data \<Rightarrow>
          (case dd_SchedulerCluster data of
             None \<Rightarrow> None
           | Some sc \<Rightarrow> dec_client_config cs (sc_ClientConfig sc)))"

fun find_cluster_config :: "codecs \<Rightarrow> nat \<Rightarrow> CDNNode option list \<Rightarrow> CDNClusterConfig option outcome" where
  "find_cluster_config cs i [] = Ret None"
| "find_cluster_config cs i (None # cdns) = Panic ''nil pointer dereference''"
| "find_cluster_config cs i (Some cdn # cdns) =
     (if cn_ID cdn = i
      then (case cn_CDNCluster cdn of
              None \<Rightarrow> Panic ''nil pointer dereference''
            | Some config \<Rightarrow>
                (case dec_cdn_cluster cs config of
                   Some c \<Rightarrow> Ret (Some c)
                 | None \<Rightarrow> find_cluster_config cs i cdns))
      else find_cluster_config cs i cdns)"

definition dyn_GetCDNClusterConfig :: "codecs \<Rightarrow> dynconfig \<Rightarrow> nat \<Rightarrow> CDNClusterConfig option outcome" where
  "dyn_GetCDNClusterConfig cs d i =
     (case dyn_Get cs d of Inl err \<Rightarrow> Ret None | Inr data \<Rightarrow> find_cluster_config cs i (dd_CDNs data))"

definition Register :: "nat \<Rightarrow> dynconfig \<Rightarrow> dynconfig" where
  "Register l d = d\<lparr>d_observers := List.insert l (d_observers d)\<rparr>"

definition Deregister :: "nat \<Rightarrow> dynconfig \<Rightarrow> dynconfig" where
  "Deregister l d = d\<lparr>d_observers := filter (\<lambda>o'. o' \<noteq> l) (d_observers d)\<rparr>"

text \<open>The notifications, in order: which observer gets which data.\<close>

definition Notify :: "codecs \<Rightarrow> dynconfig \<Rightarrow> string + (nat \<times> DynconfigData) list" where
  "Notify cs d =
     (case dyn_Get cs d of Inl err \<Rightarrow> Inl err | Inr config \<Rightarrow> Inr (map (\<lambda>l. (l, config)) (d_observers d)))"

section \<open>Properties\<close>

text \<open>The calls of \<open>get\<close> one after the other, each with the answers it meets.\<close>

fun dynconfig_gets :: "(file_ops \<times> time \<times> 'd option) list \<Rightarrow> 'd dynconfigManager \<Rightarrow> 'd dynconfigManager" where
  "dynconfig_gets [] d = d"
| "dynconfig_gets ((ops, now, client) # calls) d = dynconfig_gets calls (snd (dynconfig_get ops now client d))"

definition loaded :: "'d dynconfigManager \<Rightarrow> 'd option" where
  "loaded d = Cache_Get defaultCacheKey (dm_cache d)"

lemma loaded_load: "loaded (snd (dynconfig_load ops now client d)) = (case client of Some x \<Rightarrow> Some x | None \<Rightarrow> loaded d)"
  by (simp add: dynconfig_load_def loaded_def Let_def cache_defs split: option.split prod.split)

lemma GetWithExpiration_loaded: "GetWithExpiration now defaultCacheKey (dm_cache d) = Some (x, e) \<Longrightarrow> loaded d = Some x"
  by (auto simp: loaded_def cache_defs split: option.splits if_splits)

lemma dynconfig_get_cases:
  "dynconfig_get ops now client d = (loaded d, d) \<and> loaded d \<noteq> None \<or>
   dynconfig_get ops now client d =
     ((case client of Some x \<Rightarrow> Some x | None \<Rightarrow> loaded d), snd (dynconfig_load ops now client d))"
  using loaded_load[of ops now client d]
  by (auto simp: dynconfig_get_def dest: GetWithExpiration_loaded split: option.split prod.split simp flip: loaded_def)

lemma loaded_dynconfig_get: "fst (dynconfig_get ops now client d) = loaded (snd (dynconfig_get ops now client d))"
  using dynconfig_get_cases[of ops now client d] by (auto simp: loaded_load)

lemma loaded_mono: "loaded d \<noteq> None \<Longrightarrow> loaded (snd (dynconfig_get ops now client d)) \<noteq> None"
  using dynconfig_get_cases[of ops now client d] by (auto simp: loaded_load split: option.split)

lemma loaded_gets: "loaded d \<noteq> None \<Longrightarrow> loaded (dynconfig_gets calls d) \<noteq> None"
  by (induction calls d rule: dynconfig_gets.induct) (simp_all add: loaded_mono)

text \<open>
  C22. The scheduler keeps its configuration when the manager is away: once a configuration has
  been loaded, by the client or from the cache file, every later \<open>get\<close> returns a
  configuration, whether the cached one has expired or not and whatever the manager and the
  file system answer; and when the manager does not answer it is the one last loaded.
\<close>


theorem dynconfig_survives_manager:
  assumes "loaded d \<noteq> None"
  shows "fst (dynconfig_get ops now client (dynconfig_gets calls d)) \<noteq> None \<and>
    fst (dynconfig_get ops now None (dynconfig_gets calls d)) = loaded (dynconfig_gets calls d)"
  using loaded_mono[OF loaded_gets[OF assms]] dynconfig_get_cases[of ops now None "dynconfig_gets calls d"]
  by (auto simp: loaded_dynconfig_get loaded_load)

definition all_ops :: "bool \<Rightarrow> file_ops" where
  "all_ops ok = \<lparr>op_mkdir = ok, op_create = ok, op_encode = ok, op_close = ok\<rparr>"

theorem dynconfig_survives_manager_witness:
  "(case newDynconfigManager (all_ops True) 0 (Some ''cfg'') 5 None of
      Some d \<Rightarrow> fst (dynconfig_get (all_ops False) 1000 None (dynconfig_gets [(all_ops False, 100, None)] d)) \<noteq> None
    | None \<Rightarrow> False)"
proof -
  obtain d where d: "newDynconfigManager (all_ops True) 0 (Some ''cfg'') 5 None = Some d" and l: "loaded d \<noteq> None"
    by (simp add: newDynconfigManager_def LoadFile_def dynconfig_load_def SaveFile_def all_ops_def Let_def loaded_def cache_defs)
  from d conjunct1[OF dynconfig_survives_manager[OF l, of "all_ops False" 1000 None "[(all_ops False, 100, None)]"]]
  show ?thesis by (simp only: option.case simp_thms)
qed

text \<open>
  \<open>GetSchedulerClusterConfig\<close> never returns a configuration: it answers "none" when the
  dynamic configuration has a scheduler cluster, and panics on a nil pointer when it has none.
\<close>

theorem scheduler_cluster_config_never_found:
  "GetSchedulerClusterConfig cs d \<noteq> Ret (Some config) \<and>
   (GetSchedulerClusterConfig cs d = Panic ''nil pointer dereference'' \<longleftrightarrow>
     (\<exists>data. dyn_Get cs d = Inr data \<and> dd_SchedulerCluster data = None))"
  by (auto simp: GetSchedulerClusterConfig_def split: sum.split option.split)

end
