(* ===== verification/Cdn_Seeding.thy ===== *)
theory Cdn_Seeding
  imports Scheduler_Service Dynconfig
begin

text \<open>
  \<open>scheduler/supervisor/cdn.go\<close>: starting a seed task on the CDN, receiving its pieces and the
  dynamic list of CDN hosts. The CDN is a service: the stream is the sequence of messages its
  \<open>Recv\<close> returns, and a stream that has no next message blocks the receiver. The HTTP client is
  a parameter.
\<close>

section \<open>Messages and errors\<close>

record PieceSeed =
  ps_PeerId :: string
  ps_HostUuid :: string
  ps_PieceInfo :: "PieceInfo option"
  ps_Done :: bool
  ps_ContentLength :: int64
  ps_TotalPieceCount :: int32

datatype recv = RecvPiece "PieceSeed option" | RecvEOF | RecvErr error

datatype seed_error =
  ErrCDNClientUninitialized | ErrCDNRegisterFail | ErrCDNDownloadFail | ErrCDNUnknown
  | ErrCDNInvokeFail | ErrInitCDNPeerFail | ErrUnexpectedEOF TaskStatus

definition cdn_error :: "error \<Rightarrow> seed_error" where
  "cdn_error err =
     (case err of
        DfError code _ \<Rightarrow>
          if code = Code_CDNTaskRegistryFail then ErrCDNRegisterFail
          else if code = Code_CDNTaskDownloadFail then ErrCDNDownloadFail
          else ErrCDNUnknown
      | StreamError _ \<Rightarrow> ErrCDNInvokeFail)"

section \<open>CDN hosts\<close>

text \<open>\<open>dc_addrs\<close> are the addresses the gRPC client of the CDN was last given.\<close>

record cdnDynmaicClient =
  dc_data :: DynconfigData
  dc_hosts :: "(string, host_ref) gomap"
  dc_addrs :: "string list"

definition cdn_host :: "CDNClusterConfig option \<Rightarrow> CDNNode \<Rightarrow> Host" where
  "cdn_host cluster cdn =
     (let options = (case cluster of
                       Some config \<Rightarrow> [WithNetTopology (cc_NetTopology config), WithTotalUploadLoad (cc_LoadLimit config)]
                     | None \<Rightarrow> [])
      in NewCDNHost (CDNHostID (cn_HostName cdn) (cn_Port cdn)) (cn_IP cdn) (cn_HostName cdn) (cn_Port cdn)
           (cn_DownloadPort cdn) (cn_SecurityGroup cdn) (cn_Location cdn) (cn_IDC cdn) options)"

definition cdnsToHosts :: "codecs \<Rightarrow> CDNNode option list \<Rightarrow> heap \<Rightarrow> ((string, host_ref) gomap \<times> heap) outcome" where
  "cdnsToHosts cs cdns h =
     ofold (\<lambda>cdn (hosts, h).
       obind (CDN_GetCDNClusterConfig cs cdn) (\<lambda>cluster.
         case cdn of
           None \<Rightarrow> Panic ''nil pointer dereference''
         | Some c \<Rightarrow> (let (r, h1) = alloc_host (cdn_host cluster c) h
                      in Ret (Store (CDNHostID (cn_HostName c) (cn_Port c)) r hosts, h1)))) cdns ([], h)"

fun cdnsToNetAddrs :: "CDNNode option list \<Rightarrow> string list outcome" where
  "cdnsToNetAddrs [] = Ret []"
| "cdnsToNetAddrs (None # cdns) = Panic ''nil pointer dereference''"
| "cdnsToNetAddrs (Some cdn # cdns) =
     obind (cdnsToNetAddrs cdns) (\<lambda>addrs. Ret ((cn_IP cdn @ '':'' @ show_int (sint (cn_Port cdn))) # addrs))"

text \<open>\<open>dial\<close> tells whether \<open>GetClientByAddr\<close> makes a client for the addresses.\<close>

definition NewCDNDynmaicClient ::
  "codecs \<Rightarrow> (string list \<Rightarrow> bool) \<Rightarrow> (string + DynconfigData) \<Rightarrow> heap \<Rightarrow> (cdnDynmaicClient option \<times> heap) outcome" where
  "NewCDNDynmaicClient cs dial got h =
     (case got of
        Inl err \<Rightarrow> Ret (None, h)
      | Inr config \<Rightarrow>
          obind (cdnsToNetAddrs (dd_CDNs config)) (\<lambda>addrs.
            if \<not> dial addrs then Ret (None, h)
            else obind (cdnsToHosts cs (dd_CDNs config) h) (\<lambda>(hosts, h1).
                   Ret (Some \<lparr>dc_data = config, dc_hosts = hosts, dc_addrs = addrs\<rparr>, h1))))"

definition GetHost :: "cdnDynmaicClient \<Rightarrow> string \<Rightarrow> host_ref option" where
  "GetHost dc key = Load (dc_hosts dc) key"

definition OnNotify :: "codecs \<Rightarrow> DynconfigData \<Rightarrow> cdnDynmaicClient \<Rightarrow> heap \<Rightarrow> (cdnDynmaicClient \<times> heap) outcome" where
  "OnNotify cs data dc h =
     (if dc_data dc = data then Ret (dc, h)
      else obind (cdnsToHosts cs (dd_CDNs data) h) (\<lambda>(hosts, h1).
           obind (cdnsToNetAddrs (dd_CDNs data)) (\<lambda>addrs.
             Ret (dc\<lparr>dc_data := data, dc_hosts := hosts, dc_addrs := addrs\<rparr>, h1))))"

section \<open>Seeding\<close>

definition initCDNPeer ::
  "cdnDynmaicClient \<Rightarrow> time \<Rightarrow> task_ref \<Rightarrow> PieceSeed \<Rightarrow> heap \<Rightarrow> (seed_error + peer_ref) \<times> heap" where
  "initCDNPeer dc now task ps h =
     (let found = (case peerManager_Get (ps_PeerId ps) h of
                     Some peer \<Rightarrow> Some (peer, h)
                   | None \<Rightarrow>
                       (case (case hostManager_Get (ps_HostUuid ps) h of
                                Some host \<Rightarrow> Some (host, h)
                              | None \<Rightarrow> map_option (\<lambda>host. (host, hostManager_Add host h)) (GetHost dc (ps_HostUuid ps))) of
                          None \<Rightarrow> None
                        | Some (host, h1) \<Rightarrow> Some (NewPeer (ps_PeerId ps) task host now h1)))
      in case found of
           None \<Rightarrow> (Inl ErrInitCDNPeerFail, h)
         | Some (peer, h2) \<Rightarrow> (Inr peer, peerManager_Add peer (SetStatus peer PeerStatusRunning h2)))"

definition tiny_url :: "heap \<Rightarrow> task_ref \<Rightarrow> host_ref \<Rightarrow> string outcome" where
  "tiny_url h task cdnHost =
     (let taskID = t_ID (task_at h task)
      in if length taskID < 3 then Panic ''slice bounds out of range''
         else Ret (''http://'' @ h_IP (host_at h cdnHost) @ '':'' @ show_int (sint (h_DownloadPort (host_at h cdnHost)))
                   @ ''/download/'' @ take 3 taskID @ ''/'' @ taskID @ ''?peerId=scheduler''))"

definition downloadTinyFile ::
  "(string \<Rightarrow> uint8 list option) \<Rightarrow> heap \<Rightarrow> task_ref \<Rightarrow> host_ref \<Rightarrow> uint8 list option outcome" where
  "downloadTinyFile http_get h task cdnHost = obind (tiny_url h task cdnHost) (\<lambda>url. Ret (http_get url))"

text \<open>The last message: the task and the CDN peer are successful; a tiny file is fetched.\<close>

definition seed_done ::
  "(string \<Rightarrow> uint8 list option) \<Rightarrow> task_ref \<Rightarrow> peer_ref \<Rightarrow> PieceSeed \<Rightarrow> heap \<Rightarrow> heap outcome" where
  "seed_done http_get task cdnPeer ps h =
     (let h1 = upd_task task (\<lambda>t. t\<lparr>t_TotalPieceCount := ps_TotalPieceCount ps,
                                    t_ContentLength := ps_ContentLength ps\<rparr>) h;
          h2 = SetStatus cdnPeer PeerStatusSuccess (Task_SetStatus task TaskStatusSuccess h1)
      in if sint (t_ContentLength (task_at h2 task)) \<le> TinyFileSize
         then obind (downloadTinyFile http_get h2 task (p_Host (peer_at h2 cdnPeer))) (\<lambda>r.
                case r of
                  Some data \<Rightarrow>
                    if int (length data) = sint (t_ContentLength (task_at h2 task))
                    then Ret (upd_task task (\<lambda>t. t\<lparr>t_DirectPiece := data\<rparr>) h2) else Ret h2
                | None \<Rightarrow> Ret h2)
         else Ret h2)"

definition seed_init ::
  "cdnDynmaicClient \<Rightarrow> time \<Rightarrow> task_ref \<Rightarrow> PieceSeed \<Rightarrow> peer_ref option \<Rightarrow> heap
   \<Rightarrow> (seed_error + peer_ref) \<times> heap" where
  "seed_init dc now task ps cdnPeer h =
     (case cdnPeer of
        Some p \<Rightarrow> (Inr p, h)
      | None \<Rightarrow>
          (case initCDNPeer dc now task ps h of
             (Inl err, h1) \<Rightarrow> (Inl err, h1)
           | (Inr p, h1) \<Rightarrow>
               (Inr p, if \<not> CanSchedule (task_at h1 task) then Task_SetStatus task TaskStatusSeeding h1 else h1)))"

text \<open>
  The body of the loop for a message that carries a piece: an error, or the CDN peer and whether
  the task is done. \<open>initialized\<close> holds exactly when the CDN peer is set.
\<close>

definition receive_one ::
  "(string \<Rightarrow> uint8 list option) \<Rightarrow> cdnDynmaicClient \<Rightarrow> time \<Rightarrow> task_ref \<Rightarrow> PieceSeed \<Rightarrow> peer_ref option
   \<Rightarrow> heap \<Rightarrow> ((seed_error + peer_ref \<times> bool) \<times> heap) outcome" where
  "receive_one http_get dc now task ps cdnPeer h =
     (case seed_init dc now task ps cdnPeer h of
        (Inl err, h1) \<Rightarrow> Ret (Inl err, h1)
      | (Inr p, h1) \<Rightarrow>
          (let h2 = Touch p now h1
           in if ps_Done ps then obind (seed_done http_get task p ps h2) (\<lambda>h3. Ret (Inr (p, True), h3))
              else case ps_PieceInfo ps of
                     None \<Rightarrow> Panic ''nil pointer dereference''
                   | Some piece \<Rightarrow>
                       Ret (Inr (p, False), upd_task task (\<lambda>t. snd (GetOrAddPiece piece t))
                                              (UpdateProgress p (PieceNum piece + 1) 0 h2))))"

fun receivePiece ::
  "(string \<Rightarrow> uint8 list option) \<Rightarrow> cdnDynmaicClient \<Rightarrow> time \<Rightarrow> task_ref \<Rightarrow> recv list \<Rightarrow> peer_ref option
   \<Rightarrow> heap \<Rightarrow> ((seed_error + peer_ref) \<times> heap) outcome" where
  "receivePiece http_get dc now task [] cdnPeer h = Diverge"
| "receivePiece http_get dc now task (RecvEOF # stream) cdnPeer h =
     (case cdnPeer of
        Some p \<Rightarrow> if t_status (task_at h task) = TaskStatusSuccess then Ret (Inr p, h)
                  else Ret (Inl (ErrUnexpectedEOF (t_status (task_at h task))), h)
      | None \<Rightarrow> Ret (Inl (ErrUnexpectedEOF (t_status (task_at h task))), h))"
| "receivePiece http_get dc now task (RecvErr err # stream) cdnPeer h = Ret (Inl (cdn_error err), h)"
| "receivePiece http_get dc now task (RecvPiece None # stream) cdnPeer h =
     receivePiece http_get dc now task stream cdnPeer h"
| "receivePiece http_get dc now task (RecvPiece (Some ps) # stream) cdnPeer h =
     obind (receive_one http_get dc now task ps cdnPeer h) (\<lambda>(r, h1).
       case r of
         Inl err \<Rightarrow> Ret (Inl err, h1)
       | Inr (p, fin) \<Rightarrow>
           if fin then Ret (Inr p, h1) else receivePiece http_get dc now task stream (Some p) h1)"

text \<open>\<open>ObtainSeeds\<close> of the client returns a stream or an error; \<open>c.client\<close> may be nil.\<close>

definition StartSeedTask ::
  "(string \<Rightarrow> uint8 list option) \<Rightarrow> cdnDynmaicClient option \<Rightarrow> time \<Rightarrow> task_ref \<Rightarrow> (error + recv list)
   \<Rightarrow> heap \<Rightarrow> ((seed_error + peer_ref) \<times> heap) outcome" where
  "StartSeedTask http_get client now task obtained h =
     (case client of
        None \<Rightarrow> Ret (Inl ErrCDNClientUninitialized, h)
      | Some dc \<Rightarrow>
          (case obtained of
             Inl err \<Rightarrow> Ret (Inl (cdn_error err), h)
           | Inr stream \<Rightarrow> receivePiece http_get dc now task stream None h))"

end
