(* ===== verification/Service_Invariants.thy ===== *)
theory Service_Invariants
  imports Cdn_Seeding
begin

text \<open>
  The scheduler as a whole: what can happen to its state is a step relation (registrations,
  reports, events applied by the workers, retries, seeding by the CDN, garbage collection), and the
  invariant of the peer forest holds in every state the service can reach.
\<close>

section \<open>The initial state and new objects\<close>

lemma sched_inv_init: "sched_inv init_heap"
proof -
  have "upload_count init_heap r = 0" for r by (simp add: upload_count_def init_heap_def)
  moreover have "parent_rel init_heap = {}" by (simp add: parent_rel_def init_heap_def)
  ultimately show ?thesis
    by (simp add: sched_inv_def tree_inv_def wf_refs_def unique_ids_def links_def loads_def
        no_overload_def refs_inv_def hosts_inv_def init_heap_def NewClientHost_def newHost_def
        NewSortedUniqueList_def wf_acyclic)
qed

lemma upload_count_fresh_host: "hosts_inv h \<Longrightarrow> upload_count h (next_host h) = 0"
  by (auto simp: upload_count_def hosts_inv_def)

lemma sched_inv_alloc_host:
  assumes "sched_inv h" "h_CurrentUploadLoad host = 0" "unat (h_TotalUploadLoad host) < 2 ^ 31"
  shows "sched_inv (snd (alloc_host host h))"
proof -
  let ?g = "snd (alloc_host host h)"
  have hi: "hosts_inv h" using assms(1) by (simp add: sched_inv_def)
  have peers: "next_peer ?g = next_peer h" "peer_at ?g = peer_at h" "peerManager ?g = peerManager h"
    "task_at ?g = task_at h" "hostManager ?g = hostManager h" "next_host ?g = Suc (next_host h)"
    by (simp_all add: alloc_host_def)
  have par: "GetParent ?g = GetParent h" by (simp add: GetParent_def fun_eq_iff peers)
  have uc: "upload_count ?g = upload_count h" by (simp add: upload_count_def fun_eq_iff peers cong: if_cong)
  have ld: "load ?g r = (if r = next_host h then 0 else load h r)" for r
    using assms(2) by (simp add: alloc_host_def)
  have "loads ?g"
    using assms(1) upload_count_fresh_host[OF hi] by (simp add: loads_def uc ld sched_inv_def tree_inv_def)
  then have t: "tree_inv ?g"
    using assms(1) by (simp add: sched_inv_def tree_inv_def wf_refs_def unique_ids_def links_def parent_rel_def
        peers par)
  have tot: "h_TotalUploadLoad (host_at ?g r) = (if r = next_host h then h_TotalUploadLoad host
      else h_TotalUploadLoad (host_at h r))" for r by (simp add: alloc_host_def)
  have "no_overload ?g"
    using assms(1,3) upload_count_fresh_host[OF hi] by (simp add: no_overload_def uc tot sched_inv_def)
  moreover have "refs_inv ?g" using assms(1) by (simp add: sched_inv_def refs_inv_def peers)
  moreover have "hosts_inv ?g" using hi by (auto simp: hosts_inv_def peers intro: less_SucI)
  ultimately show ?thesis using t by (simp add: sched_inv_def)
qed

lemma sched_inv_hostManager:
  assumes "sched_inv h" "\<And>k r. Load m k = Some r \<Longrightarrow> r < next_host h"
  shows "sched_inv (h\<lparr>hostManager := m\<rparr>)"
proof -
  have v: "tree_view (h\<lparr>hostManager := m\<rparr>) = tree_view h" by (simp add: tree_view_def)
  show ?thesis
    using assms tree_inv_cong[OF v] no_overload_cong[OF v] by (auto simp: sched_inv_def refs_inv_def hosts_inv_def)
qed

lemma sched_inv_hostManager_Add: "sched_inv h \<Longrightarrow> r < next_host h \<Longrightarrow> sched_inv (hostManager_Add r h)"
  unfolding hostManager_Add_def
  by (rule sched_inv_hostManager) (auto simp: sched_inv_def hosts_inv_def split: if_splits)

lemma sched_inv_hostManager_Delete: "sched_inv h \<Longrightarrow> sched_inv (hostManager_Delete k h)"
  unfolding hostManager_Delete_def
  by (rule sched_inv_hostManager) (auto simp: sched_inv_def hosts_inv_def split: if_splits)

lemma sched_inv_NewPeer:
  assumes "sched_inv h" "hr < next_host h" "\<forall>r < next_peer h. p_ID (peer_at h r) \<noteq> key"
  shows "sched_inv (snd (NewPeer key t hr now h))"
proof -
  let ?g = "snd (NewPeer key t hr now h)"
  have g: "next_peer ?g = Suc (next_peer h)" "host_at ?g = host_at h" "task_at ?g = task_at h"
    "peerManager ?g = peerManager h" "hostManager ?g = hostManager h" "next_host ?g = next_host h"
    by (simp_all add: NewPeer_def)
  have old: "peer_at ?g r = peer_at h r" if "r < next_peer h" for r using that by (simp add: NewPeer_def)
  have new: "p_Host (peer_at ?g (next_peer h)) = hr" "children ?g (next_peer h) = []" by (simp_all add: NewPeer_def)
  have "upload_count ?g r = upload_count h r" for r
    using old new(2) g(1) by (simp add: upload_count_def cong: if_cong)
  then have "no_overload ?g" using assms(1) by (simp add: no_overload_def sched_inv_def g)
  moreover have "refs_inv ?g"
    using assms(1) old unfolding refs_inv_def sched_inv_def g by (metis lessThan_subset_iff less_SucI order_trans le_SucI order_refl)
  moreover have "hosts_inv ?g"
    using assms(1,2) old new(1) by (simp add: hosts_inv_def sched_inv_def g less_Suc_eq)
  ultimately show ?thesis using tree_inv_NewPeer[OF _ assms(3)] assms(1) by (simp add: sched_inv_def)
qed

lemma NewPeer_sel [simp]:
  "fst (NewPeer k t hr now h) = next_peer h"
  "next_peer (snd (NewPeer k t hr now h)) = Suc (next_peer h)"
  by (simp_all add: NewPeer_def)

lemma sched_inv_peerManager_Add:
  assumes "sched_inv h" "p < next_peer h"
  shows "sched_inv (peerManager_Add p h)"
proof -
  let ?g = "peerManager_Add p h"
  have v: "tree_view ?g = tree_view h" by simp
  have tot: "h_TotalUploadLoad (host_at ?g r) = h_TotalUploadLoad (host_at h r)" for r
    by (simp add: peerManager_Add_def Let_def Task_AddPeer_def Host_AddPeer_def)
  have "set (ul_container (t_peers (task_at ?g t))) \<subseteq> insert p (set (ul_container (t_peers (task_at h t))))" for t
    using ul_Insert_subset[of _ p "t_peers (task_at h t)"]
    by (auto simp: peerManager_Add_def Let_def Task_AddPeer_def Host_AddPeer_def)
  then have l: "set (ul_container (t_peers (task_at ?g t))) \<subseteq> {..<next_peer h}" for t
    using assms unfolding sched_inv_def refs_inv_def by blast
  have pm: "peerManager ?g = Store (p_ID (peer_at h p)) p (peerManager h)"
    by (simp add: peerManager_Add_def Let_def Task_AddPeer_def Host_AddPeer_def)
  have "refs_inv ?g"
    using assms l by (simp add: refs_inv_def pm tree_viewD(1,2)[OF v] sched_inv_def)
  moreover have "hosts_inv ?g = hosts_inv h"
    by (rule hosts_inv_cong[OF v]) (simp_all add: peerManager_Add_def Let_def Task_AddPeer_def Host_AddPeer_def)
  ultimately show ?thesis
    using assms tree_inv_cong[OF v] no_overload_cong[OF v tot] by (simp add: sched_inv_def)
qed

lemma sched_inv_NewTask: "sched_inv h \<Longrightarrow> sched_inv (snd (NewTask k url meta now h))"
proof -
  assume inv: "sched_inv h"
  let ?g = "snd (NewTask k url meta now h)"
  have v: "tree_view ?g = tree_view h" by (simp add: NewTask_def tree_view_def)
  have "refs_inv ?g"
    using inv by (auto simp: NewTask_def refs_inv_def sched_inv_def NewSortedUniqueList_def)
  moreover have "hosts_inv ?g = hosts_inv h" by (rule hosts_inv_cong[OF v]) (simp_all add: NewTask_def)
  ultimately show ?thesis
    using inv tree_inv_cong[OF v] no_overload_cong[OF v] by (simp add: sched_inv_def NewTask_def)
qed

section \<open>Registration\<close>

text \<open>Peer identifiers carry a UUID: one that is not registered has never been used.\<close>

definition id_known :: "string \<Rightarrow> heap \<Rightarrow> bool" where
  "id_known k h \<longleftrightarrow> peerManager_Get k h \<noteq> None \<or> (\<forall>r < next_peer h. p_ID (peer_at h r) \<noteq> k)"

text \<open>Load limits stay below \<open>2^31\<close> (the manager accepts at most 5000).\<close>

definition cfg_ok :: "SchedulerConfig \<Rightarrow> bool" where
  "cfg_ok cfg \<longleftrightarrow> (case ClientLoadLimit cfg of Some limit \<Rightarrow> unat limit < 2 ^ 31 | None \<Rightarrow> True)"

lemma alloc_host_sel [simp]:
  "fst (alloc_host x h) = next_host h" "next_host (snd (alloc_host x h)) = Suc (next_host h)"
  "next_peer (snd (alloc_host x h)) = next_peer h" "peer_at (snd (alloc_host x h)) = peer_at h"
  "peerManager (snd (alloc_host x h)) = peerManager h"
  by (simp_all add: alloc_host_def)

lemma hostManager_Add_sel [simp]:
  "next_host (hostManager_Add r h) = next_host h" "next_peer (hostManager_Add r h) = next_peer h"
  "peer_at (hostManager_Add r h) = peer_at h" "peerManager (hostManager_Add r h) = peerManager h"
  by (simp_all add: hostManager_Add_def)

lemma register_host_inv:
  assumes "register_host cfg ph h = (host, h')" "sched_inv h" "cfg_ok cfg"
  shows "sched_inv h'" "host < next_host h'" "next_peer h' = next_peer h" "peer_at h' = peer_at h"
    "peerManager h' = peerManager h"
proof -
  have "sched_inv h' \<and> host < next_host h' \<and> next_peer h' = next_peer h \<and> peer_at h' = peer_at h \<and> peerManager h' = peerManager h"
  proof (cases "hostManager_Get (ph_Uuid ph) h")
    case (Some r)
    with assms show ?thesis
      by (auto simp: register_host_def sched_inv_def hosts_inv_def hostManager_Get_def)
  next
    case None
    define x where "x = NewClientHost (ph_Uuid ph) (ph_Ip ph) (ph_HostName ph) (ph_RpcPort ph) (ph_DownPort ph)
      (ph_SecurityDomain ph) (ph_Location ph) (ph_Idc ph)
      (case ClientLoadLimit cfg of Some limit \<Rightarrow> [WithTotalUploadLoad limit] | None \<Rightarrow> [])"
    have x: "h_CurrentUploadLoad x = 0" "unat (h_TotalUploadLoad x) < 2 ^ 31"
      using assms(3) by (simp_all add: x_def NewClientHost_def newHost_def cfg_ok_def WithTotalUploadLoad_def split: option.splits)
    have "host = next_host h" "h' = hostManager_Add (next_host h) (snd (alloc_host x h))"
      using assms(1) None by (auto simp: register_host_def x_def Let_def alloc_host_def)
    then show ?thesis
      using sched_inv_alloc_host[OF assms(2) x] by (simp add: sched_inv_hostManager_Add)
  qed
  then show "sched_inv h'" "host < next_host h'" "next_peer h' = next_peer h" "peer_at h' = peer_at h"
    "peerManager h' = peerManager h" by auto
qed

definition service_inv :: "state \<Rightarrow> bool" where
  "service_inv s \<longleftrightarrow> sched_inv (st_heap s)"

lemma service_inv_heap [simp]: "service_inv (s\<lparr>st_heap := h\<rparr>) = sched_inv h"
  by (simp add: service_inv_def)

lemma service_inv_on_heap: "service_inv (on_heap f s) = sched_inv (f (st_heap s))"
  by (simp add: service_inv_def on_heap_def)

lemma RegisterTask_inv:
  assumes "RegisterTask cfg now req task s = Ret (peer, s')" "service_inv s" "cfg_ok cfg"
    "id_known (req_PeerId req) (st_heap s)"
  shows "service_inv s'" "peer < next_peer (st_heap s')"
proof -
  obtain ph where ph: "req_PeerHost req = Some ph"
    using assms(1) by (auto simp: RegisterTask_def split: option.splits)
  obtain host h1 where r: "register_host cfg ph (st_heap s) = (host, h1)" by fastforce
  note h1 = register_host_inv[OF r assms(2)[unfolded service_inv_def] assms(3)]
  have "service_inv s' \<and> peer < next_peer (st_heap s')"
  proof (cases "peerManager_Get (req_PeerId req) h1")
    case (Some p)
    then have "p < next_peer h1" using h1(1) by (simp add: sched_inv_def refs_inv_def peerManager_Get_def)
    with Some assms(1) ph r h1 show ?thesis by (auto simp: RegisterTask_def)
  next
    case None
    let ?g = "snd (NewPeer (req_PeerId req) task host now h1)"
    have "\<forall>r < next_peer h1. p_ID (peer_at h1 r) \<noteq> req_PeerId req"
      using assms(4) None by (simp add: id_known_def peerManager_Get_def h1)
    from sched_inv_NewPeer[OF h1(1,2) this] have g: "sched_inv (peerManager_Add (next_peer h1) ?g)"
      by (simp add: sched_inv_peerManager_Add)
    have n: "next_peer (peerManager_Add (next_peer h1) ?g) = Suc (next_peer h1)"
      by (simp add: peerManager_Add_def Let_def Task_AddPeer_def Host_AddPeer_def)
    have "peer = next_peer h1" "s' = s\<lparr>st_heap := peerManager_Add (next_peer h1) ?g\<rparr>"
      using assms(1) ph r None by (auto simp: RegisterTask_def NewPeer_def Let_def)
    with g n show ?thesis by simp
  qed
  then show "service_inv s'" "peer < next_peer (st_heap s')" by auto
qed

lemma sched_inv_taskManager [simp]: "sched_inv (h\<lparr>taskManager := m\<rparr>) = sched_inv h"
  by (rule sched_inv_cong) (simp add: sched_view_def tree_view_def)

lemma GetOrAddTask_inv:
  assumes "GetOrAddTask cfg now new s = (task, s')" "service_inv s"
  shows "service_inv s'" "next_peer (st_heap s') = next_peer (st_heap s)"
    "peer_at (st_heap s') = peer_at (st_heap s)" "peerManager (st_heap s') = peerManager (st_heap s)"
proof -
  obtain t ok s1 where r: "GetOrAddTask_read cfg now new s = ((t, ok), s1)" by (metis prod.collapse)
  have "\<exists>m. st_heap (snd (GetOrAddTask_read cfg now new s)) = (st_heap s)\<lparr>taskManager := m\<rparr>"
    by (auto simp: GetOrAddTask_read_def taskManager_GetOrAdd_def Let_def split: prod.splits)
  then obtain m where h1: "st_heap s1 = (st_heap s)\<lparr>taskManager := m\<rparr>" using r by auto
  have "s' = (if ok then s1 else GetOrAddTask_write cfg now t s1)"
    using assms(1) r by (auto simp: GetOrAddTask_def split: bool.splits)
  then show "service_inv s'" "next_peer (st_heap s') = next_peer (st_heap s)"
    "peer_at (st_heap s') = peer_at (st_heap s)" "peerManager (st_heap s') = peerManager (st_heap s)"
    using assms(2) h1
    by (auto simp: service_inv_def GetOrAddTask_write_def Let_def on_heap_def sched_inv_upd_task Task_SetStatus_def)
qed

lemma SelectParent_inv:
  assumes "evaluator (e_evaluator e)" "SelectParent e peer s = Ret (r, s')" "service_inv s" "peer < next_peer (st_heap s)"
  shows "service_inv s'"
  using assms sched_parent_ok(1)[OF assms(1), of peer "Some []" s _ _ "next_peer (st_heap s)"]
  by (auto simp: SelectParent_def obind_eq_Ret service_inv_def st_ok_def split: option.splits)

lemma RegisterPeerTask_inv:
  assumes ev: "evaluator (e_evaluator e)" and ret: "RegisterPeerTask tid cfg e req s = Ret (r, s')"
    and inv: "service_inv s" and cfg: "cfg_ok cfg" and fresh: "id_known (req_PeerId req) (st_heap s)"
  shows "service_inv s'"
proof -
  let ?id = "tid (req_Url req) (req_UrlMeta req)"
  obtain new h where n: "NewTask ?id (req_Url req) (req_UrlMeta req) (e_now e) (st_heap s) = (new, h)" by fastforce
  obtain task s1 where g: "GetOrAddTask cfg (e_now e) new (s\<lparr>st_heap := h\<rparr>) = (task, s1)" by fastforce
  have h: "sched_inv h" "next_peer h = next_peer (st_heap s)" "peer_at h = peer_at (st_heap s)"
    "peerManager h = peerManager (st_heap s)"
    using sched_inv_NewTask[of "st_heap s" ?id "req_Url req" "req_UrlMeta req" "e_now e"] inv n
    by (auto simp: service_inv_def NewTask_def)
  have s1: "service_inv s1" "id_known (req_PeerId req) (st_heap s1)"
    using GetOrAddTask_inv[OF g] h fresh by (simp_all add: id_known_def peerManager_Get_def)
  have reg: "service_inv s2 \<and> peer < next_peer (st_heap s2)"
    if "RegisterTask cfg (e_now e) req task s1 = Ret (peer, s2)" for peer s2
    using RegisterTask_inv[OF that s1(1) cfg s1(2)] by blast
  have normal: "service_inv s2" if "register_normal cfg e ?id req task s1 = Ret (r2, s2)" for r2 s2
    using that reg by (auto simp: register_normal_def obind_eq_Ret)
  have small: "service_inv s2" if rs: "register_small cfg e ?id req task s1 = Ret (r2, s2)" for r2 s2
  proof -
    obtain peer s3 x s4 where r: "RegisterTask cfg (e_now e) req task s1 = Ret (peer, s3)"
      and p: "SelectParent e peer s3 = Ret (x, s4)"
      using rs by (auto simp: register_small_def elim!: obind_RetE)
    have "s4 = s2"
      using rs by (auto simp: register_small_def r p split: sum.splits option.splits)
    with r p show ?thesis using reg SelectParent_inv[OF ev] by blast
  qed
  show ?thesis
    using ret n g s1(1) normal small
    by (auto simp: RegisterPeerTask_def Let_def obind_eq_Ret split: if_splits SizeScope.splits)
qed

section \<open>Seeding\<close>

definition dc_ok :: "cdnDynmaicClient \<Rightarrow> heap \<Rightarrow> bool" where
  "dc_ok dc h \<longleftrightarrow> (\<forall>k r. GetHost dc k = Some r \<longrightarrow> r < next_host h)"

lemma hostManager_Get_bound: "sched_inv h \<Longrightarrow> hostManager_Get k h = Some r \<Longrightarrow> r < next_host h"
  by (auto simp: sched_inv_def hosts_inv_def hostManager_Get_def)

lemma initCDNPeer_inv:
  assumes "initCDNPeer dc now task ps h = (Inr p, h')" "sched_inv h" "dc_ok dc h" "id_known (ps_PeerId ps) h"
  shows "sched_inv h'" "p < next_peer h'"
proof -
  have fin: "sched_inv (peerManager_Add q (SetStatus q PeerStatusRunning g))
      \<and> next_peer (peerManager_Add q (SetStatus q PeerStatusRunning g)) = next_peer g"
    if "sched_inv g" "q < next_peer g" for q g
    using that sched_inv_peerManager_Add[of "SetStatus q PeerStatusRunning g" q]
    by (simp add: peerManager_Add_def Let_def Task_AddPeer_def Host_AddPeer_def)
  have "sched_inv h' \<and> p < next_peer h'"
  proof (cases "peerManager_Get (ps_PeerId ps) h")
    case (Some q)
    then have "q < next_peer h" using assms(2) by (simp add: sched_inv_def refs_inv_def peerManager_Get_def)
    with Some assms(1,2) fin[of h q] show ?thesis by (auto simp: initCDNPeer_def)
  next
    case None
    then have fr: "\<forall>r < next_peer h. p_ID (peer_at h r) \<noteq> ps_PeerId ps" using assms(4) by (simp add: id_known_def)
    obtain host h1 where h1: "(case hostManager_Get (ps_HostUuid ps) h of Some host \<Rightarrow> Some (host, h)
        | None \<Rightarrow> map_option (\<lambda>host. (host, hostManager_Add host h)) (GetHost dc (ps_HostUuid ps))) = Some (host, h1)"
      using assms(1) None by (auto simp: initCDNPeer_def Let_def split: option.splits)
    then have i: "sched_inv h1" "host < next_host h1" "peer_at h1 = peer_at h" "next_peer h1 = next_peer h"
      using assms(2,3) hostManager_Get_bound[OF assms(2)]
      by (auto simp: dc_ok_def sched_inv_hostManager_Add split: option.splits)
    let ?g = "snd (NewPeer (ps_PeerId ps) task host now h1)"
    have "sched_inv ?g" using sched_inv_NewPeer[OF i(1,2)] fr i by simp
    moreover have "p = next_peer h1" "h' = peerManager_Add (next_peer h1) (SetStatus (next_peer h1) PeerStatusRunning ?g)"
      using assms(1) None h1 by (auto simp: initCDNPeer_def Let_def NewPeer_def)
    ultimately show ?thesis using fin[of ?g "next_peer h1"] by simp
  qed
  then show "sched_inv h'" "p < next_peer h'" by auto
qed

lemma initCDNPeer_Inl: "initCDNPeer dc now task ps h = (Inl err, h') \<Longrightarrow> h' = h"
  by (auto simp: initCDNPeer_def Let_def split: option.splits prod.splits)

lemma seed_init_inv:
  assumes "seed_init dc now task ps cdnPeer h = (r, h')" "sched_inv h" "dc_ok dc h" "id_known (ps_PeerId ps) h"
    "\<And>p. cdnPeer = Some p \<Longrightarrow> p < next_peer h"
  shows "sched_inv h'" "\<And>p. r = Inr p \<Longrightarrow> p < next_peer h'"
proof -
  have "sched_inv h' \<and> (\<forall>p. r = Inr p \<longrightarrow> p < next_peer h')"
  proof (cases cdnPeer)
    case (Some q)
    with assms show ?thesis by (auto simp: seed_init_def)
  next
    case None
    obtain r1 h1 where i: "initCDNPeer dc now task ps h = (r1, h1)" by fastforce
    show ?thesis
    proof (cases r1)
      case (Inl err)
      with None assms(1,2) i initCDNPeer_Inl[of dc now task ps h] show ?thesis by (auto simp: seed_init_def)
    next
      case (Inr p)
      with initCDNPeer_inv[of dc now task ps h p h1] i assms(2-4) have "sched_inv h1" "p < next_peer h1" by simp_all
      with None assms(1) i Inr show ?thesis by (auto simp: seed_init_def Task_SetStatus_def sched_inv_upd_task)
    qed
  qed
  then show "sched_inv h'" "\<And>p. r = Inr p \<Longrightarrow> p < next_peer h'" by auto
qed

lemma seed_done_inv:
  assumes "seed_done http_get task p ps h = Ret h'" "sched_inv h"
  shows "sched_inv h'"
  using assms by (auto simp: seed_done_def Let_def sched_inv_upd_task obind_eq_Ret split: if_splits option.splits)

lemma receive_one_inv:
  assumes "receive_one http_get dc now task ps cdnPeer h = Ret (r, h')" "sched_inv h" "dc_ok dc h"
    "id_known (ps_PeerId ps) h" "\<And>p. cdnPeer = Some p \<Longrightarrow> p < next_peer h"
  shows "sched_inv h'"
proof -
  obtain r1 h1 where i: "seed_init dc now task ps cdnPeer h = (r1, h1)" by fastforce
  note inv = seed_init_inv[OF i assms(2-5)]
  show ?thesis
  proof (cases r1)
    case (Inl err)
    with assms(1) i inv show ?thesis by (auto simp: receive_one_def)
  next
    case (Inr p)
    let ?h2 = "Touch p now h1"
    have h2: "sched_inv ?h2" "p < next_peer ?h2" using inv Inr by simp_all
    from assms(1) i Inr show ?thesis
      using seed_done_inv[of http_get task p ps ?h2] h2 sched_inv_UpdateProgress[OF h2]
      by (auto simp: receive_one_def Let_def obind_eq_Ret sched_inv_upd_task split: if_splits option.splits)
  qed
qed

section \<open>Garbage collection\<close>

lemma peer_gc_visit_inv: "sched_inv h \<Longrightarrow> sched_inv (peer_gc_visit cfg now e h)"
  by (auto simp: peer_gc_visit_def peer_gc_mark_def peer_gc_sweep_def Let_def sched_inv_Delete sched_inv_hostManager_Delete)

lemma peerManager_RunGC_inv: "sched_inv h \<Longrightarrow> sched_inv (peerManager_RunGC cfg now h)"
proof -
  have "sched_inv h \<Longrightarrow> sched_inv (fold (peer_gc_visit cfg now) es h)" for es
    by (induction es arbitrary: h) (simp_all add: peer_gc_visit_inv)
  then show "sched_inv h \<Longrightarrow> ?thesis" by (simp add: peerManager_RunGC_def)
qed

lemma Delete_all_inv: "sched_inv h \<Longrightarrow> sched_inv (fold (\<lambda>p. peerManager_Delete (f p)) ps h)"
  by (induction ps arbitrary: h) (simp_all add: sched_inv_Delete)

lemma task_gc_visit_inv: "sched_inv h \<Longrightarrow> sched_inv (task_gc_visit cfg now e h)"
  by (auto simp: task_gc_visit_def Let_def taskManager_Delete_def Delete_all_inv)

lemma taskManager_RunGC_inv: "sched_inv h \<Longrightarrow> sched_inv (taskManager_RunGC cfg now h)"
proof -
  have "sched_inv h \<Longrightarrow> sched_inv (fold (task_gc_visit cfg now) es h)" for es
    by (induction es arbitrary: h) (simp_all add: task_gc_visit_inv)
  then show "sched_inv h \<Longrightarrow> ?thesis" by (simp add: taskManager_RunGC_def)
qed

section \<open>Steps of the service\<close>

text \<open>The peer an event is about; seed failures are about a task.\<close>

fun event_peer :: "event \<Rightarrow> peer_ref option" where
  "event_peer (reScheduleParentEvent rs) = Some (rs_peer rs)"
| "event_peer (startReportPieceResultEvent p) = Some p"
| "event_peer (peerDownloadPieceSuccessEvent p pr) = Some p"
| "event_peer (peerDownloadPieceFailEvent p pr) = Some p"
| "event_peer (taskSeedFailEvent t) = None"
| "event_peer (peerDownloadSuccessEvent p res) = Some p"
| "event_peer (peerDownloadFailEvent p res) = Some p"
| "event_peer (peerLeaveEvent p) = Some p"

definition event_ok :: "heap \<Rightarrow> event \<Rightarrow> bool" where
  "event_ok h ev \<longleftrightarrow> (case event_peer ev of Some p \<Rightarrow> p < next_peer h | None \<Rightarrow> True)
     \<and> (case ev of peerDownloadPieceSuccessEvent p pr \<Rightarrow> piece_target_ok h p pr | _ \<Rightarrow> True)"

lemma apply_event_inv:
  assumes "evaluator (e_evaluator e)" "apply_event e ev s = Ret s'" "service_inv s" "event_ok (st_heap s) ev"
  shows "service_inv s'"
proof -
  let ?n = "next_peer (st_heap s)"
  have ok: "st_ok ?n s" using assms(3) by (simp add: st_ok_def service_inv_def)
  have p: "p < ?n" if "event_peer ev = Some p" for p using assms(4) that by (simp add: event_ok_def)
  have "st_ok ?n s'"
    using assms(1,2,4) ok p
    by (cases ev) (auto simp: event_ok_def
        intro: apply_reScheduleParent_ok apply_startReportPieceResult_ok apply_peerDownloadPieceSuccess_ok
          apply_peerDownloadPieceFail_ok apply_taskSeedFail_ok apply_peerDownloadSuccess_ok
          apply_peerDownloadFail_ok apply_peerLeave_ok)
  then show ?thesis by (simp add: st_ok_def service_inv_def)
qed

text \<open>
  One step of the service with scheduler configuration \<open>cfg\<close>, collector configuration \<open>gc\<close>,
  evaluator \<open>ev\<close> and HTTP client \<open>http\<close>; the clock and the requests are arbitrary. A message of a
  seed stream is one step, so that seeding interleaves with everything else.
\<close>

inductive service_step ::
  "SchedulerConfig \<Rightarrow> GCConfig \<Rightarrow> Evaluator \<Rightarrow> (string \<Rightarrow> uint8 list option) \<Rightarrow> state \<Rightarrow> state \<Rightarrow> bool"
  for cfg gc ev http where
  register: "RegisterPeerTask tid cfg e req s = Ret (r, s') \<Longrightarrow> e_evaluator e = ev \<Longrightarrow>
      id_known (req_PeerId req) (st_heap s) \<Longrightarrow> service_step cfg gc ev http s s'"
| report_open: "ReportPieceResult_open cfg now chan srcPid pr s = Ret (r, s') \<Longrightarrow> service_step cfg gc ev http s s'"
| report_piece: "HandlePieceResult cfg now peer pr s = Ret (r, s') \<Longrightarrow> service_step cfg gc ev http s s'"
| report_peer: "ReportPeerResult now peerId res s = (r, s') \<Longrightarrow> service_step cfg gc ev http s s'"
| leave: "LeaveTask now peerId s = (r, s') \<Longrightarrow> service_step cfg gc ev http s s'"
| event: "apply_event e evt s = Ret s' \<Longrightarrow> e_evaluator e = ev \<Longrightarrow> event_ok (st_heap s) evt \<Longrightarrow>
      service_step cfg gc ev http s s'"
| retry: "reschedule_one rs (st_heap s) = (r, h) \<Longrightarrow> service_step cfg gc ev http s (s\<lparr>st_heap := h\<rparr>)"
| seed: "receive_one http dc now task ps cdnPeer (st_heap s) = Ret (r, h) \<Longrightarrow> dc_ok dc (st_heap s) \<Longrightarrow>
      id_known (ps_PeerId ps) (st_heap s) \<Longrightarrow> (\<And>p. cdnPeer = Some p \<Longrightarrow> p < next_peer (st_heap s)) \<Longrightarrow>
      service_step cfg gc ev http s (s\<lparr>st_heap := h\<rparr>)"
| seeded: "seed_finished cfg task r s = (e, s') \<Longrightarrow> service_step cfg gc ev http s s'"
| gc_peers: "service_step cfg gc ev http s (on_heap (peerManager_RunGC gc now) s)"
| gc_tasks: "service_step cfg gc ev http s (on_heap (taskManager_RunGC gc now) s)"

lemma sched_inv_BindNewConn: "sched_inv (snd (BindNewConn p ch h)) = sched_inv h"
  by (rule sched_inv_cong) (auto simp: sched_view_def tree_view_def BindNewConn_def Let_def SetStatus_def fun_eq_iff)

lemma service_inv_Touch [simp]: "service_inv (on_heap (Touch p now) s) = service_inv s"
  by (simp add: service_inv_def on_heap_def)

lemma HandlePieceResult_inv: "HandlePieceResult cfg now p pr s = Ret (r, s') \<Longrightarrow> service_inv s \<Longrightarrow> service_inv s'"
  by (auto simp: HandlePieceResult_def Let_def split: if_splits)

lemma ReportPieceResult_open_inv:
  assumes "ReportPieceResult_open cfg now chan srcPid pr s = Ret (r, s')" "service_inv s"
  shows "service_inv s'"
proof (cases "GetPeer srcPid s")
  case None
  with assms show ?thesis by (simp add: ReportPieceResult_open_def)
next
  case (Some p)
  obtain c h1 where b: "BindNewConn p chan (st_heap s) = (c, h1)" by fastforce
  then have "sched_inv h1"
    using sched_inv_BindNewConn[of p chan "st_heap s"] assms(2) by (simp add: service_inv_def)
  with Some assms b show ?thesis
    by (auto simp: ReportPieceResult_open_def obind_eq_Ret split: if_splits
        dest: HandlePieceResult_inv)
qed

lemma reschedule_one_inv: "reschedule_one rs h = (r, h') \<Longrightarrow> sched_inv h \<Longrightarrow> sched_inv h'"
  by (auto simp: reschedule_one_def Let_def split: if_splits)

lemma service_step_inv:
  assumes "service_step cfg gc ev http s s'" "service_inv s" "evaluator ev" "cfg_ok cfg"
  shows "service_inv s'"
  using assms
proof (induction rule: service_step.induct)
  case (register tid e req s r s')
  then show ?case by (auto intro: RegisterPeerTask_inv)
next
  case (report_open now chan srcPid pr s r s')
  then show ?case by (auto intro: ReportPieceResult_open_inv)
next
  case (report_piece now peer pr s r s')
  then show ?case by (auto intro: HandlePieceResult_inv)
next
  case (report_peer now peerId res s r s')
  then show ?case
    by (auto simp: ReportPeerResult_def HandlePeerResult_def split: option.splits)
next
  case (leave now peerId s r s')
  then show ?case
    by (auto simp: LeaveTask_def HandleLeaveTask_def split: option.splits)
next
  case (event e evt s s')
  then show ?case by (auto intro: apply_event_inv)
next
  case (retry rs s r h)
  then show ?case using reschedule_one_inv by (simp add: service_inv_def)
next
  case (seed dc now task ps cdnPeer s r h)
  then show ?case using receive_one_inv[of http dc now task ps cdnPeer "st_heap s" r h] by (simp add: service_inv_def)
next
  case (seeded task r s e s')
  then show ?case
    by (auto simp: seed_finished_def service_inv_def on_heap_def sched_inv_upd_task split: sum.splits)
next
  case (gc_peers s now)
  then show ?case by (simp add: on_heap_def service_inv_def peerManager_RunGC_inv)
next
  case (gc_tasks s now)
  then show ?case by (simp add: on_heap_def service_inv_def taskManager_RunGC_inv)
qed

lemma service_reachable_inv:
  assumes "(service_step cfg gc ev http)\<^sup>*\<^sup>* (NewSchedulerService disable) s" "evaluator ev" "cfg_ok cfg"
  shows "service_inv s"
  using assms(1)
proof (induction rule: rtranclp_induct)
  case base
  show ?case by (simp add: service_inv_def NewSchedulerService_def sched_inv_init)
next
  case (step s t)
  then show ?case using service_step_inv assms(2,3) by blast
qed

end
