(* ===== verification/Demo.thy ===== *)
theory Demo
  imports Service_Invariants
begin

text \<open>
  A small concrete state of the scheduler, at which the properties are instantiated: a CDN host
  and a client host, a task being seeded, the CDN's peer with three pieces and a client's peer.
\<close>

definition demo_cdn_host :: Host where
  "demo_cdn_host = NewCDNHost ''cdn'' ''10.0.0.1'' ''c'' 8003 8001 [] [] [] []"

definition demo_client_host :: Host where
  "demo_client_host = NewClientHost ''client'' ''10.0.0.2'' ''d'' 65000 65002 [] [] [] []"

definition demo_base :: heap where
  "demo_base = Task_SetStatus 0 TaskStatusSeeding (snd (NewTask ''task'' ''http://u'' None 0
     (snd (alloc_host demo_client_host (snd (alloc_host demo_cdn_host init_heap))))))"

definition add_peer :: "string \<Rightarrow> host_ref \<Rightarrow> heap \<Rightarrow> heap" where
  "add_peer k hr h = (case NewPeer k 0 hr 0 h of (p, h1) \<Rightarrow> peerManager_Add p (SetStatus p PeerStatusRunning h1))"

text \<open>Peer 0 is the CDN's, peer 1 the client's.\<close>

definition demo_heap :: heap where
  "demo_heap = UpdateProgress 0 3 0 (add_peer ''b'' 1 (add_peer ''a'' 0 demo_base))"

definition demo_state :: state where
  "demo_state = \<lparr>st_heap = demo_heap, st_wait = [], st_seeds = [], st_cdn = True\<rparr>"

text \<open>Peer 1 downloads from peer 0.\<close>

definition demo_linked :: heap where
  "demo_linked = ReplaceParent 1 (Some 0) demo_heap"

lemmas demo_defs = demo_heap_def demo_base_def add_peer_def demo_cdn_host_def demo_client_host_def
  init_heap_def NewCDNHost_def NewClientHost_def newHost_def alloc_host_def NewTask_def NewPeer_def
  Task_SetStatus_def SetStatus_def peerManager_Add_def Host_AddPeer_def Task_AddPeer_def UpdateProgress_def
  SetPieceCosts_def Task_UpdatePeer_def Let_def NewSortedUniqueList_def ul_Insert_def

lemma sched_inv_add_peer:
  assumes "sched_inv h" "hr < next_host h" "\<forall>r < next_peer h. p_ID (peer_at h r) \<noteq> k"
  shows "sched_inv (add_peer k hr h)"
proof -
  let ?g = "snd (NewPeer k 0 hr 0 h)"
  have "sched_inv (SetStatus (next_peer h) PeerStatusRunning ?g)" using sched_inv_NewPeer[OF assms] by simp
  then show ?thesis
    using sched_inv_peerManager_Add[of _ "next_peer h"] by (simp add: add_peer_def NewPeer_def)
qed

lemma demo_base_facts: "sched_inv demo_base" "next_host demo_base = 2" "next_peer demo_base = 0"
proof -
  have "sched_inv (snd (alloc_host demo_client_host (snd (alloc_host demo_cdn_host init_heap))))"
    by (intro sched_inv_alloc_host sched_inv_init)
       (simp_all add: demo_client_host_def demo_cdn_host_def NewClientHost_def NewCDNHost_def newHost_def)
  then show "sched_inv demo_base" by (simp add: demo_base_def sched_inv_NewTask)
qed (simp_all add: demo_base_def Task_SetStatus_def NewTask_def alloc_host_def init_heap_def)

lemma add_peer_facts [simp]:
  "next_host (add_peer k hr h) = next_host h" "next_peer (add_peer k hr h) = Suc (next_peer h)"
  "p_ID (peer_at (add_peer k hr h) r) = (if r = next_peer h then k else p_ID (peer_at h r))"
  by (simp_all add: add_peer_def NewPeer_def peerManager_Add_def SetStatus_def Let_def Host_AddPeer_def Task_AddPeer_def)

lemma demo_inv: "sched_inv demo_heap" "next_peer demo_heap = 2"
proof -
  have "sched_inv (add_peer ''b'' 1 (add_peer ''a'' 0 demo_base))"
    by (intro sched_inv_add_peer) (simp_all add: demo_base_facts)
  then show "sched_inv demo_heap" by (simp add: demo_heap_def sched_inv_UpdateProgress)
qed (simp add: demo_heap_def demo_base_facts)

text \<open>The peers, the task, the hosts and the manager of the state, evaluated.\<close>

lemma demo_peers:
  "peer_at demo_heap 0 = \<lparr>p_ID = ''a'', p_Task = 0, p_Host = 0, p_TotalPieceCount = 3, p_CreateAt = 0,
     p_lastAccessAt = 0, p_parent = None, p_children = [], p_status = PeerStatusRunning, p_pieceCosts = [0],
     p_conn = None, p_leave = False\<rparr>"
  "peer_at demo_heap (Suc 0) = \<lparr>p_ID = ''b'', p_Task = 0, p_Host = 1, p_TotalPieceCount = 0, p_CreateAt = 0,
     p_lastAccessAt = 0, p_parent = None, p_children = [], p_status = PeerStatusRunning, p_pieceCosts = [],
     p_conn = None, p_leave = False\<rparr>"
  by (simp_all add: demo_defs)

lemma demo_manager: "peerManager demo_heap = [(''a'', 0), (''b'', 1)]"
  by (simp add: demo_defs Store_def)

lemma demo_hosts: "h_IsCDN (host_at demo_heap 0)" "\<not> h_IsCDN (host_at demo_heap (Suc 0))"
  "h_TotalUploadLoad (host_at demo_heap 0) = 100" "h_CurrentUploadLoad (host_at demo_heap 0) = 0"
  by (simp_all add: demo_defs)

lemma demo_client_total: "h_TotalUploadLoad (host_at demo_heap (Suc 0)) = 100"
  by (simp add: demo_defs)

lemma demo_task: "t_status (task_at demo_heap 0) = TaskStatusSeeding"
  "t_TotalPieceCount (task_at demo_heap 0) = 0" "t_ID (task_at demo_heap 0) = ''task''"
  by (simp_all add: demo_defs)

lemma demo_back: "t_backToSourcePeers (task_at demo_heap 0) = []"
  by (simp add: demo_defs)

lemma demo_weight: "t_BackToSourceWeight (task_at demo_heap 0) = 0"
  by (simp add: demo_defs)

lemma demo_task_list: "set (ul_container (t_peers (task_at demo_heap 0))) = {0, Suc 0}"
  by (auto simp: demo_defs)

lemma demo_task_distinct: "distinct (ul_container (t_peers (task_at demo_heap 0)))"
proof (rule card_distinct)
  show "card (set (ul_container (t_peers (task_at demo_heap 0)))) = length (ul_container (t_peers (task_at demo_heap 0)))"
    unfolding demo_task_list by (simp add: demo_defs set_New_def set_Add_def)
qed

lemmas demo_facts = demo_inv demo_peers demo_task demo_task_list demo_hosts demo_manager

lemma demo_climb: "IsDescendant demo_heap 0 (Suc 0) = Some False"
  by (simp add: IsDescendant_def isDescendant_def isDescendant_loop.simps GetParent_def demo_facts)

lemma demo_not_left: "\<not> IsLeave demo_heap 0" "\<not> IsLeave demo_heap (Suc 0)"
  by (simp_all add: IsLeave_def demo_facts)

lemma demo_linked_facts:
  "sched_inv demo_linked" "next_peer demo_linked = 2" "GetParent demo_linked (Suc 0) = Some 0"
  "peerManager demo_linked = peerManager demo_heap" "p_ID (peer_at demo_linked r) = p_ID (peer_at demo_heap r)"
  "p_Task (peer_at demo_linked r) = p_Task (peer_at demo_heap r)"
  "IsLeave demo_linked r = IsLeave demo_heap r"
  "t_backToSourcePeers (task_at demo_linked 0) = []"
proof -
  have "0 < sint (GetFreeUploadLoad (peerHost demo_heap 0))"
    by (simp add: peerHost_def GetFreeUploadLoad_def demo_facts)
  then show "sched_inv demo_linked"
    unfolding demo_linked_def using demo_climb by (intro sched_inv_attach) (simp_all add: demo_facts)
  show "t_backToSourcePeers (task_at demo_linked 0) = []"
    by (simp add: demo_linked_def ReplaceParent_def insertChild_def SetParent_def Task_UpdatePeer_def Let_def GetParent_def demo_facts)
       (simp add: demo_defs)
qed (simp_all add: demo_linked_def demo_facts IsLeave_def)

text \<open>An instance of the statistics library: the exact mean and mean deviation.\<close>

fun f64_val :: "f64 \<Rightarrow> rat" where
  "f64_val (Fin q) = q"
| "f64_val _ = 0"

definition exact_mean :: "rat list \<Rightarrow> rat" where
  "exact_mean qs = sum_list qs / of_nat (length qs)"

definition demo_stats :: Stats where
  "demo_stats = \<lparr>LoadRawData = map f64_of_int, Mean = (\<lambda>xs. Fin (exact_mean (map f64_val xs))),
     StandardDeviation = (\<lambda>xs. Fin (exact_mean (map (\<lambda>x. \<bar>f64_val x - exact_mean (map f64_val xs)\<bar>) xs)))\<rparr>"

lemma demo_stats_ok: "stats_ok demo_stats"
  by (simp add: stats_ok_def demo_stats_def)

definition demo_cfg :: SchedulerConfig where
  "demo_cfg = \<lparr>AccessWindow = 0, BackSourceCount = 3, ClientLoadLimit = Some 100, EnablePeerHost = False\<rparr>"

definition demo_gc :: GCConfig where
  "demo_gc = \<lparr>PeerTTL = 100, PeerTTI = 50, TaskTTL = 100, TaskTTI = 50\<rparr>"

definition demo_request :: PeerTaskRequest where
  "demo_request = \<lparr>req_Url = ''http://u'', req_UrlMeta = None, req_PeerId = ''b'',
     req_PeerHost = Some \<lparr>ph_Uuid = ''client'', ph_Ip = ''10.0.0.2'', ph_RpcPort = 65000, ph_DownPort = 65002,
       ph_HostName = ''d'', ph_SecurityDomain = [], ph_Location = [], ph_Idc = []\<rparr>\<rparr>"

definition demo_env :: env where
  "demo_env = \<lparr>e_evaluator = evaluatorBase demo_stats, e_CandidateParentCount = 10, e_now = 0\<rparr>"

lemma demo_cfg_ok: "cfg_ok demo_cfg"
  by (simp add: cfg_ok_def demo_cfg_def)

end
