(* ===== verification/Scheduler_Properties.thy ===== *)
theory Scheduler_Properties
  imports Demo
begin

text \<open>
  The properties of the scheduler: its reachable states, the choice of parents and children,
  the events, registration, seeding and garbage collection.
\<close>

section \<open>Reachable states\<close>



section \<open>Choosing parents and children\<close>

lemma ScheduleParent_complete:
  assumes "stats_ok stats" and "sched_inv h" and "peer < next_peer h"
    and "\<forall>c < next_peer h. int64_costs h c \<and> 0 < h_TotalUploadLoad (peerHost h c)"
    and "0 \<le> sint (p_TotalPieceCount (peer_at h peer))"
  shows "\<exists>r h'. ScheduleParent (evaluatorBase stats) n peer blank h = Ret (r, h') \<and>
    (r \<noteq> None \<longleftrightarrow> CanSchedule (peerTask h peer) \<and> 0 < n \<and>
      (\<exists>c \<in> set (task_list h peer). parent_ok (evaluatorBase stats) h peer blank c))"
proof -
  have t: "tree_inv h" using assms(2) by (simp add: sched_inv_def)
  have tl: "c < next_peer h" if "c \<in> set (task_list h peer)" for c
    using refs_inv_task_list that assms(2) by (auto simp: sched_inv_def)
  have "\<exists>r h'. ScheduleParent (evaluatorBase stats) n peer blank h = Ret (r, h') \<and>
    (r = None \<longleftrightarrow> \<not> (CanSchedule (peerTask h peer) \<and> 0 < n \<and>
      (\<exists>c \<in> set (task_list h peer). parent_ok (evaluatorBase stats) h peer blank c)))"
  proof (rule eb.ScheduleParent_total[OF t assms(3) tl])
    show "\<exists>b. ev_IsBadNode (evaluatorBase stats) h c = Ret b" if "c \<in> set (task_list h peer)" for c
      using IsBadNode_correct[OF assms(1)] assms(4) tl[OF that] by simp
    show "ev_Evaluate (evaluatorBase stats) h c peer (t_TotalPieceCount (peerTask h peer)) \<noteq> Ret NaN"
      if "c \<in> set (task_list h peer)" "parent_ok (evaluatorBase stats) h peer blank c" for c
      using Evaluate_not_NaN[of h peer c] assms(4,5) tl[OF that(1)] that(2) by (simp add: parent_ok_def)
  qed
  then show ?thesis by blast
qed

lemma demo_eligible:
  "parent_ok (evaluatorBase demo_stats) demo_heap (Suc 0) (Some []) 0"
  by (simp add: parent_ok_def blank_Has_def demo_climb demo_facts IsLeave_def IsWaiting_def peerHost_def GetFreeUploadLoad_def
      IsBadNode_def IsBad_def)

lemma demo_pre:
  "\<forall>c < next_peer demo_heap. int64_costs demo_heap c \<and> 0 < h_TotalUploadLoad (peerHost demo_heap c)"
  by (auto simp: demo_facts less_2_cases_iff int64_costs_def peerHost_def demo_client_total)

lemma demo_scheduled:
  obtains p ps h' where "ScheduleParent (evaluatorBase demo_stats) 10 1 (Some []) demo_heap = Ret (Some (p, ps), h')"
proof -
  have "CanSchedule (peerTask demo_heap 1)" by (simp add: CanSchedule_def peerTask_def demo_facts)
  moreover have "0 \<in> set (task_list demo_heap 1)" by (simp add: task_list_def peerTask_def demo_facts)
  ultimately show ?thesis
    using ScheduleParent_complete[OF demo_stats_ok demo_inv(1), of 1 10 "Some []"] demo_eligible demo_pre that
    by (auto simp: demo_facts)
qed

text \<open>
  C2. \<open>ScheduleParent\<close> returns a primary parent and further candidates that are all eligible: on
  the task's list, not blanked, not bad, not leaving, not waiting, not below the peer in the
  forest, with upload capacity and with more pieces than the peer. No candidate has a better
  score than the primary. The forest and the load limits are kept; a peer that had a parent is
  moved below the primary, one without a parent is left where it is.
\<close>

theorem schedule_parent_correct:
  assumes "ScheduleParent (evaluatorBase stats) n peer blank h = Ret (Some (primary, rest), h')"
    and "sched_inv h" and "peer < next_peer h"
  shows "(\<forall>q \<in> set (primary # rest). q \<in> set (task_list h peer) \<and> parent_ok (evaluatorBase stats) h peer blank q \<and>
      (\<exists>s t. Evaluate h q peer (t_TotalPieceCount (peerTask h peer)) = Ret s \<and>
             Evaluate h primary peer (t_TotalPieceCount (peerTask h peer)) = Ret t \<and> s \<le> t)) \<and>
    sched_inv h' \<and> (if GetParent h peer = None then h' = h else GetParent h' peer = Some primary)"
proof -
  note el = eb.ScheduleParent_eligible[OF assms(1)]
  have sc: "Evaluate h q peer (t_TotalPieceCount (peerTask h peer)) = Ret (evaluator.parent_score (evaluatorBase stats) h peer q)" for q
    using eb.Evaluate_score[of stats h q peer] by (simp add: eb.parent_score_def)
  have h': "h' = with_parent peer primary h" using eb.ScheduleParent_heap[OF assms(1)] by simp
  have "if GetParent h peer = None then h' = h else GetParent h' peer = Some primary"
    by (auto simp: h' with_parent_def split: option.split)
  with el sc eb.ScheduleParent_inv(1)[OF assms] show ?thesis by auto
qed

theorem schedule_parent_correct_witness:
  "\<exists>p ps h'. ScheduleParent (evaluatorBase demo_stats) 10 1 (Some []) demo_heap = Ret (Some (p, ps), h') \<and>
     p \<in> {0, 1} \<and> sched_inv h'"
proof -
  obtain p ps h' where r: "ScheduleParent (evaluatorBase demo_stats) 10 1 (Some []) demo_heap = Ret (Some (p, ps), h')"
    by (rule demo_scheduled)
  from schedule_parent_correct[OF r demo_inv(1)] have "p \<in> {0, 1}" "sched_inv h'"
    by (auto simp: task_list_def peerTask_def demo_facts)
  with r show ?thesis by blast
qed



lemma GetParent_attach_all:
  "c \<in> set cs \<or> GetParent h c = Some q \<Longrightarrow> GetParent (fold (\<lambda>c. ReplaceParent c (Some q)) cs h) c = Some q"
  by (induction cs arbitrary: h) auto

text \<open>
  C4. \<open>ScheduleChildren\<close> hands a peer at most as many children as its host has free uploads, each
  of them eligible (running, connected, with fewer pieces, not above the peer in the forest and
  not its child yet); afterwards each has the peer as its parent, and the forest and the load
  limits are kept.
\<close>

theorem schedule_children_correct:
  assumes "ScheduleChildren (evaluatorBase stats) peer blank h = Ret (cs, h')" and "sched_inv h" and "peer < next_peer h"
  shows "(\<forall>c \<in> set cs. c \<in> set (task_list h peer) \<and> child_ok h peer blank c \<and> GetParent h c \<noteq> Some peer \<and>
      GetParent h' c = Some peer) \<and>
    int (length cs) \<le> sint (GetFreeUploadLoad (peerHost h peer)) \<and> sched_inv h'"
proof -
  note sc = eb.ScheduleChildren_cases[OF assms(1)]
  have inv: "tree_inv h" "no_overload h" using assms(2) by (simp_all add: sched_inv_def)
  have "upload_count h r \<le> unat (h_TotalUploadLoad (host_at h r))" for r using inv(2) by (simp add: no_overload_def)
  then have "0 \<le> sint (GetFreeUploadLoad (host_at h r))" for r
    using free_load_eq[of h r] inv by (simp add: tree_inv_def) (metis of_nat_le_iff unat_eq_nat_uint nat_uint_eq uint_nat)
  then have "0 \<le> sint (GetFreeUploadLoad (peerHost h peer))" by (simp add: peerHost_def)
  with sc GetParent_attach_all[of _ cs h peer] eb.ScheduleChildren_inv(1)[OF assms] show ?thesis by auto
qed

text \<open>The client's peer with an open stream.\<close>

definition demo_conn :: heap where
  "demo_conn = snd (BindNewConn 1 (newChannel True False) demo_heap)"

lemma demo_conn_facts:
  "sched_inv demo_conn" "next_peer demo_conn = 2" "host_at demo_conn = host_at demo_heap" "task_at demo_conn = task_at demo_heap"
  "peer_at demo_conn 0 = peer_at demo_heap 0" "peer_at demo_conn (Suc 0) = (peer_at demo_heap 1)\<lparr>p_conn := Some 0\<rparr>"
  "chan_at demo_conn 0 = newChannel True False"
  using demo_inv sched_inv_BindNewConn[of 1 "newChannel True False" demo_heap]
  by (simp_all add: demo_conn_def BindNewConn_def Let_def demo_facts) (simp_all add: demo_defs)

lemma demo_child_filter:
  "x \<in> {0, Suc 0} \<Longrightarrow> child_filter (evaluatorBase demo_stats) demo_conn 0 (Some []) x = Ret (x = Suc 0)"
  by (auto simp: child_filter_def blank_Has_def demo_conn_facts demo_facts IsDone_def IsLeave_def IsWaiting_def IsAncestor_def
      isDescendant_def isDescendant_loop.simps GetParent_def peerHost_def IsConnected_def newChannel_def)

lemma filter_one: "distinct xs \<Longrightarrow> x \<in> set xs \<Longrightarrow> filter (\<lambda>y. y = x) xs = [x]"
  by (induction xs) (auto simp: filter_empty_conv)

lemma demo_children:
  obtains h' where "ScheduleChildren (evaluatorBase demo_stats) 0 (Some []) demo_conn = Ret ([1], h')"
proof -
  let ?t = "task_at demo_heap 0" and ?s = "evaluator.score (evaluatorBase demo_stats) demo_conn 0 1 0"
  have free: "GetFreeUploadLoad (peerHost demo_conn 0) = 100"
    by (simp add: peerHost_def GetFreeUploadLoad_def demo_conn_facts demo_facts)
  have t: "peerTask demo_conn 0 = ?t" by (simp add: peerTask_def demo_conn_facts demo_facts)
  have "Pick 200 (child_filter (evaluatorBase demo_stats) demo_conn 0 (Some [])) ?t =
      Ret (take 200 (filter (\<lambda>x. x = Suc 0) (ul_container (t_peers ?t))))"
    using Pick_correct[of ?t "child_filter (evaluatorBase demo_stats) demo_conn 0 (Some [])" "\<lambda>x. x = Suc 0" 200]
      demo_child_filter by (simp add: demo_task_list)
  also have "\<dots> = Ret [1]" by (simp add: filter_one demo_task_distinct demo_task_list)
  finally have sel: "selectCandidateChildren (evaluatorBase demo_stats) demo_conn 0 200 (Some []) = Ret [1]"
    by (simp add: selectCandidateChildren_def t)
  have bad: "IsBadNode demo_stats demo_conn 0 = Ret False" and par: "GetParent demo_conn (Suc 0) = None"
    by (simp_all add: IsBadNode_def IsBad_def demo_conn_facts demo_facts peerHost_def GetParent_def)
  have ev: "Evaluate demo_conn 0 1 0 = Ret ?s" using eb.Evaluate_score[of demo_stats demo_conn 0 1 0] by simp
  moreover have "Evaluate demo_conn 0 1 0 \<noteq> Ret NaN"
    by (rule Evaluate_not_NaN) (simp_all add: demo_conn_facts demo_facts peerHost_def)
  ultimately have "?s \<noteq> NaN" by auto
  then have "ScheduleChildren (evaluatorBase demo_stats) 0 (Some []) demo_conn =
      Ret ([1], ReplaceParent 1 (Some 0) demo_conn)"
    using ev by (simp add: ScheduleChildren_def sel free t bad par demo_task(2) Let_def
        eval_loop_def eval_append_def eval_lookup_def ranked_def Store_def)
  with that show ?thesis by blast
qed

theorem schedule_children_correct_witness:
  "\<exists>h'. ScheduleChildren (evaluatorBase demo_stats) 0 (Some []) demo_conn = Ret ([1], h') \<and> GetParent h' 1 = Some 0 \<and> sched_inv h'"
proof -
  obtain h' where r: "ScheduleChildren (evaluatorBase demo_stats) 0 (Some []) demo_conn = Ret ([1], h')"
    by (rule demo_children)
  from schedule_children_correct[OF r demo_conn_facts(1)] r show ?thesis by (auto simp: demo_conn_facts)
qed

section \<open>Scores\<close>

text \<open>
  C17. The score of a parent for a child is a number between 0 and 1 whenever the parent has at
  most as many pieces as the task and its host is within its load limit, with the rounding
  of every floating point operation taken into account.
\<close>

theorem evaluate_between_0_and_1:
  assumes "0 < sint n" and "0 \<le> sint (p_TotalPieceCount (peer_at h p))" and "sint (p_TotalPieceCount (peer_at h p)) \<le> sint n"
    and "h_CurrentUploadLoad (peerHost h p) \<le> h_TotalUploadLoad (peerHost h p)" and "0 < h_TotalUploadLoad (peerHost h p)"
  shows "\<exists>s. Evaluate h p c n = Ret (Fin s) \<and> 0 \<le> s \<and> s \<le> 1"
  using assms by (rule Evaluate_unit)

theorem evaluate_between_0_and_1_witness: "\<exists>s. Evaluate demo_heap 0 1 8 = Ret (Fin s) \<and> 0 \<le> s \<and> s \<le> 1"
  by (rule evaluate_between_0_and_1) (simp_all add: demo_facts peerHost_def)

text \<open>
  Of two peers on the same host the one with more pieces never gets the lower score.
\<close>

theorem evaluate_prefers_more_pieces:
  assumes "0 < sint n" and "0 \<le> sint (p_TotalPieceCount (peer_at h p))"
    and "sint (p_TotalPieceCount (peer_at h p)) \<le> sint (p_TotalPieceCount (peer_at h q))"
    and "p_Host (peer_at h p) = p_Host (peer_at h q)"
    and "h_CurrentUploadLoad (peerHost h p) \<le> h_TotalUploadLoad (peerHost h p)" and "0 < h_TotalUploadLoad (peerHost h p)"
  shows "\<exists>s t. Evaluate h p c n = Ret s \<and> Evaluate h q c n = Ret t \<and> s \<le> t"
  using assms by (rule Evaluate_mono_pieces)

text \<open>The demo state with a second peer on the CDN's host.\<close>

definition demo_two :: heap where
  "demo_two = add_peer ''c'' 0 demo_heap"

theorem evaluate_prefers_more_pieces_witness:
  "\<exists>s t. Evaluate demo_two 2 1 8 = Ret s \<and> Evaluate demo_two 0 1 8 = Ret t \<and> s \<le> t"
proof (rule evaluate_prefers_more_pieces)
qed (simp_all add: demo_two_def add_peer_def NewPeer_def SetStatus_def peerManager_Add_def Host_AddPeer_def
    Task_AddPeer_def Let_def demo_facts peerHost_def)



section \<open>Equal scores\<close>

text \<open>
  Candidates with equal scores are returned more than once: for two of them \<open>ScheduleParent\<close>
  returns both twice, because each score's group is appended once for every candidate
  that has it.
\<close>

theorem equal_scores_duplicate_parents:
  assumes "selectCandidateParents (evaluatorBase stats) h peer n blank = Ret [a, b]"
    and "Evaluate h a peer (t_TotalPieceCount (peerTask h peer)) = Ret (Fin s)"
    and "Evaluate h b peer (t_TotalPieceCount (peerTask h peer)) = Ret (Fin s)"
  shows "\<exists>h'. ScheduleParent (evaluatorBase stats) n peer blank h = Ret (Some (a, [b, a, b]), h')"
proof -
  have sc: "evaluator.parent_score (evaluatorBase stats) h peer x = Fin s" if "x \<in> {a, b}" for x
    using eb.Evaluate_score[of stats h x peer] assms(2,3) that by (auto simp: eb.parent_score_def)
  then have "ranking (evaluator.parent_score (evaluatorBase stats) h peer) [a, b] = [[a, b], [a, b]]"
    by (simp add: ranking_def)
  then show ?thesis by (simp add: eb.ScheduleParent_eq[OF assms(1)])
qed

text \<open>The second peer on the CDN's host has as many pieces as the first.\<close>

definition demo_tie :: heap where
  "demo_tie = upd_task 0 (\<lambda>t. t\<lparr>t_TotalPieceCount := 8\<rparr>) (UpdateProgress 2 3 0 demo_two)"

lemma demo_tie_inv: "sched_inv demo_tie" "next_peer demo_tie = 3"
proof -
  have h: "next_host demo_heap = 2" by (simp add: demo_heap_def demo_base_facts)
  have "sched_inv demo_two"
    unfolding demo_two_def by (intro sched_inv_add_peer) (auto simp: demo_facts h less_2_cases_iff)
  moreover have "next_peer demo_two = 3" by (simp add: demo_two_def demo_inv)
  ultimately show "sched_inv demo_tie" "next_peer demo_tie = 3"
    by (simp_all add: demo_tie_def sched_inv_upd_task sched_inv_UpdateProgress)
qed

lemmas tie_defs = demo_tie_def demo_two_def add_peer_def NewPeer_def SetStatus_def peerManager_Add_def Host_AddPeer_def
    Task_AddPeer_def UpdateProgress_def SetPieceCosts_def Task_UpdatePeer_def Let_def

lemma demo_tie_peers:
  "peer_at demo_tie 0 = peer_at demo_heap 0" "peer_at demo_tie (Suc 0) = peer_at demo_heap (Suc 0)"
  "peer_at demo_tie 2 = (peer_at demo_heap 0)\<lparr>p_ID := ''c''\<rparr>"
  "t_status (task_at demo_tie 0) = TaskStatusSeeding" "t_TotalPieceCount (task_at demo_tie 0) = 8"
  "h_IsCDN (host_at demo_tie 0)" "h_TotalUploadLoad (host_at demo_tie 0) = 100" "h_CurrentUploadLoad (host_at demo_tie 0) = 0"
  by (simp_all add: tie_defs demo_facts)

lemma demo_tie_list:
  "distinct (ul_container (t_peers (task_at demo_tie 0)))" "set (ul_container (t_peers (task_at demo_tie 0))) = {0, Suc 0, 2}"
proof -
  have d: "ul_invar (t_peers (task_at demo_heap 0))"
    by (simp add: demo_defs ul_invar_Insert del: ul_Insert_def NewSortedUniqueList_def)
  obtain f g where t: "t_peers (task_at demo_tie 0) = ul_Insert f 2 (ul_Insert g 2 (t_peers (task_at demo_heap 0)))"
    by (simp add: tie_defs demo_facts)
  have "ul_invar (t_peers (task_at demo_tie 0))" unfolding t by (intro ul_invar_Insert d)
  then show "distinct (ul_container (t_peers (task_at demo_tie 0)))" by (simp add: ul_invar_def)
  show "set (ul_container (t_peers (task_at demo_tie 0))) = {0, Suc 0, 2}"
    unfolding t using d by (auto simp: sul.set_Ins ul_invar_Insert demo_facts)
qed

lemma demo_tie_climb: "x \<in> {0, 2} \<Longrightarrow> IsDescendant demo_tie x (Suc 0) = Some False"
proof -
  assume "x \<in> {0, 2}"
  then have "GetParent demo_tie x = None" by (auto simp: GetParent_def demo_tie_peers demo_facts)
  then show ?thesis by (simp add: IsDescendant_def isDescendant_def isDescendant_loop.simps)
qed

lemma demo_tie_eligible: "x \<in> {0, Suc 0, 2} \<Longrightarrow>
  parent_ok (evaluatorBase demo_stats) demo_tie (Suc 0) (Some []) x \<longleftrightarrow> x \<noteq> Suc 0"
  using demo_tie_climb[of x]
  by (auto simp: parent_ok_def blank_Has_def demo_tie_peers demo_facts IsLeave_def IsWaiting_def peerHost_def GetFreeUploadLoad_def
      IsBadNode_def IsBad_def)

theorem equal_scores_duplicate_parents_witness:
  "\<exists>a b h'. a \<noteq> b \<and> ScheduleParent (evaluatorBase demo_stats) 10 1 (Some []) demo_tie = Ret (Some (a, [b, a, b]), h')"
proof -
  let ?tl = "task_list demo_tie 1" and ?ok = "parent_ok (evaluatorBase demo_stats) demo_tie 1 (Some [])"
  have tl: "distinct ?tl" "set ?tl = {0, Suc 0, 2}" and cs: "CanSchedule (peerTask demo_tie 1)"
    using demo_tie_list by (simp_all add: task_list_def peerTask_def demo_tie_peers demo_facts CanSchedule_def)
  have "set (filter ?ok (rev ?tl)) = {x \<in> {0, Suc 0, 2}. x \<noteq> Suc 0}"
    using demo_tie_eligible unfolding set_filter set_rev tl(2) by (intro Collect_cong) auto
  also have "\<dots> = {0, 2}" by auto
  finally have f: "set (filter ?ok (rev ?tl)) = {0, 2}" "distinct (filter ?ok (rev ?tl))" using tl(1) by simp_all
  then have "length (filter ?ok (rev ?tl)) = 2" using distinct_card[OF f(2)] by simp
  then obtain a b where ab: "filter ?ok (rev ?tl) = [a, b]" by (auto simp: numeral_2_eq_2 length_Suc_conv)
  have s: "{a, b} = {0, 2}" "a \<noteq> b" using f unfolding ab by auto
  have bad: "\<exists>b. ev_IsBadNode (evaluatorBase demo_stats) demo_tie c = Ret b" if "c \<in> set ?tl" for c
    using IsBadNode_correct[OF demo_stats_ok, of demo_tie c] that tl(2) by (auto simp: int64_costs_def demo_tie_peers demo_facts)
  have bound: "c < next_peer demo_tie" if "c \<in> set ?tl" for c using that unfolding tl(2) demo_tie_inv(2) by auto
  have tree: "tree_inv demo_tie" "1 < next_peer demo_tie" using demo_tie_inv by (simp_all add: sched_inv_def)
  have sel: "selectCandidateParents (evaluatorBase demo_stats) demo_tie 1 10 (Some []) = Ret [a, b]"
  proof -
    have "selectCandidateParents (evaluatorBase demo_stats) demo_tie 1 10 (Some []) =
        Ret (if CanSchedule (peerTask demo_tie 1) then take (nat 10) (filter ?ok (rev ?tl)) else [])"
      by (rule selectCandidateParents_eq[OF tree bound bad])
    then show ?thesis using cs unfolding ab by simp
  qed
  have eq: "Evaluate demo_tie 2 1 8 = Evaluate demo_tie 0 1 8"
  proof -
    have "calculatePieceScore demo_tie 2 1 8 = calculatePieceScore demo_tie 0 1 8"
      by (simp add: calculatePieceScore_def Let_def demo_tie_peers)
    then show ?thesis by (simp add: Evaluate_def peerHost_def demo_tie_peers Let_def cong: if_cong)
  qed
  obtain x where x: "Evaluate demo_tie 0 1 8 = Ret (Fin x)"
    using Evaluate_unit[of 8 demo_tie 0 1] by (auto simp: demo_tie_peers demo_facts peerHost_def)
  have n: "t_TotalPieceCount (peerTask demo_tie 1) = 8" by (simp add: peerTask_def demo_tie_peers demo_facts)
  have "Evaluate demo_tie a 1 8 = Ret (Fin x)" "Evaluate demo_tie b 1 8 = Ret (Fin x)"
    using s(1) eq x by (auto simp: doubleton_eq_iff)
  with equal_scores_duplicate_parents[OF sel, of x] n s(2) show ?thesis by auto
qed

end
