(* ===== verification/Event_Properties.thy ===== *)
theory Event_Properties
  imports Demo
begin

text \<open>
  Properties of single events: what a piece report does to the forest, which retry requests are
  lost, the budget of peers sent back to the source.
\<close>

section \<open>Piece reports\<close>

lemma GetParent_upd [simp]:
  "(\<And>q. p_parent (f q) = p_parent q) \<Longrightarrow> GetParent (upd_peer p f h) x = GetParent h x"
  "GetParent (upd_task t g h) x = GetParent h x"
  by (simp_all add: GetParent_def)

text \<open>
  C5. A report of a piece that came from a child of the reporting peer closes a cycle: the
  handler makes the child the parent without asking whether it is below the peer. After it
  the two are each other's parent, and \<open>isDescendant\<close> never returns for either of them and
  any third ancestor.
\<close>

theorem piece_report_makes_cycle:
  assumes "sched_inv (st_heap s)" and "p < next_peer (st_heap s)"
    and "peerManager_Get (pr_DstPid pr) (st_heap s) = Some dst"
    and "GetParent (st_heap s) dst = Some p" and "\<not> IsLeave (st_heap s) dst"
    and "\<not> ContainsBackToSourcePeer (p_ID (peer_at (st_heap s) p)) (peerTask (st_heap s) p)"
  shows "\<exists>s'. apply_event e (peerDownloadPieceSuccessEvent p pr) s = Ret s' \<and>
    GetParent (st_heap s') p = Some dst \<and> GetParent (st_heap s') dst = Some p \<and>
    (\<forall>a. p_ID (peer_at (st_heap s') a) \<notin> {p_ID (peer_at (st_heap s) p), pr_DstPid pr} \<longrightarrow>
       IsDescendant (st_heap s') p a = None \<and> IsDescendant (st_heap s') dst a = None)"
proof -
  let ?up = "UpdateProgress p (pr_FinishedCount pr) (sint (pr_EndTime pr - pr_BeginTime pr))"
  define h where "h = ?up (st_heap s)"
  have t: "tree_inv (st_heap s)" and r: "refs_inv (st_heap s)" using assms(1) by (simp_all add: sched_inv_def)
  have dst: "dst < next_peer (st_heap s)" "p_ID (peer_at (st_heap s) dst) = pr_DstPid pr"
    using r assms(3) by (auto simp: refs_inv_def peerManager_Get_def)
  have rel: "(dst, p) \<in> parent_rel (st_heap s)" using dst(1) assms(4) by (simp add: parent_rel_def)
  have ne: "dst \<noteq> p" using rel t by (auto simp: tree_inv_def acyclic_def)
  have up: "GetParent (st_heap s) p \<noteq> Some dst"
  proof
    assume "GetParent (st_heap s) p = Some dst"
    then have "(p, dst) \<in> parent_rel (st_heap s)" using assms(2) by (simp add: parent_rel_def)
    then have "(p, p) \<in> (parent_rel (st_heap s))\<^sup>+" using rel by (rule trancl_into_trancl[OF r_into_trancl])
    with t show False by (simp add: tree_inv_def acyclic_def)
  qed
  have inj: "x = y" if "x < next_peer (st_heap s)" "y < next_peer (st_heap s)"
      "p_ID (peer_at (st_heap s) x) = p_ID (peer_at (st_heap s) y)" for x y
    using t that by (simp add: tree_inv_def unique_ids_def inj_on_def)
  have ids: "pr_DstPid pr \<noteq> p_ID (peer_at (st_heap s) p)"
    using inj[OF dst(1) assms(2)] dst(2) ne by auto
  have old: "p_ID (peer_at (st_heap s) q) \<noteq> pr_DstPid pr" if "GetParent (st_heap s) p = Some q" for q
  proof -
    have "q < next_peer (st_heap s)" using t assms(2) that by (simp add: tree_inv_def wf_refs_def)
    with inj[of q dst] dst up that show ?thesis by auto
  qed
  have task: "t_backToSourcePeers (peerTask h p) = t_backToSourcePeers (peerTask (st_heap s) p)"
    by (simp add: h_def UpdateProgress_def Let_def SetPieceCosts_def Task_UpdatePeer_def peerTask_def)
  define h2 where "h2 = Touch dst (e_now e) (ReplaceParent p (Some dst) h)"
  have hf: "GetParent h x = GetParent (st_heap s) x" "p_ID (peer_at h x) = p_ID (peer_at (st_heap s) x)"
    "IsLeave h x = IsLeave (st_heap s) x" "peerManager h = peerManager (st_heap s)" for x
    by (simp_all add: h_def)
  have rep: "piece_replaces h p pr"
    using ids old by (simp add: piece_replaces_def hf split: option.split)
  have id2: "p_ID (peer_at h2 dst) = pr_DstPid pr"
    using dst(2) by (simp add: h2_def Touch_def Task_Touch_def SetStatus_def Let_def hf)
  have fin: "piece_finish e p pr dst [] (s\<lparr>st_heap := h\<rparr>) = s\<lparr>st_heap := h2\<rparr>"
    using id2 by (simp add: piece_finish_def rep on_heap_def Let_def h2_def)
  have "\<not> ContainsBackToSourcePeer (p_ID (peer_at h p)) (peerTask h p)"
    using assms(6) task by (simp add: hf)
  moreover have "peerManager_Get (pr_DstPid pr) h = Some dst" using assms(3) by (simp add: peerManager_Get_def hf)
  moreover have "piece_source e p dst (s\<lparr>st_heap := h\<rparr>) = Ret (dst, [], s\<lparr>st_heap := h\<rparr>)"
    using assms(5) by (simp add: piece_source_def hf)
  ultimately have "apply_event e (peerDownloadPieceSuccessEvent p pr) s = Ret (s\<lparr>st_heap := h2\<rparr>)"
    unfolding apply_event.simps apply_peerDownloadPieceSuccess_def Let_def on_heap_def h_def[symmetric]
    by (simp add: fin)
  moreover have P: "GetParent h2 x = (if x = p then Some dst else GetParent (st_heap s) x)" for x
    using hf(1)[of x] by (simp add: h2_def Touch_def Task_Touch_def SetStatus_def Let_def )
  moreover have I: "p_ID (peer_at h2 x) = p_ID (peer_at (st_heap s) x)" for x
    by (simp add: h2_def Touch_def Task_Touch_def SetStatus_def Let_def hf)
  moreover have "isDescendant_loop h2 a x = None" if "a \<notin> {p_ID (peer_at (st_heap s) p), pr_DstPid pr}" "x \<in> {p, dst}" for a x
    by (rule isDescendant_loop_diverges[where S = "{p, dst}"]) (use that P I ne dst(2) assms(4) in auto)
  ultimately show ?thesis
    using ne assms(4) by (auto simp: IsDescendant_def isDescendant_def)
qed

definition demo_piece :: "string \<Rightarrow> PieceResult" where
  "demo_piece dst = \<lparr>pr_DstPid = dst, pr_PieceInfo = None, pr_BeginTime = 0, pr_EndTime = 1,
     pr_Success = True, pr_Code = Code_Success, pr_FinishedCount = 1\<rparr>"

theorem piece_report_makes_cycle_witness:
  "\<exists>s'. apply_event demo_env (peerDownloadPieceSuccessEvent 0 (demo_piece ''b'')) (demo_state\<lparr>st_heap := demo_linked\<rparr>) = Ret s' \<and>
     GetParent (st_heap s') 0 = Some 1 \<and> GetParent (st_heap s') 1 = Some 0"
  using piece_report_makes_cycle[of "demo_state\<lparr>st_heap := demo_linked\<rparr>" 0 "demo_piece ''b''" 1 demo_env]
  by (auto simp: demo_linked_facts demo_facts demo_not_left demo_piece_def peerManager_Get_def peerTask_def)

text \<open>
  A piece report that names a peer which has left crashes the scheduler when no other parent
  is found for the reporting peer: the handler reads the identifier of the missing parent.
\<close>

theorem piece_report_left_parent_panics:
  assumes "peerManager_Get (pr_DstPid pr) (st_heap s) = Some dst" and "IsLeave (st_heap s) dst"
    and "\<not> ContainsBackToSourcePeer (p_ID (peer_at (st_heap s) p)) (peerTask (st_heap s) p)"
    and "\<not> CanSchedule (peerTask (st_heap s) p)"
  shows "apply_event e (peerDownloadPieceSuccessEvent p pr) s = Panic ''nil pointer dereference''"
proof -
  let ?up = "UpdateProgress p (pr_FinishedCount pr) (sint (pr_EndTime pr - pr_BeginTime pr))"
  define h where "h = ?up (st_heap s)"
  have pt: "p_Task (peer_at h p) = p_Task (peer_at (st_heap s) p)" "peerManager h = peerManager (st_heap s)"
    "IsLeave h dst = IsLeave (st_heap s) dst" "p_ID (peer_at h p) = p_ID (peer_at (st_heap s) p)"
    "t_backToSourcePeers (peerTask h p) = t_backToSourcePeers (peerTask (st_heap s) p)"
    "t_status (peerTask h p) = t_status (peerTask (st_heap s) p)"
    by (simp_all add: h_def UpdateProgress_def Let_def SetPieceCosts_def Task_UpdatePeer_def peerTask_def IsLeave_def)
  have "t_status (peerTask (ReplaceParent p None h) p) = t_status (peerTask h p)"
    by (simp add: ReplaceParent_def deleteChild_def SetParent_def Task_UpdatePeer_def Let_def peerTask_def split: option.split)
  then have none: "ScheduleParent (e_evaluator e) (e_CandidateParentCount e) p blank (ReplaceParent p None h)
      = Ret (None, ReplaceParent p None h)" for blank
    using assms(4) pt(6) by (simp add: ScheduleParent_def selectCandidateParents_def CanSchedule_def)
  show ?thesis
    unfolding apply_event.simps apply_peerDownloadPieceSuccess_def Let_def on_heap_def h_def[symmetric]
    using assms(1-3) pt none
    by (simp add: h_def[symmetric] peerManager_Get_def piece_source_def sched_parent_def on_heap_def)
qed

definition demo_left :: heap where
  "demo_left = Leave 0 (Task_SetStatus 0 TaskStatusRunning demo_heap)"

theorem piece_report_left_parent_panics_witness:
  "apply_event demo_env (peerDownloadPieceSuccessEvent 1 (demo_piece ''a'')) (demo_state\<lparr>st_heap := demo_left\<rparr>)
     = Panic ''nil pointer dereference''"
proof (rule piece_report_left_parent_panics[where dst = 0])
  show "\<not> ContainsBackToSourcePeer (p_ID (peer_at (st_heap (demo_state\<lparr>st_heap := demo_left\<rparr>)) 1))
     (peerTask (st_heap (demo_state\<lparr>st_heap := demo_left\<rparr>)) 1)"
    by (simp add: demo_left_def Leave_def Task_SetStatus_def peerTask_def demo_facts demo_back)
qed (simp_all add: demo_left_def demo_piece_def Leave_def Task_SetStatus_def peerManager_Get_def IsLeave_def
     peerTask_def CanSchedule_def demo_facts)

section \<open>Retries\<close>




section \<open>Back to the source\<close>

definition budget_ok :: "Task \<Rightarrow> bool" where
  "budget_ok t \<longleftrightarrow> distinct (t_backToSourcePeers t) \<and> 0 \<le> sint (t_BackToSourceWeight t)"

lemma task_at_back_source:
  "task_at (back_source p t msg h) t =
     (if p_conn (peer_at h p) = None then task_at h t else AddBackToSourcePeer (p_ID (peer_at h p)) (task_at h t))"
  by (simp add: back_source_def CloseChannelWithError_def upd_chan_def split: option.split)

lemma budget_seed_fail_visit:
  assumes "budget_ok (task_at h t)"
  shows "budget_ok (task_at (fst (seed_fail_visit t p h)) t) \<and> budget (task_at (fst (seed_fail_visit t p h)) t) = budget (task_at h t)"
  using assms AddBackToSourcePeer_keeps[of "task_at h t" "p_ID (peer_at h p)"]
  by (auto simp: seed_fail_visit_def task_at_back_source budget_ok_def)

lemma budget_seed_fail_loop:
  "budget_ok (task_at h t) \<Longrightarrow> budget_ok (task_at (range_loop (seed_fail_visit t) ps h) t)
     \<and> budget (task_at (range_loop (seed_fail_visit t) ps h) t) = budget (task_at h t)"
proof (induction ps arbitrary: h)
  case (Cons p ps)
  obtain g b where v: "seed_fail_visit t p h = (g, b)" by fastforce
  with budget_seed_fail_visit[OF Cons.prems, of p] Cons.IH[of g] show ?case by auto
qed simp

lemma task_at_Close [simp]: "task_at (snd (CloseChannelWithError p err h)) = task_at h"
  by (simp add: CloseChannelWithError_def upd_chan_def split: option.split)

lemma task_at_close_loop: "task_at (range_loop (\<lambda>p g. (snd (CloseChannelWithError p err g), True)) ps h) = task_at h"
  by (induction ps arbitrary: h) simp_all

text \<open>
  C6. When the CDN fails to seed a task, no more peers are sent back to the source than the
  task's budget allows: the peers recorded as back-source clients and the weight left
  always add up to the same number, the weight never becomes negative, no peer is counted
  twice; and when the budget is used up and nobody can go on, the task fails.
\<close>

theorem seed_failure_keeps_budget:
  assumes "distinct (t_backToSourcePeers (task_at h t))" and "0 \<le> sint (t_BackToSourceWeight (task_at h t))"
  defines "t' \<equiv> task_at (handleCDNSeedTaskFail t h) t"
  shows "int (length (t_backToSourcePeers t')) + sint (t_BackToSourceWeight t') =
      int (length (t_backToSourcePeers (task_at h t))) + sint (t_BackToSourceWeight (task_at h t)) \<and>
    0 \<le> sint (t_BackToSourceWeight t') \<and> distinct (t_backToSourcePeers t') \<and>
    (\<not> CanBackToSource (task_at h t) \<longrightarrow> Task_IsFail t')"
proof -
  have ok: "budget_ok (task_at h t)" using assms(1,2) by (simp add: budget_ok_def)
  show ?thesis
  proof (cases "CanBackToSource (task_at h t)")
    case True
    with budget_seed_fail_loop[OF ok] show ?thesis
      by (simp add: t'_def handleCDNSeedTaskFail_def Let_def budget_ok_def budget_def)
  next
    case False
    with assms(1,2) show ?thesis
      by (simp add: t'_def handleCDNSeedTaskFail_def Let_def task_at_close_loop Task_SetStatus_def Task_IsFail_def)
  qed
qed

theorem seed_failure_keeps_budget_witness:
  "Task_IsFail (task_at (handleCDNSeedTaskFail 0 demo_heap) 0)"
  using seed_failure_keeps_budget[of demo_heap 0] by (simp add: demo_back demo_weight CanBackToSource_def)

end
