(* ===== verification/Service_Properties.thy ===== *)
theory Service_Properties
  imports Demo
begin

text \<open>
  Properties of the service around the events: triggering a task once, routing events to workers,
  what a registration answers, seeding by the CDN and garbage collection.
\<close>

section \<open>Triggering a task\<close>


section \<open>Routing events\<close>




section \<open>Registration\<close>

text \<open>
  A task of at most 128 bytes that a back-source peer finished has no content: the scheduler
  answers later registrations "tiny file" with an empty piece, although the content length it
  knows is positive.
\<close>

theorem tiny_answer_without_content:
  fixes n :: int32
  assumes "taskManager_Get (tid (req_Url req) (req_UrlMeta req)) (st_heap s) = Some task"
    and "task < next_task (st_heap s)"
    and "t_DirectPiece (task_at (st_heap s) task) = []" and "\<not> Task_IsSuccess (task_at (st_heap s) task)"
    and "0 < sint len" and "sint len \<le> TinyFileSize"
  defines "s1 \<equiv> on_heap (upd_task task (UpdateSuccess n len)) s"
  shows "\<exists>s2. RegisterPeerTask tid cfg e req s1 =
    Ret (Inr \<lparr>rr_TaskId = tid (req_Url req) (req_UrlMeta req), rr_SizeScope = SizeScope_TINY,
              rr_DirectPiece = PieceContent []\<rparr>, s2) \<and> 0 < sint (t_ContentLength (task_at (st_heap s2) task))"
proof -
  let ?id = "tid (req_Url req) (req_UrlMeta req)" and ?t = "UpdateSuccess n len (task_at (st_heap s) task)"
  define h where "h = snd (NewTask ?id (req_Url req) (req_UrlMeta req) (e_now e) (st_heap s1))"
  have n: "NewTask ?id (req_Url req) (req_UrlMeta req) (e_now e) (st_heap s1) = (next_task (st_heap s1), h)"
    by (simp add: h_def NewTask_def)
  have h: "taskManager h = taskManager (st_heap s)" "task_at h task = ?t" "t_ID (task_at h (next_task (st_heap s1))) = ?id"
    using assms(2) by (simp_all add: h_def NewTask_def s1_def on_heap_def)
  have st: "t_status ?t = TaskStatusSuccess" "t_ContentLength ?t = len" "t_DirectPiece ?t = []"
    using assms(3,4) by (simp_all add: UpdateSuccess_def Task_IsSuccess_def)
  have "GetOrAddTask cfg (e_now e) (next_task (st_heap s1)) (s1\<lparr>st_heap := h\<rparr>) = (task, s1\<lparr>st_heap := h\<rparr>)"
    using assms(1) h st
    by (simp add: GetOrAddTask_def GetOrAddTask_read_def taskManager_GetOrAdd_def LoadOrStore_def taskManager_Get_def IsHealth_def)
  then have "RegisterPeerTask tid cfg e req s1 =
    Ret (Inr \<lparr>rr_TaskId = ?id, rr_SizeScope = SizeScope_TINY, rr_DirectPiece = PieceContent []\<rparr>, s1\<lparr>st_heap := h\<rparr>)"
    using h st assms(6) by (simp add: RegisterPeerTask_def n Task_IsFail_def Task_IsSuccess_def GetSizeScope_def)
  then show ?thesis using h st assms(5) by simp
qed

theorem tiny_answer_without_content_witness:
  "\<exists>s2 r. RegisterPeerTask (\<lambda>u m. ''task'') demo_cfg demo_env demo_request
     (on_heap (upd_task 0 (UpdateSuccess 1 5)) (demo_state\<lparr>st_heap := demo_heap\<lparr>taskManager := [(''task'', 0)]\<rparr>\<rparr>)) =
       Ret (Inr r, s2) \<and> rr_DirectPiece r = PieceContent []"
proof -
  let ?s = "demo_state\<lparr>st_heap := demo_heap\<lparr>taskManager := [(''task'', 0)]\<rparr>\<rparr>"
  have "0 < next_task demo_heap" "t_DirectPiece (task_at demo_heap 0) = []" by (simp_all add: demo_defs)
  then show ?thesis
    using tiny_answer_without_content[of "\<lambda>u m. ''task''" demo_request ?s 0 5 demo_cfg demo_env 1]
    by (auto simp: taskManager_Get_def Task_IsSuccess_def demo_facts TinyFileSize_def)
qed

section \<open>Seeding\<close>

text \<open>What seeding leaves alone of the task: its pieces.\<close>

lemma t_pieces_ops [simp]:
  "t_pieces (task_at (SetStatus p st h) t) = t_pieces (task_at h t)"
  "t_pieces (task_at (peerManager_Add p h) t) = t_pieces (task_at h t)"
  "t_pieces (task_at (hostManager_Add r h) t) = t_pieces (task_at h t)"
  "t_pieces (task_at (Touch p now h) t) = t_pieces (task_at h t)"
  "t_pieces (task_at (UpdateProgress p n c h) t) = t_pieces (task_at h t)"
  "t_pieces (task_at (Task_SetStatus r ts h) t) = t_pieces (task_at h t)"
  "t_pieces (task_at (snd (NewPeer k r hr now h)) t) = t_pieces (task_at h t)"
  by (simp_all add: SetStatus_def peerManager_Add_def hostManager_Add_def Touch_def UpdateProgress_def
      Task_SetStatus_def NewPeer_def Host_AddPeer_def Task_AddPeer_def Task_Touch_def SetPieceCosts_def
      Task_UpdatePeer_def Let_def)

lemma initCDNPeer_pieces:
  assumes "initCDNPeer dc now task ps h = (r, h')"
  shows "t_pieces (task_at h' t) = t_pieces (task_at h t)"
proof -
  have n: "t_pieces (task_at h2 t) = t_pieces (task_at h1 t)" if "NewPeer k task hr now h1 = (q, h2)" for k hr h1 q h2
    using t_pieces_ops(7)[of k task hr now h1 t] that by simp
  show ?thesis
    using assms by (auto simp: initCDNPeer_def Let_def n split: option.splits prod.splits)
qed

lemma seed_init_pieces:
  "seed_init dc now task ps cdnPeer h = (r, h') \<Longrightarrow> t_pieces (task_at h' t) = t_pieces (task_at h t)"
  by (auto simp: seed_init_def split: option.splits prod.splits sum.splits if_splits dest: initCDNPeer_pieces[where t = t])

lemma GetPiece_upd: "GetPiece n (task_at (upd_task t f h) t) = GetPiece n (f (task_at h t))"
  by simp

lemma GetOrAddPiece_pieces:
  "GetPiece n (snd (GetOrAddPiece piece t)) \<noteq> None \<longleftrightarrow> n = PieceNum piece \<or> GetPiece n t \<noteq> None"
  by (auto simp: GetOrAddPiece_def GetPiece_def LoadOrStore_def split: option.splits prod.splits)

lemma seed_done_task:
  assumes "seed_done http task p ps h = Ret h'"
  shows "t_status (task_at h' task) = TaskStatusSuccess" "t_pieces (task_at h' task) = t_pieces (task_at h task)"
    "t_TotalPieceCount (task_at h' task) = ps_TotalPieceCount ps" "t_ContentLength (task_at h' task) = ps_ContentLength ps"
  using assms by (auto simp: seed_done_def Let_def obind_eq_Ret SetStatus_def Task_SetStatus_def split: if_splits option.splits)

lemma receive_one_pieces:
  assumes "receive_one http dc now task ps cdnPeer h = Ret (r, h')"
  shows "GetPiece n (task_at h task) \<noteq> None \<Longrightarrow> GetPiece n (task_at h' task) \<noteq> None"
    and "r = Inr (p, False) \<Longrightarrow> ps_PieceInfo ps = Some piece \<Longrightarrow> GetPiece (PieceNum piece) (task_at h' task) \<noteq> None"
    and "r = Inr (p, True) \<Longrightarrow> Task_IsSuccess (task_at h' task)" and "r = Inr (p, fin) \<Longrightarrow> fin = ps_Done ps"
proof -
  obtain r1 h1 where i: "seed_init dc now task ps cdnPeer h = (r1, h1)" by fastforce
  note pc = seed_init_pieces[OF i, of task]
  have "(GetPiece n (task_at h task) \<noteq> None \<longrightarrow> GetPiece n (task_at h' task) \<noteq> None) \<and>
    (r = Inr (p, False) \<longrightarrow> ps_PieceInfo ps = Some piece \<longrightarrow> GetPiece (PieceNum piece) (task_at h' task) \<noteq> None) \<and>
    (r = Inr (p, True) \<longrightarrow> Task_IsSuccess (task_at h' task)) \<and> (r = Inr (p, fin) \<longrightarrow> fin = ps_Done ps)"
  proof (cases r1)
    case (Inl err)
    with assms i pc show ?thesis by (auto simp: receive_one_def GetPiece_def)
  next
    case (Inr q)
    show ?thesis
    proof (cases "ps_Done ps")
      case True
      with assms i Inr obtain h3 where d: "seed_done http task q ps (Touch q now h1) = Ret h3" "r = Inr (q, True)" "h' = h3"
        by (auto simp: receive_one_def Let_def obind_eq_Ret)
      from seed_done_task[OF d(1)] d pc True show ?thesis by (simp add: GetPiece_def Task_IsSuccess_def)
    next
      case False
      with assms i Inr obtain x where x: "ps_PieceInfo ps = Some x" "r = Inr (q, False)"
        "h' = upd_task task (\<lambda>t. snd (GetOrAddPiece x t)) (UpdateProgress q (PieceNum x + 1) 0 (Touch q now h1))"
        by (auto simp: receive_one_def Let_def split: option.splits)
      have "GetPiece m (task_at h' task) \<noteq> None \<longleftrightarrow> m = PieceNum x \<or> GetPiece m (task_at h task) \<noteq> None" for m
        unfolding x(3) GetPiece_upd GetOrAddPiece_pieces using pc by (simp add: GetPiece_def)
      with x(1,2) False show ?thesis by auto
    qed
  qed
  then show "GetPiece n (task_at h task) \<noteq> None \<Longrightarrow> GetPiece n (task_at h' task) \<noteq> None"
    and "r = Inr (p, False) \<Longrightarrow> ps_PieceInfo ps = Some piece \<Longrightarrow> GetPiece (PieceNum piece) (task_at h' task) \<noteq> None"
    and "r = Inr (p, True) \<Longrightarrow> Task_IsSuccess (task_at h' task)" and "r = Inr (p, fin) \<Longrightarrow> fin = ps_Done ps" by blast+
qed

text \<open>The messages of a stream before the one that says the task is done.\<close>

fun before_done :: "recv list \<Rightarrow> PieceSeed list" where
  "before_done [] = []"
| "before_done (RecvPiece (Some ps) # stream) = (if ps_Done ps then [] else ps # before_done stream)"
| "before_done (RecvPiece None # stream) = before_done stream"
| "before_done (_ # stream) = []"

lemma receivePiece_pieces:
  assumes "receivePiece http dc now task stream cdnPeer h = Ret (Inr p, h')"
  shows "Task_IsSuccess (task_at h' task) \<and> (\<forall>n. GetPiece n (task_at h task) \<noteq> None \<longrightarrow> GetPiece n (task_at h' task) \<noteq> None) \<and>
    (\<forall>ps \<in> set (before_done stream). \<forall>piece. ps_PieceInfo ps = Some piece \<longrightarrow> GetPiece (PieceNum piece) (task_at h' task) \<noteq> None)"
  using assms
proof (induction stream arbitrary: cdnPeer h)
  case (Cons m stream)
  show ?case
  proof (cases m)
    case (RecvPiece o')
    show ?thesis
    proof (cases o')
      case None
      with Cons RecvPiece show ?thesis by simp
    next
      case (Some ps)
      obtain r h1 where one: "receive_one http dc now task ps cdnPeer h = Ret (r, h1)"
        using Cons.prems RecvPiece Some by (auto simp: obind_eq_Ret)
      with Cons.prems RecvPiece Some obtain q fin where r: "r = Inr (q, fin)" by (cases r) auto
      note ro = receive_one_pieces[OF one]
      show ?thesis
      proof (cases fin)
        case True
        with Cons.prems RecvPiece Some one r have "h' = h1" by simp
        with True ro(1) ro(3)[of q] ro(4)[of q fin] r RecvPiece Some show ?thesis by auto
      next
        case False
        with Cons.prems RecvPiece Some one r have "receivePiece http dc now task stream (Some q) h1 = Ret (Inr p, h')" by simp
        from Cons.IH[OF this] False ro(1) ro(2)[of q] ro(4)[of q fin] r RecvPiece Some show ?thesis by auto
      qed
    qed
  next
    case RecvEOF
    with Cons.prems show ?thesis by (auto simp: Task_IsSuccess_def split: option.splits if_splits)
  next
    case (RecvErr err)
    with Cons.prems show ?thesis by simp
  qed
qed simp

text \<open>
  C9. When seeding reports success, the task is marked successful and every piece the CDN
  announced before the end is recorded in the task; a stream that ends early, fails or comes
  from an unknown host gives an error, never a success.
\<close>

theorem seeding_records_all_pieces:
  assumes "StartSeedTask http (Some dc) now task (Inr stream) h = Ret (Inr p, h')"
  shows "Task_IsSuccess (task_at h' task) \<and>
    (\<forall>ps \<in> set (before_done stream). \<forall>piece. ps_PieceInfo ps = Some piece \<longrightarrow>
       GetPiece (PieceNum piece) (task_at h' task) \<noteq> None)"
  using receivePiece_pieces[of http dc now task stream None h p h'] assms by (simp add: StartSeedTask_def)

definition demo_dc :: cdnDynmaicClient where
  "demo_dc = \<lparr>dc_data = \<lparr>dd_CDNs = [], dd_SchedulerCluster = None\<rparr>, dc_hosts = [(''cdn'', 0)], dc_addrs = []\<rparr>"

definition demo_seed :: "bool \<Rightarrow> PieceSeed" where
  "demo_seed fin = \<lparr>ps_PeerId = ''a'', ps_HostUuid = ''cdn'', ps_PieceInfo = Some \<lparr>PieceNum = 7, RangeStart = 0,
     RangeSize = 4, PieceMd5 = [], PieceOffset = 0, PieceStyle = 0\<rparr>, ps_Done = fin, ps_ContentLength = 1000, ps_TotalPieceCount = 8\<rparr>"

theorem seeding_records_all_pieces_witness:
  "\<exists>p h'. StartSeedTask (\<lambda>_. None) (Some demo_dc) 0 0 (Inr [RecvPiece (Some (demo_seed False)), RecvPiece (Some (demo_seed True))])
     demo_heap = Ret (Inr p, h') \<and> GetPiece 7 (task_at h' 0) \<noteq> None"
proof -
  let ?stream = "[RecvPiece (Some (demo_seed False)), RecvPiece (Some (demo_seed True))]"
  obtain h1 where 1: "receive_one (\<lambda>_. None) demo_dc 0 0 (demo_seed False) None demo_heap = Ret (Inr (0, False), h1)"
    by (simp add: receive_one_def seed_init_def initCDNPeer_def demo_seed_def peerManager_Get_def demo_facts Let_def)
  obtain h2 where 2: "receive_one (\<lambda>_. None) demo_dc 0 0 (demo_seed True) (Some 0) h1 = Ret (Inr (0, True), h2)"
    by (simp add: receive_one_def seed_init_def demo_seed_def Let_def seed_done_def TinyFileSize_def SetStatus_def Task_SetStatus_def)
  have s: "StartSeedTask (\<lambda>_. None) (Some demo_dc) 0 0 (Inr ?stream) demo_heap = Ret (Inr 0, h2)"
    by (simp add: StartSeedTask_def 1 2)
  from seeding_records_all_pieces[OF s] have "GetPiece 7 (task_at h2 0) \<noteq> None"
    by (simp add: demo_seed_def)
  with s show ?thesis by blast
qed

section \<open>Garbage collection\<close>

text \<open>
  C10. A collection of peers deletes exactly the peers that have left, failed, outlived the TTL or,
  being unconnected clients that are not done, were idle for longer than the TTI; all other
  peers stay registered, and the forest and the load limits are kept.
\<close>

theorem peer_gc_exact:
  assumes "sched_inv h" and "wf_map (peerManager h)"
  shows "peerManager (peerManager_RunGC cfg now h) =
      filter (\<lambda>(k, p). \<not> (let elapsed = now - p_lastAccessAt (peer_at h p) in
         IsLeave h p \<or> IsFail h p \<or> elapsed > PeerTTL cfg
         \<or> elapsed > PeerTTI cfg \<and> \<not> IsDone h p \<and> \<not> h_IsCDN (peerHost h p) \<and> \<not> IsConnected h p)) (peerManager h) \<and>
    sched_inv (peerManager_RunGC cfg now h)"
proof -
  have "p_ID (peer_at h p) = k" if "(k, p) \<in> set (peerManager h)" for k p
    using that assms by (auto simp: sched_inv_def refs_inv_def Load_Some_iff)
  from peer_gc_filter[OF assms(2) this, of cfg now] peerManager_RunGC_inv[OF assms(1), of cfg now]
  show ?thesis by (simp add: peer_dead_def Let_def)
qed

theorem peer_gc_exact_witness: "peerManager (peerManager_RunGC demo_gc 60 demo_heap) = [(''a'', 0)]"
  using peer_gc_exact[of demo_heap demo_gc 60]
  by (simp add: demo_facts demo_gc_def Let_def IsLeave_def IsFail_def IsDone_def peerHost_def IsConnected_def)

text \<open>
  C14. The collection of a task that was not accessed for longer than the TTL unregisters the task
  and every peer of it: no registered peer refers to it any more.
\<close>

theorem task_gc_takes_peers:
  fixes tid :: string
  assumes "sched_inv h" and "wf_map (peerManager h)" and "now - t_lastAccessAt (task_at h task) > TaskTTL cfg"
  defines "h' \<equiv> task_gc_visit cfg now (tid, task) h"
  shows "taskManager_Get tid h' = None \<and> (\<forall>(k, p) \<in> set (peerManager h'). t_ID (peerTask h' p) \<noteq> tid) \<and> sched_inv h'"
proof -
  have ids: "p_ID (peer_at h p) = k" if "(k, p) \<in> set (peerManager h)" for k p
    using that assms(1,2) by (auto simp: sched_inv_def refs_inv_def Load_Some_iff)
  have "taskManager_Get tid h' = None"
    using assms(3) by (simp add: h'_def task_gc_visit_def Let_def taskManager_Delete_def taskManager_Get_def)
  moreover have "\<forall>(k, p) \<in> set (peerManager h'). t_ID (peerTask h' p) \<noteq> tid"
    using task_gc_collects_peers[OF assms(3) ids] by (auto simp: h'_def)
  moreover have "sched_inv h'" using assms(1) by (simp add: h'_def task_gc_visit_inv)
  ultimately show ?thesis by simp
qed

theorem task_gc_takes_peers_witness:
  "taskManager_Get ''task'' (task_gc_visit demo_gc 200 (''task'', 0) demo_heap) = None \<and>
   ''task'' \<notin> (\<lambda>(k, p). t_ID (peerTask (task_gc_visit demo_gc 200 (''task'', 0) demo_heap) p)) `
     set (peerManager (task_gc_visit demo_gc 200 (''task'', 0) demo_heap))"
proof -
  have "t_lastAccessAt (task_at demo_heap 0) = 0" by (simp add: demo_defs)
  then show ?thesis
    using task_gc_takes_peers[where h = demo_heap and task = 0 and cfg = demo_gc and now = 200 and tid = "''task''"]
    by (auto simp: demo_facts demo_gc_def)
qed

end
