(* ===== verification/Key_Locks.thy ===== *)
theory Key_Locks
  imports Go_Prelude
begin

text \<open>
  The two families of locks by key: \<open>pkg/synclock\<close> (\<open>LockerPool\<close>, used by the CDN) and
  \<open>pkg/sync\<close> (\<open>Krwmutex\<close> and \<open>Kmutex\<close>, used by the scheduler). \<open>Lock\<close> first fetches the
  mutex of the key and then waits for it, and other goroutines run in between; so a goroutine
  is idle, waiting for a mutex it has fetched, or holding a key. Everything under
  \<open>LockerPool.mutex\<close> is one step: a waiting goroutine that acquires its mutex in the middle of
  \<open>UnLock\<close> touches nothing \<open>UnLock\<close> still reads.
\<close>

section \<open>sync.RWMutex\<close>

text \<open>
  A reader may also enter while a writer waits; Go delays it, so the model has more runs. Unlocking
  a mutex that is not locked is a fatal error.
\<close>

record rwmutex =
  rw_w :: bool
  rw_r :: nat

definition can_lock :: "bool \<Rightarrow> 'a rwmutex_scheme \<Rightarrow> bool" where
  "can_lock rLock m \<longleftrightarrow> \<not> rw_w m \<and> (rLock \<or> rw_r m = 0)"

section \<open>count\_rwmutex.go\<close>

record countRWMutex = rwmutex +
  cm_count :: int32

definition newCountRWMutex :: countRWMutex where
  "newCountRWMutex = \<lparr>rw_w = False, rw_r = 0, cm_count = 0\<rparr>"

definition cm_reset :: "countRWMutex \<Rightarrow> countRWMutex" where
  "cm_reset cm = cm\<lparr>cm_count := 0\<rparr>"

definition cm_inc :: "countRWMutex \<Rightarrow> countRWMutex" where
  "cm_inc cm = cm\<lparr>cm_count := cm_count cm + 1\<rparr>"

definition cm_dec :: "countRWMutex \<Rightarrow> countRWMutex" where
  "cm_dec cm = cm\<lparr>cm_count := cm_count cm - 1\<rparr>"

definition cm_lock :: "bool \<Rightarrow> 'a rwmutex_scheme \<Rightarrow> 'a rwmutex_scheme" where
  "cm_lock rLock m = (if rLock then m\<lparr>rw_r := rw_r m + 1\<rparr> else m\<lparr>rw_w := True\<rparr>)"

definition cm_unlock :: "bool \<Rightarrow> 'a rwmutex_scheme \<Rightarrow> 'a rwmutex_scheme outcome" where
  "cm_unlock rLock m =
     (if rLock
      then if rw_r m = 0 then Panic ''sync: RUnlock of unlocked RWMutex'' else Ret (m\<lparr>rw_r := rw_r m - 1\<rparr>)
      else if \<not> rw_w m then Panic ''sync: Unlock of unlocked RWMutex'' else Ret (m\<lparr>rw_w := False\<rparr>))"

section \<open>key\_locker.go\<close>

text \<open>
  Mutexes are references into \<open>lp_at\<close>. \<open>sync.Pool.Get\<close> returns any pooled object or, at any
  time, a new one: the choice is an argument.
\<close>

record LockerPool =
  lockerMap :: "(string, nat) gomap"
  syncPool :: "nat list"
  lp_at :: "nat \<Rightarrow> countRWMutex"
  lp_next :: nat

definition NewLockerPool :: LockerPool where
  "NewLockerPool = \<lparr>lockerMap = [], syncPool = [], lp_at = (\<lambda>_. newCountRWMutex), lp_next = 0\<rparr>"

definition upd_lp :: "nat \<Rightarrow> (countRWMutex \<Rightarrow> countRWMutex) \<Rightarrow> LockerPool \<Rightarrow> LockerPool" where
  "upd_lp r f l = l\<lparr>lp_at := (lp_at l)(r := f (lp_at l r))\<rparr>"

definition pool_Get :: "nat option \<Rightarrow> LockerPool \<Rightarrow> nat \<times> LockerPool" where
  "pool_Get choice l =
     (case choice of
        Some r \<Rightarrow>
          if r \<in> set (syncPool l) then (r, l\<lparr>syncPool := remove1 r (syncPool l)\<rparr>)
          else (lp_next l, (upd_lp (lp_next l) (\<lambda>_. newCountRWMutex) l)\<lparr>lp_next := lp_next l + 1\<rparr>)
      | None \<Rightarrow> (lp_next l, (upd_lp (lp_next l) (\<lambda>_. newCountRWMutex) l)\<lparr>lp_next := lp_next l + 1\<rparr>))"

text \<open>\<open>Lock\<close> up to the call of \<open>locker.lock\<close>, which is the step \<open>acquire\<close> below.\<close>

definition Lock_fetch :: "nat option \<Rightarrow> string \<Rightarrow> LockerPool \<Rightarrow> nat \<times> LockerPool" where
  "Lock_fetch choice key l =
     (case Load (lockerMap l) key of
        Some r \<Rightarrow> (r, upd_lp r cm_inc l)
      | None \<Rightarrow>
          (case pool_Get choice l of
             (r, l1) \<Rightarrow> (r, upd_lp r cm_inc (l1\<lparr>lockerMap := Store key r (lockerMap l1)\<rparr>))))"

definition UnLock :: "string \<Rightarrow> bool \<Rightarrow> LockerPool \<Rightarrow> LockerPool outcome" where
  "UnLock key rLock l =
     (case Load (lockerMap l) key of
        None \<Rightarrow> Ret l
      | Some r \<Rightarrow>
          obind (cm_unlock rLock (lp_at l r)) (\<lambda>cm.
            let l1 = upd_lp r (\<lambda>_. cm_dec cm) l
            in if sint (cm_count (lp_at l1 r)) \<le> 0
               then Ret ((upd_lp r cm_reset l1)\<lparr>syncPool := r # syncPool l1, lockerMap := Delete key (lockerMap l1)\<rparr>)
               else Ret l1))"

section \<open>Goroutines\<close>

datatype goroutine = Idle | Waiting string nat bool | Holding string bool

text \<open>One step of one of \<open>n\<close> goroutines.\<close>

inductive lp_step :: "nat \<Rightarrow> (nat \<Rightarrow> goroutine) \<times> LockerPool \<Rightarrow> (nat \<Rightarrow> goroutine) \<times> LockerPool \<Rightarrow> bool"
  for n where
  fetch: "t < n \<Longrightarrow> pc t = Idle \<Longrightarrow> Lock_fetch choice key l = (r, l') \<Longrightarrow>
    lp_step n (pc, l) (pc(t := Waiting key r rLock), l')"
| acquire: "t < n \<Longrightarrow> pc t = Waiting key r rLock \<Longrightarrow> can_lock rLock (lp_at l r) \<Longrightarrow>
    lp_step n (pc, l) (pc(t := Holding key rLock), upd_lp r (cm_lock rLock) l)"
| release: "t < n \<Longrightarrow> pc t = Holding key rLock \<Longrightarrow> UnLock key rLock l = Ret l' \<Longrightarrow>
    lp_step n (pc, l) (pc(t := Idle), l')"

section \<open>krwmutex.go\<close>

record Krwmutex =
  kr_m :: "(string, nat) gomap"
  kr_at :: "nat \<Rightarrow> rwmutex"
  kr_next :: nat

definition NewKrwmutex :: Krwmutex where
  "NewKrwmutex = \<lparr>kr_m = [], kr_at = (\<lambda>_. \<lparr>rw_w = False, rw_r = 0\<rparr>), kr_next = 0\<rparr>"

text \<open>\<open>Lock\<close> and \<open>RLock\<close> up to the call on the mutex: a new mutex is allocated in any case.\<close>

definition kr_fetch :: "string \<Rightarrow> Krwmutex \<Rightarrow> nat \<times> Krwmutex" where
  "kr_fetch key k =
     (let m = kr_next k;
          k1 = k\<lparr>kr_at := (kr_at k)(m := \<lparr>rw_w = False, rw_r = 0\<rparr>), kr_next := m + 1\<rparr>;
          ((rm, _), m') = LoadOrStore key m (kr_m k1)
      in (rm, k1\<lparr>kr_m := m'\<rparr>))"

text \<open>\<open>Unlock\<close> and \<open>RUnlock\<close>.\<close>

definition kr_unlock :: "string \<Rightarrow> bool \<Rightarrow> Krwmutex \<Rightarrow> Krwmutex outcome" where
  "kr_unlock key rLock k =
     (case Load (kr_m k) key of
        None \<Rightarrow> Ret k
      | Some r \<Rightarrow>
          let k1 = k\<lparr>kr_m := Delete key (kr_m k)\<rparr>
          in obind (cm_unlock rLock (kr_at k1 r)) (\<lambda>m. Ret (k1\<lparr>kr_at := (kr_at k1)(r := m)\<rparr>)))"

inductive kr_step :: "(nat \<Rightarrow> goroutine) \<times> Krwmutex \<Rightarrow> (nat \<Rightarrow> goroutine) \<times> Krwmutex \<Rightarrow> bool" where
  kr_fetch: "pc t = Idle \<Longrightarrow> kr_fetch key k = (r, k') \<Longrightarrow> kr_step (pc, k) (pc(t := Waiting key r rLock), k')"
| kr_acquire: "pc t = Waiting key r rLock \<Longrightarrow> can_lock rLock (kr_at k r) \<Longrightarrow>
    kr_step (pc, k) (pc(t := Holding key rLock), k\<lparr>kr_at := (kr_at k)(r := cm_lock rLock (kr_at k r))\<rparr>)"
| kr_release: "pc t = Holding key rLock \<Longrightarrow> kr_unlock key rLock k = Ret k' \<Longrightarrow>
    kr_step (pc, k) (pc(t := Idle), k')"

lemmas mutex_defs = can_lock_def newCountRWMutex_def cm_reset_def cm_inc_def cm_dec_def cm_lock_def cm_unlock_def upd_lp_def

section \<open>Counting goroutines\<close>

fun uses :: "string \<Rightarrow> goroutine \<Rightarrow> bool" where
  "uses key Idle = False"
| "uses key (Waiting k r rLock) = (k = key)"
| "uses key (Holding k rLock) = (k = key)"

definition count_pc :: "nat \<Rightarrow> (goroutine \<Rightarrow> bool) \<Rightarrow> (nat \<Rightarrow> goroutine) \<Rightarrow> nat" where
  "count_pc n P pc = (\<Sum>t<n. of_bool (P (pc t)))"

lemma count_pc_upd:
  assumes "t < n"
  shows "count_pc n P (pc(t := x)) + of_bool (P (pc t)) = count_pc n P pc + of_bool (P x)"
proof -
  have *: "count_pc n P q = of_bool (P (q t)) + (\<Sum>u\<in>{..<n} - {t}. of_bool (P (q u)))" for q
    unfolding count_pc_def using assms by (subst sum.remove[of _ t]) auto
  have "(\<Sum>u\<in>{..<n} - {t}. of_bool (P ((pc(t := x)) u))) = (\<Sum>u\<in>{..<n} - {t}. of_bool (P (pc u)) :: nat)"
    by (rule sum.cong) auto
  then show ?thesis using *[of "pc(t := x)"] *[of pc] by simp
qed

lemma count_pc_le: "count_pc n P pc \<le> n"
proof -
  have "count_pc n P pc \<le> (\<Sum>t<n. 1)" unfolding count_pc_def by (rule sum_mono) simp
  then show ?thesis by simp
qed

lemma count_pc_mono: "(\<And>x. P x \<Longrightarrow> Q x) \<Longrightarrow> count_pc n P pc \<le> count_pc n Q pc"
  unfolding count_pc_def by (rule sum_mono) auto

lemma count_pc_pos: "t < n \<Longrightarrow> P (pc t) \<Longrightarrow> 0 < count_pc n P pc"
  unfolding count_pc_def by (rule sum_pos2[of _ t]) simp_all

lemma count_pc_zero: "count_pc n P pc = 0 \<Longrightarrow> t < n \<Longrightarrow> \<not> P (pc t)"
  by (auto simp: count_pc_def)

lemma count_pc_two:
  assumes "t < n" "u < n" "t \<noteq> u" "P (pc t)" "P (pc u)"
  shows "2 \<le> count_pc n P pc"
proof -
  have "0 < (\<Sum>v\<in>{..<n} - {t}. of_bool (P (pc v)) :: nat)"
    using assms by (intro sum_pos2[of _ u]) auto
  then show ?thesis unfolding count_pc_def using assms by (subst sum.remove[of _ t]) auto
qed

section \<open>The invariant of the pool\<close>

text \<open>
  The mutex of a key is in the map exactly while goroutines wait for it or hold it, its count is
  their number, and its state counts the holders; pooled mutexes are unused.
\<close>

definition mutex_inv :: "nat \<Rightarrow> (nat \<Rightarrow> goroutine) \<Rightarrow> string \<Rightarrow> countRWMutex \<Rightarrow> bool" where
  "mutex_inv n pc key m \<longleftrightarrow>
     cm_count m = of_nat (count_pc n (uses key) pc) \<and> 0 < count_pc n (uses key) pc \<and>
     of_bool (rw_w m) = count_pc n (\<lambda>x. x = Holding key False) pc \<and>
     rw_r m = count_pc n (\<lambda>x. x = Holding key True) pc \<and> \<not> (rw_w m \<and> 0 < rw_r m)"

definition pool_inv :: "nat \<Rightarrow> (nat \<Rightarrow> goroutine) \<times> LockerPool \<Rightarrow> bool" where
  "pool_inv n = (\<lambda>(pc, l).
     (\<forall>k r. Load (lockerMap l) k = Some r \<longrightarrow> r < lp_next l \<and> r \<notin> set (syncPool l) \<and> mutex_inv n pc k (lp_at l r)) \<and>
     (\<forall>k k' r. Load (lockerMap l) k = Some r \<and> Load (lockerMap l) k' = Some r \<longrightarrow> k = k') \<and>
     (\<forall>k. Load (lockerMap l) k = None \<longrightarrow> count_pc n (uses k) pc = 0) \<and>
     (\<forall>r \<in> set (syncPool l). r < lp_next l \<and> lp_at l r = newCountRWMutex) \<and> distinct (syncPool l) \<and>
     (\<forall>t < n. \<forall>k r b. pc t = Waiting k r b \<longrightarrow> Load (lockerMap l) k = Some r))"

lemma pool_invD:
  assumes "pool_inv n (pc, l)"
  shows "Load (lockerMap l) k = Some r \<Longrightarrow> r < lp_next l"
    and "Load (lockerMap l) k = Some r \<Longrightarrow> r \<notin> set (syncPool l)"
    and "Load (lockerMap l) k = Some r \<Longrightarrow> mutex_inv n pc k (lp_at l r)"
    and "Load (lockerMap l) k = Some r \<Longrightarrow> Load (lockerMap l) k' = Some r \<Longrightarrow> k' = k"
    and "Load (lockerMap l) k = None \<Longrightarrow> count_pc n (uses k) pc = 0"
    and "r \<in> set (syncPool l) \<Longrightarrow> r < lp_next l"
    and "r \<in> set (syncPool l) \<Longrightarrow> lp_at l r = newCountRWMutex"
    and "distinct (syncPool l)"
    and "t < n \<Longrightarrow> pc t = Waiting k r b \<Longrightarrow> Load (lockerMap l) k = Some r"
  using assms unfolding pool_inv_def by blast+

lemma uses_loaded:
  assumes "pool_inv n (pc, l)" "t < n" "uses k (pc t)"
  obtains r where "Load (lockerMap l) k = Some r"
  using pool_invD(5)[OF assms(1), of k] count_pc_pos[of t n "uses k" pc] assms(2,3) by fastforce

lemma count_pc_other:
  assumes "t < n" "P (pc t) = P x"
  shows "count_pc n P (pc(t := x)) = count_pc n P pc"
  using count_pc_upd[OF assms(1), of P pc x] assms(2) by simp

lemma mutex_inv_other:
  assumes "t < n" "\<not> uses k (pc t)" "\<not> uses k x"
  shows "mutex_inv n (pc(t := x)) k m = mutex_inv n pc k m"
proof -
  have "count_pc n P (pc(t := x)) = count_pc n P pc" if "\<And>y. P y \<Longrightarrow> uses k y" for P
    using that assms by (intro count_pc_other) auto
  from this[of "uses k"] this[of "\<lambda>y. y = Holding k False"] this[of "\<lambda>y. y = Holding k True"]
  show ?thesis by (simp add: mutex_inv_def)
qed

lemma mutex_inv_fetch:
  assumes "mutex_inv n pc k m" "t < n" "pc t = Idle"
  shows "mutex_inv n (pc(t := Waiting k r b)) k (cm_inc m)"
  using assms(1) count_pc_upd[OF assms(2), of "uses k" pc "Waiting k r b"]
    count_pc_other[of t n "\<lambda>y. y = Holding k False" pc "Waiting k r b"]
    count_pc_other[of t n "\<lambda>y. y = Holding k True" pc "Waiting k r b"] assms(2,3)
  by (auto simp: mutex_inv_def cm_inc_def)

lemma mutex_inv_new:
  assumes "count_pc n (uses k) pc = 0" "t < n" "pc t = Idle"
  shows "mutex_inv n (pc(t := Waiting k r b)) k (cm_inc newCountRWMutex)"
proof -
  have "count_pc n (\<lambda>y. y = Holding k c) pc = 0" for c
    using count_pc_mono[of "\<lambda>y. y = Holding k c" "uses k" n pc] assms(1) by auto
  then show ?thesis
    using count_pc_upd[OF assms(2), of "uses k" pc "Waiting k r b"] assms
      count_pc_other[of t n "\<lambda>y. y = Holding k False" pc "Waiting k r b"]
      count_pc_other[of t n "\<lambda>y. y = Holding k True" pc "Waiting k r b"]
    by (simp add: mutex_inv_def cm_inc_def newCountRWMutex_def)
qed

lemma mutex_inv_acquire:
  assumes "mutex_inv n pc k m" "t < n" "pc t = Waiting k r b" "can_lock b m"
  shows "mutex_inv n (pc(t := Holding k b)) k (cm_lock b m)"
  using assms(1,4) count_pc_upd[OF assms(2), of "\<lambda>y. y = Holding k b" pc "Holding k b"]
    count_pc_other[of t n "\<lambda>y. y = Holding k (\<not> b)" pc "Holding k b"]
    count_pc_other[of t n "uses k" pc "Holding k b"] assms(2,3)
  by (cases b) (auto simp: mutex_inv_def cm_lock_def can_lock_def)

lemma mutex_inv_release:
  assumes "mutex_inv n pc k m" "t < n" "pc t = Holding k b"
  obtains m' where "cm_unlock b m = Ret m'"
    and "1 < count_pc n (uses k) pc \<Longrightarrow> mutex_inv n (pc(t := Idle)) k (cm_dec m')"
    and "count_pc n (uses k) pc = 1 \<Longrightarrow> cm_reset (cm_dec m') = newCountRWMutex"
    and "cm_count m' = cm_count m"
proof -
  let ?q = "pc(t := Idle)"
  have c: "count_pc n (uses k) ?q + 1 = count_pc n (uses k) pc"
    and h: "count_pc n (\<lambda>y. y = Holding k b) ?q + 1 = count_pc n (\<lambda>y. y = Holding k b) pc"
    and o: "count_pc n (\<lambda>y. y = Holding k (\<not> b)) ?q = count_pc n (\<lambda>y. y = Holding k (\<not> b)) pc"
    using count_pc_upd[OF assms(2), of "uses k" pc Idle]
      count_pc_upd[OF assms(2), of "\<lambda>y. y = Holding k b" pc Idle]
      count_pc_upd[OF assms(2), of "\<lambda>y. y = Holding k (\<not> b)" pc Idle] assms(3) by auto
  define m' where "m' = (if b then m\<lparr>rw_r := rw_r m - 1\<rparr> else m\<lparr>rw_w := False\<rparr>)"
  have unlock: "cm_unlock b m = Ret m'" and count: "cm_count m' = cm_count m"
    using assms(1) h by (cases b; force simp: cm_unlock_def m'_def mutex_inv_def of_bool_def split: if_splits)+
  have w: "of_bool (rw_w m') = count_pc n (\<lambda>x. x = Holding k False) ?q"
    and r: "rw_r m' = count_pc n (\<lambda>x. x = Holding k True) ?q" and x: "\<not> (rw_w m' \<and> 0 < rw_r m')"
    using assms(1) h o by (cases b; force simp: m'_def mutex_inv_def of_bool_def split: if_splits)+
  have d: "cm_count m' - 1 = of_nat (count_pc n (uses k) ?q)"
    using assms(1) by (simp add: count mutex_inv_def c[symmetric])
  show thesis
  proof (rule that[OF unlock _ _ count])
    show "mutex_inv n ?q k (cm_dec m')" if "1 < count_pc n (uses k) pc"
      using that c w r x d by (simp add: mutex_inv_def cm_dec_def)
    have "count_pc n (\<lambda>y. y = Holding k v) ?q = 0" if "count_pc n (uses k) pc = 1" for v
      using count_pc_mono[of "\<lambda>y. y = Holding k v" "uses k" n ?q] that c by auto
    then show "cm_reset (cm_dec m') = newCountRWMutex" if "count_pc n (uses k) pc = 1"
      using that w r by (cases m') (simp add: cm_reset_def cm_dec_def newCountRWMutex_def of_bool_def split: if_splits)
  qed
qed

text \<open>A step of goroutine \<open>t\<close> that concerns only the key \<open>key\<close> and its mutex \<open>r\<close>.\<close>

lemma pool_inv_key:
  assumes inv: "pool_inv n (pc, l)" and t: "t < n"
    and own: "\<And>k. k \<noteq> key \<Longrightarrow> \<not> uses k (pc t) \<and> \<not> uses k x"
    and wait: "\<And>k q b. x = Waiting k q b \<Longrightarrow> q = r"
    and map: "\<And>k. Load (lockerMap l') k = (if k = key then Some r else Load (lockerMap l) k)"
    and fresh: "\<And>k. k \<noteq> key \<Longrightarrow> Load (lockerMap l) k \<noteq> Some r"
    and same: "Load (lockerMap l) key \<in> {None, Some r}"
    and at: "\<And>q. q \<noteq> r \<Longrightarrow> lp_at l' q = lp_at l q"
    and pool: "set (syncPool l') \<subseteq> set (syncPool l) - {r}" "distinct (syncPool l')"
    and next_mu: "lp_next l \<le> lp_next l'" "r < lp_next l'"
    and mu: "mutex_inv n (pc(t := x)) key (lp_at l' r)"
  shows "pool_inv n (pc(t := x), l')"
proof -
  have others: "mutex_inv n (pc(t := x)) k (lp_at l' q)" if "Load (lockerMap l) k = Some q" "k \<noteq> key" for k q
    using mutex_inv_other[OF t, of k pc x] own[OF that(2)] pool_invD(3)[OF inv that(1)] at[of q] fresh[OF that(2)] that(1)
    by (metis)
  have "count_pc n (uses k) (pc(t := x)) = 0" if "Load (lockerMap l) k = None" "k \<noteq> key" for k
    using count_pc_other[of t n "uses k" pc x] own[OF that(2)] pool_invD(5)[OF inv that(1)] t by simp
  moreover have "\<forall>u < n. \<forall>k q b. (pc(t := x)) u = Waiting k q b \<longrightarrow> Load (lockerMap l') k = Some q"
  proof (intro allI impI)
    fix u k q b assume u: "u < n" "(pc(t := x)) u = Waiting k q b"
    show "Load (lockerMap l') k = Some q"
    proof (cases "u = t")
      case True
      then show ?thesis using u wait[of k q b] own[of k] map by auto
    next
      case False
      then show ?thesis using u pool_invD(9)[OF inv u(1), of k q b] map same by auto
    qed
  qed
  moreover have "r' < lp_next l' \<and> r' \<notin> set (syncPool l')" if "Load (lockerMap l') k = Some r'" for k r'
    using that map pool next_mu pool_invD(1,2)[OF inv, of k r'] by (fastforce split: if_splits)
  moreover have "\<forall>q\<in>set (syncPool l'). q < lp_next l' \<and> lp_at l' q = newCountRWMutex"
    using pool next_mu at pool_invD(6,7)[OF inv] by fastforce
  ultimately show ?thesis
    using mu others map fresh pool(2) pool_invD(4)[OF inv] unfolding pool_inv_def by (auto split: if_splits)
qed

lemma pool_Get_facts:
  assumes inv: "pool_inv n (pc, l)" and g: "pool_Get choice l = (r, l1)"
  shows "lockerMap l1 = lockerMap l" and "Load (lockerMap l) k \<noteq> Some r" and "lp_at l1 r = newCountRWMutex"
    and "q \<noteq> r \<Longrightarrow> lp_at l1 q = lp_at l q" and "set (syncPool l1) \<subseteq> set (syncPool l) - {r}"
    and "distinct (syncPool l1)" and "lp_next l \<le> lp_next l1" and "r < lp_next l1"
  using g pool_invD(1,2)[OF inv, of k r] pool_invD(6,7)[OF inv] pool_invD(8)[OF inv]
  by (force simp: pool_Get_def upd_lp_def split: option.splits if_splits)+

lemma pool_inv_fetch:
  assumes inv: "pool_inv n (pc, l)" and t: "t < n" "pc t = Idle" and f: "Lock_fetch choice key l = (r, l')"
  shows "pool_inv n (pc(t := Waiting key r b), l')"
proof (cases "Load (lockerMap l) key")
  case (Some q)
  then have l': "r = q" "l' = upd_lp q cm_inc l" using f by (auto simp: Lock_fetch_def)
  show ?thesis
    by (rule pool_inv_key[OF inv t(1), where key = key])
      (use Some l' t pool_invD(1,2,4,8)[OF inv] mutex_inv_fetch[OF pool_invD(3)[OF inv Some] t] in
        \<open>auto simp: upd_lp_def\<close>)
next
  case None
  obtain l1 where g: "pool_Get choice l = (r, l1)"
    and l': "l' = upd_lp r cm_inc (l1\<lparr>lockerMap := Store key r (lockerMap l1)\<rparr>)"
    using f None by (auto simp: Lock_fetch_def split: prod.splits)
  note facts = pool_Get_facts[OF inv g]
  show ?thesis
    by (rule pool_inv_key[OF inv t(1), where key = key])
      (use None l' t facts mutex_inv_new[OF pool_invD(5)[OF inv None] t] in \<open>auto simp: upd_lp_def\<close>)
qed

lemma pool_inv_acquire:
  assumes inv: "pool_inv n (pc, l)" and t: "t < n" "pc t = Waiting key r b" and c: "can_lock b (lp_at l r)"
  shows "pool_inv n (pc(t := Holding key b), upd_lp r (cm_lock b) l)"
proof -
  have m: "Load (lockerMap l) key = Some r" using pool_invD(9)[OF inv t] .
  show ?thesis
    by (rule pool_inv_key[OF inv t(1), where key = key])
      (use m t pool_invD(1,2,4,8)[OF inv] mutex_inv_acquire[OF pool_invD(3)[OF inv m] t c] in
        \<open>auto simp: upd_lp_def\<close>)
qed

lemma sint_of_nat_le_0: "c < 2 ^ 31 \<Longrightarrow> sint (of_nat c :: 32 word) \<le> 0 \<longleftrightarrow> c = 0"
  by (simp add: signed_of_nat signed_take_bit_int_eq_self)

lemma pool_inv_drop:
  assumes inv: "pool_inv n (pc, l)" and t: "t < n" "pc t = Holding key b" and m: "Load (lockerMap l) key = Some r"
    and one: "count_pc n (uses key) pc = 1" and at: "\<And>q. q \<noteq> r \<Longrightarrow> lp_at l' q = lp_at l q"
    and new: "lp_at l' r = newCountRWMutex" and l': "lockerMap l' = Delete key (lockerMap l)"
      "syncPool l' = r # syncPool l" "lp_next l' = lp_next l"
  shows "pool_inv n (pc(t := Idle), l')"
proof -
  have zero: "count_pc n (uses key) (pc(t := Idle)) = 0"
    using count_pc_upd[OF t(1), of "uses key" pc Idle] one t(2) by simp
  have others: "mutex_inv n (pc(t := Idle)) k (lp_at l' q)" if "Load (lockerMap l) k = Some q" "k \<noteq> key" for k q
  proof -
    have "q \<noteq> r" using pool_invD(4)[OF inv m, of k] that by auto
    then show ?thesis using mutex_inv_other[OF t(1), of k pc Idle] pool_invD(3)[OF inv that(1)] at[of q] t(2) that(2) by simp
  qed
  have "count_pc n (uses k) (pc(t := Idle)) = 0" if "Load (lockerMap l) k = None" for k
    using count_pc_upd[OF t(1), of "uses k" pc Idle] pool_invD(5)[OF inv that] by simp
  moreover have "\<forall>u < n. \<forall>k q c. (pc(t := Idle)) u = Waiting k q c \<longrightarrow> Load (lockerMap l') k = Some q"
  proof (intro allI impI)
    fix u k q c assume u: "u < n" "(pc(t := Idle)) u = Waiting k q c"
    then show "Load (lockerMap l') k = Some q"
      using count_pc_zero[OF zero u(1)] pool_invD(9)[OF inv u(1), of k q c] l' by (auto split: if_splits)
  qed
  moreover have "q < lp_next l' \<and> q \<notin> set (syncPool l')" if "Load (lockerMap l') k = Some q" for k q
    using that l' pool_invD(1,2)[OF inv, of k q] pool_invD(4)[OF inv m, of k] by (auto split: if_splits)
  moreover have "q < lp_next l' \<and> lp_at l' q = newCountRWMutex" if "q \<in> set (syncPool l')" for q
    using that l' new at[of q] pool_invD(6,7)[OF inv, of q] pool_invD(1)[OF inv m] by (cases "q = r") auto
  ultimately show ?thesis
    using zero others l' pool_invD(2)[OF inv m] pool_invD(4)[OF inv] pool_invD(8)[OF inv]
    unfolding pool_inv_def by (auto split: if_splits)
qed

lemma pool_inv_release:
  assumes inv: "pool_inv n (pc, l)" and t: "t < n" "pc t = Holding key b" and n: "n < 2 ^ 31"
  obtains l' where "UnLock key b l = Ret l'" and "pool_inv n (pc(t := Idle), l')"
proof -
  obtain r where m: "Load (lockerMap l) key = Some r" using uses_loaded[OF inv t(1), of key] t(2) by auto
  obtain m' where u: "cm_unlock b (lp_at l r) = Ret m'"
    and more: "1 < count_pc n (uses key) pc \<Longrightarrow> mutex_inv n (pc(t := Idle)) key (cm_dec m')"
    and last: "count_pc n (uses key) pc = 1 \<Longrightarrow> cm_reset (cm_dec m') = newCountRWMutex"
    and c: "cm_count m' = cm_count (lp_at l r)"
    using mutex_inv_release[OF pool_invD(3)[OF inv m] t] by blast
  have count: "cm_count (cm_dec m') = of_nat (count_pc n (uses key) pc - 1)" and pos: "0 < count_pc n (uses key) pc"
    using pool_invD(3)[OF inv m] c by (auto simp: mutex_inv_def cm_dec_def of_nat_diff)
  have zero: "sint (cm_count (cm_dec m')) \<le> 0 \<longleftrightarrow> count_pc n (uses key) pc = 1"
    using count_pc_le[of n "uses key" pc] n pos by (subst count, subst sint_of_nat_le_0) auto
  show thesis
  proof (cases "count_pc n (uses key) pc = 1")
    case True
    define l' where "l' = (upd_lp r cm_reset (upd_lp r (\<lambda>_. cm_dec m') l))
      \<lparr>syncPool := r # syncPool l, lockerMap := Delete key (lockerMap l)\<rparr>"
    have "UnLock key b l = Ret l'" using m u zero True by (simp add: UnLock_def l'_def Let_def upd_lp_def)
    moreover have "pool_inv n (pc(t := Idle), l')"
      by (rule pool_inv_drop[OF inv t m True]) (simp_all add: l'_def upd_lp_def last[OF True])
    ultimately show thesis by (rule that)
  next
    case False
    have "UnLock key b l = Ret (upd_lp r (\<lambda>_. cm_dec m') l)"
      using m u zero False by (simp add: UnLock_def Let_def upd_lp_def)
    moreover have "pool_inv n (pc(t := Idle), upd_lp r (\<lambda>_. cm_dec m') l)"
      by (rule pool_inv_key[OF inv t(1), where key = key])
        (use m t pool_invD(1,2,4,8)[OF inv] more pos False in \<open>auto simp: upd_lp_def\<close>)
    ultimately show thesis by (rule that)
  qed
qed

lemma pool_inv_init: "pool_inv n (\<lambda>_. Idle, NewLockerPool)"
  by (simp add: pool_inv_def NewLockerPool_def count_pc_def)

lemma pool_inv_step: "lp_step n s s' \<Longrightarrow> n < 2 ^ 31 \<Longrightarrow> pool_inv n s \<Longrightarrow> pool_inv n s'"
proof (induction rule: lp_step.induct)
  case (release t pc key b l l')
  then show ?case using pool_inv_release[of n pc l t key b] by auto
qed (auto intro: pool_inv_fetch pool_inv_acquire)

lemma pool_inv_reachable:
  "(lp_step n)\<^sup>*\<^sup>* s s' \<Longrightarrow> n < 2 ^ 31 \<Longrightarrow> pool_inv n s \<Longrightarrow> pool_inv n s'"
  by (induction rule: rtranclp_induct) (auto intro: pool_inv_step)

lemma no_entry:
  assumes "\<And>k. Load m k = None"
  shows "m = []"
proof (cases m)
  case (Cons e m')
  then show ?thesis using assms[of "fst e"] by (cases e) simp
qed

lemma pool_inv_excl:
  assumes inv: "pool_inv n (pc, l)" and t: "t < n" "pc t = Holding key False" and u: "u < n" "pc u = Holding key b"
  shows "u = t"
proof (rule ccontr)
  assume "u \<noteq> t"
  obtain r where m: "Load (lockerMap l) key = Some r" using uses_loaded[OF inv t(1), of key] t(2) by auto
  note mu = pool_invD(3)[OF inv m]
  show False
  proof (cases b)
    case True
    then show False using mu count_pc_pos[of t n "\<lambda>x. x = Holding key False" pc] t
        count_pc_pos[of u n "\<lambda>x. x = Holding key True" pc] u by (auto simp: mutex_inv_def of_bool_def split: if_splits)
  next
    case False
    then have "2 \<le> count_pc n (\<lambda>x. x = Holding key False) pc"
      using count_pc_two[of t n u "\<lambda>x. x = Holding key False" pc] t u \<open>u \<noteq> t\<close> by simp
    then show False using mu by (auto simp: mutex_inv_def of_bool_def split: if_splits)
  qed
qed

section \<open>Properties\<close>

text \<open>
  C23. The pool of locks excludes: whatever the interleaving, while a goroutine holds a key for
  writing no other goroutine holds that key, unlocking never fails for a holder, and a pool
  nobody uses holds no lock. The count is 32 bits wide, so there must be fewer than
  \<open>2 ^ 31\<close> goroutines.
\<close>

theorem locker_pool_exclusive:
  assumes "n < 2 ^ 31" and "(lp_step n)\<^sup>*\<^sup>* (\<lambda>_. Idle, NewLockerPool) (pc, l)" and "t < n"
  shows "(\<forall>u < n. \<forall>key b. pc t = Holding key False \<and> pc u = Holding key b \<longrightarrow> u = t) \<and>
    (\<forall>key b. pc t = Holding key b \<longrightarrow> (\<exists>l'. UnLock key b l = Ret l')) \<and>
    ((\<forall>u < n. pc u = Idle) \<longrightarrow> lockerMap l = [])"
proof -
  have inv: "pool_inv n (pc, l)" using pool_inv_reachable[OF assms(2,1) pool_inv_init] .
  have "lockerMap l = []" if "\<forall>u < n. pc u = Idle"
  proof -
    have "count_pc n (uses k) pc = 0" for k using that by (simp add: count_pc_def)
    then have "Load (lockerMap l) k = None" for k
      using pool_invD(3)[OF inv, of k] by (cases "Load (lockerMap l) k") (auto simp: mutex_inv_def)
    then show ?thesis by (rule no_entry)
  qed
  moreover have "u = t" if "u < n" "pc t = Holding key False" "pc u = Holding key b" for u key b
    using pool_inv_excl[OF inv assms(3) that(2,1,3)] .
  moreover have "\<exists>l'. UnLock key b l = Ret l'" if "pc t = Holding key b" for key b
    using pool_inv_release[OF inv assms(3) that assms(1)] by metis
  ultimately show ?thesis by simp
qed

theorem locker_pool_exclusive_witness:
  "\<exists>pc l. (lp_step 2)\<^sup>*\<^sup>* (\<lambda>_. Idle, NewLockerPool) (pc, l) \<and> pc 0 = Holding ''task'' False \<and>
     pc 1 \<noteq> Holding ''task'' True \<and> (\<exists>l'. UnLock ''task'' False l = Ret l')"
proof -
  define l1 where "l1 = snd (Lock_fetch None ''task'' NewLockerPool)"
  define pc1 where "pc1 = (\<lambda>_ :: nat. Idle)(0 := Waiting ''task'' 0 False)"
  have f: "Lock_fetch None ''task'' NewLockerPool = (0, l1)"
    by (simp add: l1_def Lock_fetch_def NewLockerPool_def pool_Get_def upd_lp_def)
  have 1: "lp_step 2 (\<lambda>_. Idle, NewLockerPool) (pc1, l1)"
    unfolding pc1_def by (rule lp_step.fetch[OF _ _ f]) simp_all
  have 2: "lp_step 2 (pc1, l1) (pc1(0 := Holding ''task'' False), upd_lp 0 (cm_lock False) l1)"
    by (rule lp_step.acquire) (simp_all add: pc1_def l1_def Lock_fetch_def NewLockerPool_def pool_Get_def mutex_defs)
  have reach: "(lp_step 2)\<^sup>*\<^sup>* (\<lambda>_. Idle, NewLockerPool) (pc1(0 := Holding ''task'' False), upd_lp 0 (cm_lock False) l1)"
    using 1 2 by (meson r_into_rtranclp rtranclp_trans)
  show ?thesis
    using locker_pool_exclusive[OF _ reach, of 0] reach
    by (intro exI[of _ "pc1(0 := Holding ''task'' False)"] exI[of _ "upd_lp 0 (cm_lock False) l1"])
      (auto simp: pc1_def)
qed

text \<open>A schedule of calls, executed; each is a step of the relation.\<close>

datatype kr_action = Fetch nat string bool | Acquire nat | Release nat

fun kr_exec :: "kr_action \<Rightarrow> (nat \<Rightarrow> goroutine) \<times> Krwmutex \<Rightarrow> ((nat \<Rightarrow> goroutine) \<times> Krwmutex) option" where
  "kr_exec (Fetch t key b) (pc, k) =
     (if pc t = Idle then Some (pc(t := Waiting key (fst (kr_fetch key k)) b), snd (kr_fetch key k)) else None)"
| "kr_exec (Acquire t) (pc, k) =
     (case pc t of
        Waiting key r b \<Rightarrow>
          if can_lock b (kr_at k r)
          then Some (pc(t := Holding key b), k\<lparr>kr_at := (kr_at k)(r := cm_lock b (kr_at k r))\<rparr>) else None
      | _ \<Rightarrow> None)"
| "kr_exec (Release t) (pc, k) =
     (case pc t of
        Holding key b \<Rightarrow> (case kr_unlock key b k of Ret k' \<Rightarrow> Some (pc(t := Idle), k') | _ \<Rightarrow> None)
      | _ \<Rightarrow> None)"

lemma kr_exec_step: "kr_exec a s = Some s' \<Longrightarrow> kr_step s s'"
  by (induction a s rule: kr_exec.induct)
    (auto split: if_splits goroutine.splits outcome.splits intro: kr_step.intros)

fun kr_run :: "kr_action list \<Rightarrow> (nat \<Rightarrow> goroutine) \<times> Krwmutex \<Rightarrow> ((nat \<Rightarrow> goroutine) \<times> Krwmutex) option" where
  "kr_run [] s = Some s"
| "kr_run (a # as) s = (case kr_exec a s of None \<Rightarrow> None | Some s' \<Rightarrow> kr_run as s')"

lemma kr_run_steps: "kr_run as s = Some s' \<Longrightarrow> kr_step\<^sup>*\<^sup>* s s'"
  by (induction "as" arbitrary: s)
    (auto split: option.splits dest!: kr_exec_step intro: converse_rtranclp_into_rtranclp)

lemmas kr_defs = NewKrwmutex_def kr_fetch_def kr_unlock_def LoadOrStore_def Let_def mutex_defs

text \<open>
  C24. \<open>Krwmutex\<close> does not exclude: \<open>Unlock\<close> removes the mutex of the key from the map while
  another goroutine waits for it. That goroutine then gets the old mutex and a third one a new
  mutex, and both hold the key for writing.
\<close>

theorem krwmutex_two_writers:
  assumes "distinct [t, u, v]"
  shows "\<exists>pc k. kr_step\<^sup>*\<^sup>* (\<lambda>_. Idle, NewKrwmutex) (pc, k) \<and> pc u = Holding key False \<and> pc v = Holding key False"
proof -
  define run where "run = kr_run [Fetch t key False, Acquire t, Fetch u key False, Release t, Acquire u,
    Fetch v key False, Acquire v] (\<lambda>_. Idle, NewKrwmutex)"
  have "\<exists>pc k. run = Some (pc, k) \<and> pc u = Holding key False \<and> pc v = Holding key False"
    using assms by (simp add: run_def kr_defs)
  then show ?thesis using kr_run_steps unfolding run_def by blast
qed

theorem krwmutex_two_writers_witness:
  "\<exists>pc k. kr_step\<^sup>*\<^sup>* (\<lambda>_. Idle, NewKrwmutex) (pc, k) \<and> pc 1 = Holding ''task'' False \<and> pc 2 = Holding ''task'' False"
  by (rule krwmutex_two_writers[of 0]) simp

text \<open>A goroutine that waits for a mutex which is locked and which no other goroutine can reach.\<close>

definition kr_stuck :: "nat \<Rightarrow> string \<Rightarrow> nat \<Rightarrow> (nat \<Rightarrow> goroutine) \<times> Krwmutex \<Rightarrow> bool" where
  "kr_stuck w key m = (\<lambda>(pc, k). pc w = Waiting key m False \<and> 0 < rw_r (kr_at k m) \<and> m < kr_next k \<and>
     (\<forall>key'. Load (kr_m k) key' \<noteq> Some m) \<and> (\<forall>t key' b. t \<noteq> w \<longrightarrow> pc t \<noteq> Waiting key' m b))"

lemma kr_stuck_step: "kr_step s s' \<Longrightarrow> kr_stuck w key m s \<Longrightarrow> kr_stuck w key m s'"
proof (induction rule: kr_step.induct)
  case (kr_fetch pc t key' k r k' b)
  then show ?case by (auto simp: kr_stuck_def kr_defs split: option.splits if_splits)
next
  case (kr_acquire pc t key' r b k)
  then show ?case by (auto simp: kr_stuck_def can_lock_def)
next
  case (kr_release pc t key' b k k')
  then show ?case
    by (auto simp: kr_stuck_def kr_unlock_def Let_def obind_eq_Ret split: option.splits if_splits)
qed

lemma kr_stuck_forever: "kr_step\<^sup>*\<^sup>* s s' \<Longrightarrow> kr_stuck w key m s \<Longrightarrow> kr_stuck w key m s'"
  by (induction rule: rtranclp_induct) (auto intro: kr_stuck_step)

text \<open>
  \<open>Krwmutex\<close> loses a waiting writer: after two readers released the key, in a state where no
  goroutine holds it, a writer that waited for them never gets its lock, whatever happens next.
  The first \<open>RUnlock\<close> removed the mutex from the map and the second one found nothing to unlock.
\<close>

theorem krwmutex_lost_writer:
  assumes "distinct [t, u, w]"
  shows "\<exists>pc k m. kr_step\<^sup>*\<^sup>* (\<lambda>_. Idle, NewKrwmutex) (pc, k) \<and> (\<forall>v. v \<noteq> w \<longrightarrow> pc v = Idle) \<and>
    (\<forall>pc' k'. kr_step\<^sup>*\<^sup>* (pc, k) (pc', k') \<longrightarrow> pc' w = Waiting key m False)"
proof -
  define run where "run = kr_run [Fetch t key True, Acquire t, Fetch u key True, Acquire u, Fetch w key False,
    Release t, Release u] (\<lambda>_. Idle, NewKrwmutex)"
  have "\<exists>pc k. run = Some (pc, k) \<and> (\<forall>v. v \<noteq> w \<longrightarrow> pc v = Idle) \<and> kr_stuck w key 0 (pc, k)"
    using assms by (auto simp: run_def kr_defs kr_stuck_def)
  then obtain pc k where run: "run = Some (pc, k)" and idle: "\<forall>v. v \<noteq> w \<longrightarrow> pc v = Idle"
    and stuck: "kr_stuck w key 0 (pc, k)" by blast
  have "pc' w = Waiting key 0 False" if "kr_step\<^sup>*\<^sup>* (pc, k) (pc', k')" for pc' k'
    using kr_stuck_forever[OF that stuck] by (simp add: kr_stuck_def)
  then show ?thesis using kr_run_steps[OF run[unfolded run_def]] idle by blast
qed

theorem krwmutex_lost_writer_witness:
  "\<exists>pc k m. kr_step\<^sup>*\<^sup>* (\<lambda>_. Idle, NewKrwmutex) (pc, k) \<and> (\<forall>v. v \<noteq> 2 \<longrightarrow> pc v = Idle) \<and>
    (\<forall>pc' k'. kr_step\<^sup>*\<^sup>* (pc, k) (pc', k') \<longrightarrow> pc' 2 = Waiting ''task'' m False)"
  by (rule krwmutex_lost_writer[of 0 1]) simp

end
