(* ===== verification/Files.thy ===== *)
theory Files
  imports Go_Text
begin

text \<open>
  What the storage code uses of Go's \<open>os\<close> and \<open>path\<close>: files are inodes with bytes, reached through
  directory entries, so that hard links share their bytes. A call that fails for a reason the model
  does not have (permissions, a full disk) is decided by an argument \<open>bad\<close>, one truth value for
  each call and path. Paths are clean: no empty element and no dot element.
\<close>

section \<open>State\<close>

type_synonym path = string

datatype entry = FileAt nat | SymlinkTo path | Directory

record fs =
  entries :: "(path, entry) gomap"
  blocks :: "nat \<Rightarrow> uint8 list"
  next_inode :: nat

datatype os_op =
  OpOpen | OpSeek | OpRead | OpWrite | OpUnlink | OpLink | OpSymlink | OpStat | OpMkdir | OpReadDir | OpClose | OpReadlink

datatype os_error = NotExist | OtherError os_op

type_synonym os_fail = "os_op \<Rightarrow> path \<Rightarrow> bool"

section \<open>path\<close>

definition path_Join :: "path \<Rightarrow> path \<Rightarrow> path" where
  "path_Join a b = (if HasSuffix a ''/'' then a @ b else a @ ''/'' @ b)"

text \<open>The part up to and with the last slash, and the rest.\<close>

definition path_Split :: "path \<Rightarrow> path \<times> path" where
  "path_Split p =
     (rev (dropWhile (\<lambda>c. c \<noteq> CHR ''/'') (rev p)), rev (takeWhile (\<lambda>c. c \<noteq> CHR ''/'') (rev p)))"

definition path_Dir :: "path \<Rightarrow> path" where
  "path_Dir p = TrimSuffix (fst (path_Split p)) ''/''"

text \<open>The directories on the way to \<open>p\<close>, and \<open>p\<close>.\<close>

definition path_dirs :: "path \<Rightarrow> path list" where
  "path_dirs p = map (\<lambda>n. take n p) (filter (\<lambda>n. 0 < n \<and> (n = length p \<or> p ! n = CHR ''/'')) [0..<Suc (length p)])"

definition below :: "path \<Rightarrow> path \<Rightarrow> bool" where
  "below dir p = HasPrefix p (dir @ ''/'')"

section \<open>os\<close>

definition link_target :: "path \<Rightarrow> fs \<Rightarrow> path" where
  "link_target p s = (case Load (entries s) p of Some (SymlinkTo q) \<Rightarrow> q | _ \<Rightarrow> p)"

definition inode_of :: "path \<Rightarrow> fs \<Rightarrow> nat option" where
  "inode_of p s = (case Load (entries s) (link_target p s) of Some (FileAt i) \<Rightarrow> Some i | _ \<Rightarrow> None)"

definition file_bytes :: "path \<Rightarrow> fs \<Rightarrow> uint8 list option" where
  "file_bytes p s = map_option (blocks s) (inode_of p s)"

definition os_Open :: "os_fail \<Rightarrow> path \<Rightarrow> fs \<Rightarrow> os_error + nat" where
  "os_Open bad p s =
     (if bad OpOpen p then Inl (OtherError OpOpen)
      else case inode_of p s of None \<Rightarrow> Inl NotExist | Some i \<Rightarrow> Inr i)"

text \<open>\<open>OpenFile\<close> with \<open>O_CREATE|O_RDWR\<close>, and with \<open>O_TRUNC\<close> if \<open>trunc\<close>.\<close>

definition os_Create :: "os_fail \<Rightarrow> bool \<Rightarrow> path \<Rightarrow> fs \<Rightarrow> (os_error + nat) \<times> fs" where
  "os_Create bad trunc p s =
     (if bad OpOpen p then (Inl (OtherError OpOpen), s)
      else case Load (entries s) (link_target p s) of
             Some (FileAt i) \<Rightarrow> (Inr i, if trunc then s\<lparr>blocks := (blocks s)(i := [])\<rparr> else s)
           | None \<Rightarrow>
               (Inr (next_inode s),
                s\<lparr>entries := Store (link_target p s) (FileAt (next_inode s)) (entries s),
                  blocks := (blocks s)(next_inode s := []), next_inode := next_inode s + 1\<rparr>)
           | _ \<Rightarrow> (Inl (OtherError OpOpen), s))"

definition os_Remove :: "os_fail \<Rightarrow> path \<Rightarrow> fs \<Rightarrow> os_error option \<times> fs" where
  "os_Remove bad p s =
     (if bad OpUnlink p then (Some (OtherError OpUnlink), s)
      else case Load (entries s) p of
             None \<Rightarrow> (Some NotExist, s)
           | Some Directory \<Rightarrow>
               if list_ex (below p) (map fst (entries s)) then (Some (OtherError OpUnlink), s)
               else (None, s\<lparr>entries := Delete p (entries s)\<rparr>)
           | _ \<Rightarrow> (None, s\<lparr>entries := Delete p (entries s)\<rparr>))"

definition os_Link :: "os_fail \<Rightarrow> path \<Rightarrow> path \<Rightarrow> fs \<Rightarrow> os_error option \<times> fs" where
  "os_Link bad old new s =
     (if bad OpLink new then (Some (OtherError OpLink), s)
      else case (Load (entries s) old, Load (entries s) new) of
             (Some (FileAt i), None) \<Rightarrow> (None, s\<lparr>entries := Store new (FileAt i) (entries s)\<rparr>)
           | (None, _) \<Rightarrow> (Some NotExist, s)
           | _ \<Rightarrow> (Some (OtherError OpLink), s))"

definition os_Symlink :: "os_fail \<Rightarrow> path \<Rightarrow> path \<Rightarrow> fs \<Rightarrow> os_error option \<times> fs" where
  "os_Symlink bad old new s =
     (if bad OpSymlink new then (Some (OtherError OpSymlink), s)
      else case Load (entries s) new of
             None \<Rightarrow> (None, s\<lparr>entries := Store new (SymlinkTo old) (entries s)\<rparr>)
           | Some _ \<Rightarrow> (Some (OtherError OpSymlink), s))"

definition os_Stat :: "os_fail \<Rightarrow> path \<Rightarrow> fs \<Rightarrow> os_error option" where
  "os_Stat bad p s =
     (if bad OpStat p then Some (OtherError OpStat)
      else case Load (entries s) (link_target p s) of None \<Rightarrow> Some NotExist | Some _ \<Rightarrow> None)"

definition os_Lstat :: "os_fail \<Rightarrow> path \<Rightarrow> fs \<Rightarrow> os_error + entry" where
  "os_Lstat bad p s =
     (if bad OpStat p then Inl (OtherError OpStat)
      else case Load (entries s) p of None \<Rightarrow> Inl NotExist | Some e \<Rightarrow> Inr e)"

definition os_MkdirAll :: "os_fail \<Rightarrow> path \<Rightarrow> fs \<Rightarrow> os_error option \<times> fs" where
  "os_MkdirAll bad p s =
     (if bad OpMkdir p then (Some (OtherError OpMkdir), s)
      else (None, fold (\<lambda>d s. if Load (entries s) d = None
                              then s\<lparr>entries := Store d Directory (entries s)\<rparr> else s) (path_dirs p) s))"

text \<open>Writing at an offset: a gap before it reads as zeros.\<close>

definition write_at :: "nat \<Rightarrow> uint8 list \<Rightarrow> uint8 list \<Rightarrow> uint8 list" where
  "write_at off bs old =
     (if bs = [] then old
      else take off (old @ replicate (off - length old) 0) @ bs @ drop (off + length bs) old)"

definition fs_write :: "nat \<Rightarrow> nat \<Rightarrow> uint8 list \<Rightarrow> fs \<Rightarrow> fs" where
  "fs_write i off bs s = s\<lparr>blocks := (blocks s)(i := write_at off bs (blocks s i))\<rparr>"

definition read_at :: "nat \<Rightarrow> nat \<Rightarrow> uint8 list \<Rightarrow> uint8 list" where
  "read_at off len bs = take len (drop off bs)"

section \<open>Laws of reading and writing\<close>

text \<open>Two ranges of bytes that share none.\<close>

definition disjoint_ranges :: "nat \<times> nat \<Rightarrow> nat \<times> nat \<Rightarrow> bool" where
  "disjoint_ranges a b \<longleftrightarrow> fst a + snd a \<le> fst b \<or> fst b + snd b \<le> fst a"

lemma length_write_at: "bs \<noteq> [] \<Longrightarrow> length (write_at off bs old) = max (length old) (off + length bs)"
  by (simp add: write_at_def)

lemma write_at_nth:
  "bs \<noteq> [] \<Longrightarrow> k < max (length old) (off + length bs) \<Longrightarrow>
   write_at off bs old ! k =
     (if off \<le> k \<and> k < off + length bs then bs ! (k - off) else if k < length old then old ! k else 0)"
  by (auto simp: write_at_def nth_append min_def)

lemma read_write_same: "bs \<noteq> [] \<Longrightarrow> read_at off (length bs) (write_at off bs old) = bs"
  by (simp add: read_at_def write_at_def)

lemma read_write_disjoint:
  assumes "disjoint_ranges (off, length bs) (o', len)" and "o' + len \<le> length old"
  shows "read_at o' len (write_at off bs old) = read_at o' len old"
proof (cases "bs = []")
  case False
  show ?thesis
  proof (rule nth_equalityI)
    show "length (read_at o' len (write_at off bs old)) = length (read_at o' len old)"
      using assms(2) False by (simp add: read_at_def length_write_at)
  next
    fix k assume "k < length (read_at o' len (write_at off bs old))"
    then have k: "k < len" "o' + k < length (write_at off bs old)" by (auto simp: read_at_def)
    then show "read_at o' len (write_at off bs old) ! k = read_at o' len old ! k"
      using assms False write_at_nth[of bs "o' + k" old off]
      by (auto simp: read_at_def disjoint_ranges_def length_write_at)
  qed
qed (simp add: write_at_def)

lemma fs_write_simps [simp]:
  "entries (fs_write i off bs s) = entries s" "next_inode (fs_write i off bs s) = next_inode s"
  "blocks (fs_write i off bs s) j = (if j = i then write_at off bs (blocks s i) else blocks s j)"
  "inode_of p (fs_write i off bs s) = inode_of p s"
  by (simp_all add: fs_write_def inode_of_def link_target_def)

end
