(* ===== verification/Ranges.thy ===== *)
theory Ranges
  imports Go_Text
begin

text \<open>
  Byte ranges: \<open>pkg/util/rangeutils/range.go\<close>, whose ranges have inclusive 64-bit bounds, and
  \<open>client/clientutil/range.go\<close>, the parser of the HTTP \<open>Range\<close> header, whose ranges have a start and
  a length. Error messages are constructors; the length of the content is an argument.
\<close>

section \<open>rangeutils\<close>

record Range =
  StartIndex :: uint64
  EndIndex :: uint64

datatype range_error =
  IllegalRange | StartNotNumber | EndNotNumber | StartAfterEnd | BeyondLength

definition Range_String :: "Range \<Rightarrow> string" where
  "Range_String r = show_nat (unat (StartIndex r)) @ ''-'' @ show_nat (unat (EndIndex r))"

definition Range_Length :: "Range \<Rightarrow> uint64" where
  "Range_Length r = EndIndex r - StartIndex r + 1"

definition GetRange :: "string \<Rightarrow> range_error + Range" where
  "GetRange rangeStr =
     (case Split rangeStr CHR ''-'' of
        [a, b] \<Rightarrow>
          (case ParseUint10 a of
             Inl _ \<Rightarrow> Inl StartNotNumber
           | Inr startIndex \<Rightarrow>
               (case ParseUint10 b of
                  Inl _ \<Rightarrow> Inl EndNotNumber
                | Inr endIndex \<Rightarrow>
                    if endIndex < startIndex then Inl StartAfterEnd
                    else Inr \<lparr>StartIndex = startIndex, EndIndex = endIndex\<rparr>))
      | _ \<Rightarrow> Inl IllegalRange)"

definition handlePrefixRange :: "string \<Rightarrow> uint64 \<Rightarrow> range_error + Range" where
  "handlePrefixRange rangeStr len =
     (case ParseUint10 (TrimPrefix rangeStr ''-'') of
        Inl _ \<Rightarrow> Inl EndNotNumber
      | Inr downLength \<Rightarrow>
          if downLength > len then Inl BeyondLength
          else Inr \<lparr>StartIndex = len - downLength, EndIndex = len - 1\<rparr>)"

definition handleSuffixRange :: "string \<Rightarrow> uint64 \<Rightarrow> range_error + Range" where
  "handleSuffixRange rangeStr len =
     (case ParseUint10 (TrimSuffix rangeStr ''-'') of
        Inl _ \<Rightarrow> Inl StartNotNumber
      | Inr startIndex \<Rightarrow>
          if startIndex > len then Inl BeyondLength
          else Inr \<lparr>StartIndex = startIndex, EndIndex = len - 1\<rparr>)"

text \<open>\<open>rangePair[1]\<close> would be out of range for a string without a dash; \<open>ParseRange\<close> excludes it.\<close>

definition handlePairRange :: "string \<Rightarrow> uint64 \<Rightarrow> (range_error + Range) outcome" where
  "handlePairRange rangeStr len =
     (case Split rangeStr CHR ''-'' of
        a # rest \<Rightarrow>
          (case ParseUint10 a of
             Inl _ \<Rightarrow> Ret (Inl StartNotNumber)
           | Inr startIndex \<Rightarrow>
               if startIndex > len then Ret (Inl BeyondLength)
               else case rest of
                      [] \<Rightarrow> Panic ''index out of range''
                    | b # _ \<Rightarrow>
                        (case ParseUint10 b of
                           Inl _ \<Rightarrow> Ret (Inl EndNotNumber)
                         | Inr e \<Rightarrow>
                             let endIndex = (if e \<ge> len then len - 1 else e)
                             in if endIndex < startIndex then Ret (Inl StartAfterEnd)
                                else Ret (Inr \<lparr>StartIndex = startIndex, EndIndex = endIndex\<rparr>)))
      | [] \<Rightarrow> Panic ''index out of range'')"

definition ParseRange :: "string \<Rightarrow> uint64 \<Rightarrow> (range_error + Range) outcome" where
  "ParseRange rangeStr len =
     (if Count rangeStr CHR ''-'' \<noteq> 1 then Ret (Inl IllegalRange)
      else if HasPrefix rangeStr ''-'' then Ret (handlePrefixRange rangeStr len)
      else if HasSuffix rangeStr ''-'' then Ret (handleSuffixRange rangeStr len)
      else handlePairRange rangeStr len)"

section \<open>clientutil\<close>

record http_range =
  r_Start :: int64
  r_Length :: int64

datatype header_error = InvalidRange | ErrNoOverlap

text \<open>One element of the comma-separated list; \<open>Inr None\<close> is a range that begins after the content.\<close>

definition parse_spec :: "string \<Rightarrow> int64 \<Rightarrow> header_error + http_range option" where
  "parse_spec ra sz =
     (case Index ra CHR ''-'' of
        None \<Rightarrow> Inl InvalidRange
      | Some i \<Rightarrow>
          let start = TrimString (take i ra); end_pos = TrimString (drop (i + 1) ra)
          in if start = []
             then case ParseInt False end_pos of
                    Inl _ \<Rightarrow> Inl InvalidRange
                  | Inr n \<Rightarrow>
                      let n' = (if sint n > sint sz then sz else n); st = sz - n'
                      in Inr (Some \<lparr>r_Start = st, r_Length = sz - st\<rparr>)
             else case ParseInt False start of
                    Inl _ \<Rightarrow> Inl InvalidRange
                  | Inr n \<Rightarrow>
                      if sint n < 0 then Inl InvalidRange
                      else if sint n \<ge> sint sz then Inr None
                      else if end_pos = [] then Inr (Some \<lparr>r_Start = n, r_Length = sz - n\<rparr>)
                      else case ParseInt False end_pos of
                             Inl _ \<Rightarrow> Inl InvalidRange
                           | Inr e \<Rightarrow>
                               if sint n > sint e then Inl InvalidRange
                               else let e' = (if sint e \<ge> sint sz then sz - 1 else e)
                                    in Inr (Some \<lparr>r_Start = n, r_Length = e' - n + 1\<rparr>))"

fun parse_specs :: "string list \<Rightarrow> int64 \<Rightarrow> bool \<Rightarrow> http_range list \<Rightarrow> header_error + http_range list" where
  "parse_specs [] sz noOverlap ranges = (if noOverlap \<and> ranges = [] then Inl ErrNoOverlap else Inr ranges)"
| "parse_specs (ra0 # rest) sz noOverlap ranges =
     (let ra = TrimString ra0
      in if ra = [] then parse_specs rest sz noOverlap ranges
         else case parse_spec ra sz of
                Inl e \<Rightarrow> Inl e
              | Inr None \<Rightarrow> parse_specs rest sz True ranges
              | Inr (Some r) \<Rightarrow> parse_specs rest sz noOverlap (ranges @ [r]))"

definition http_ParseRange :: "string \<Rightarrow> int64 \<Rightarrow> header_error + http_range list" where
  "http_ParseRange s sz =
     (if s = [] then Inr []
      else if \<not> HasPrefix s ''bytes='' then Inl InvalidRange
      else parse_specs (Split (drop (length ''bytes='') s) CHR '','') sz False [])"

definition GetContentRange :: "int64 \<Rightarrow> int64 \<Rightarrow> int64 \<Rightarrow> string" where
  "GetContentRange start end_pos total_len =
     (if total_len = -1
      then ''bytes '' @ show_int (sint start) @ ''-'' @ show_int (sint end_pos) @ ''/*''
      else ''bytes '' @ show_int (sint start) @ ''-'' @ show_int (sint end_pos) @ ''/'' @ show_int (sint total_len))"

definition MustParseRange :: "string \<Rightarrow> int64 \<Rightarrow> http_range outcome" where
  "MustParseRange s sz =
     (case http_ParseRange s sz of
        Inl _ \<Rightarrow> Panic ''parse range error''
      | Inr [r] \<Rightarrow> Ret r
      | Inr _ \<Rightarrow> Panic ''parse range length must be 1'')"

section \<open>Lemmas\<close>

lemma Range_String_split: "Split (Range_String r) CHR ''-'' = [show_nat (unat (StartIndex r)), show_nat (unat (EndIndex r))]"
  by (simp add: Range_String_def Split_append show_nat_no_dash)

lemma ParseUint10_unat: "ParseUint10 (show_nat (unat w)) = Inr (w :: uint64)"
  using ParseUint10_show[of "unat w"] unsigned_less[of w] by simp

lemma word_sub_below: "x \<le> (n :: 64 word) \<Longrightarrow> n - x \<le> n"
  by (simp add: word_le_nat_alt unat_sub)

lemma ParseRange_cases:
  assumes "ParseRange s len = Ret (Inr r)"
  shows "(StartIndex r \<le> len \<and> EndIndex r = len - 1) \<or> (StartIndex r \<le> EndIndex r \<and> EndIndex r < len)"
  using assms unfolding ParseRange_def handlePrefixRange_def handleSuffixRange_def handlePairRange_def Let_def
  by (auto split: if_splits sum.splits list.splits simp: not_less word_sub_below)

lemma ParseRange_returns: "\<exists>x. ParseRange s len = Ret x"
proof -
  have "length (Split s CHR ''-'') = 2" if "Count s CHR ''-'' = 1" using that by (simp add: length_Split)
  then show ?thesis
    unfolding ParseRange_def handlePairRange_def Let_def
    by (auto split: if_splits sum.splits list.splits)
qed

lemma sint_sub_64:
  "- (2 ^ 63) \<le> sint (a :: int64) - sint b \<Longrightarrow> sint a - sint b < 2 ^ 63 \<Longrightarrow> sint (a - b) = sint a - sint b"
  by (simp add: sint_word_ariths signed_take_bit_int_eq_self)

lemma sint_add1_64: "sint (a :: int64) < 2 ^ 63 - 1 \<Longrightarrow> sint (a + 1) = sint a + 1"
  using sint_greater_eq[of a] by (simp add: sint_word_ariths signed_take_bit_int_eq_self)

lemma sint_bounds_64: "- (2 ^ 63) \<le> sint (a :: int64)" "sint (a :: int64) < 2 ^ 63"
  using sint_greater_eq[of a] sint_less[of a] by simp_all

lemma sint_of_nat_64: "n < 2 ^ 63 \<Longrightarrow> sint (of_nat n :: int64) = int n"
  by (simp add: signed_of_nat signed_take_bit_int_eq_self)

lemma ParseInt_nonneg:
  assumes "ParseInt False s = Inr n" "CHR ''-'' \<notin> set s"
  shows "0 \<le> sint n"
  using assms by (auto simp: ParseInt_def Let_def sint_of_nat_64 not_le split: list.splits sum.splits if_splits)

text \<open>A range within the content.\<close>

definition range_ok :: "int64 \<Rightarrow> http_range \<Rightarrow> bool" where
  "range_ok sz r \<longleftrightarrow> 0 \<le> sint (r_Start r) \<and> 0 \<le> sint (r_Length r) \<and> sint (r_Start r) + sint (r_Length r) \<le> sint sz"

lemma range_ok_suffix: "0 \<le> sint n \<Longrightarrow> sint n \<le> sint sz \<Longrightarrow> range_ok sz \<lparr>r_Start = sz - n, r_Length = n\<rparr>"
  using sint_bounds_64[of n] sint_bounds_64[of sz] by (simp add: range_ok_def sint_sub_64)

lemma range_ok_rest: "0 \<le> sint n \<Longrightarrow> sint n < sint sz \<Longrightarrow> range_ok sz \<lparr>r_Start = n, r_Length = sz - n\<rparr>"
  using sint_bounds_64[of n] sint_bounds_64[of sz] by (simp add: range_ok_def sint_sub_64)

lemma range_ok_pair:
  assumes "0 \<le> sint n" "sint n \<le> sint e" "sint e < sint sz"
  shows "range_ok sz \<lparr>r_Start = n, r_Length = e - n + 1\<rparr>"
proof -
  have d: "sint (e - n) = sint e - sint n"
    using assms sint_bounds_64[of n] sint_bounds_64[of e] by (intro sint_sub_64) linarith+
  have "sint (e - n + 1) = sint e - sint n + 1"
    using assms d sint_bounds_64[of sz] by (subst sint_add1_64) linarith+
  then show ?thesis using assms by (simp add: range_ok_def)
qed

lemma set_trim_by: "set (trim_by P s) \<subseteq> set s"
proof -
  have "set (trim_by P s) \<subseteq> set (dropWhile P s)" unfolding trim_by_def using set_dropWhileD by fastforce
  then show ?thesis using set_dropWhileD by fastforce
qed

lemma Count_filter_le: "length (filter Q (dropWhile P s)) \<le> length (filter Q s)"
  by (induction s) auto

lemma Count_trim: "Count (trim_by P s) c \<le> Count s c"
  using Count_filter_le[of "\<lambda>x. x = c" P s] Count_filter_le[of "\<lambda>x. x = c" P "rev (dropWhile P s)"]
  by (simp add: Count_def trim_by_def rev_filter[symmetric])

lemma Index_Some: "Index s c = Some i \<Longrightarrow> s = take i s @ c # drop (i + 1) s"
  by (induction s arbitrary: i) (auto split: if_splits)

lemma Index_rest:
  assumes "Index s c = Some i" "Count s c \<le> 1"
  shows "c \<notin> set (drop (i + 1) s)"
proof -
  have "Count s c = Count (take i s) c + 1 + Count (drop (i + 1) s) c"
    by (subst Index_Some[OF assms(1)]) (simp add: Count_def)
  then have "Count (drop (i + 1) s) c = 0" using assms(2) by linarith
  then show ?thesis by (auto simp: Count_def filter_empty_conv)
qed

lemma parse_spec_ok:
  assumes "parse_spec ra sz = Inr (Some r)" "Count ra CHR ''-'' \<le> 1" "0 \<le> sint sz"
  shows "range_ok sz r"
proof -
  obtain i where i: "Index ra CHR ''-'' = Some i" using assms(1) by (auto simp: parse_spec_def split: option.splits)
  have no_dash: "CHR ''-'' \<notin> set (TrimString (drop (i + 1) ra))"
    using Index_rest[OF i assms(2)] set_trim_by unfolding TrimString_def by blast
  have below: "sint (sz - 1) < sint sz" if "0 < sint sz"
    using that sint_sub_64[of sz 1] sint_bounds_64[of sz] by simp
  have whole: "range_ok sz \<lparr>r_Start = 0, r_Length = sz\<rparr>" using range_ok_suffix[of sz sz] assms(3) by simp
  show ?thesis
    using assms(1,3) i ParseInt_nonneg[OF _ no_dash] below whole
    by (auto simp: parse_spec_def Let_def split: if_splits sum.splits
        intro!: range_ok_suffix range_ok_rest range_ok_pair)
qed

lemma parse_specs_ok:
  "parse_specs specs sz noOverlap ranges = Inr rs \<Longrightarrow> \<forall>ra \<in> set specs. Count ra CHR ''-'' \<le> 1 \<Longrightarrow>
   0 \<le> sint sz \<Longrightarrow> \<forall>r \<in> set ranges. range_ok sz r \<Longrightarrow> \<forall>r \<in> set rs. range_ok sz r"
proof (induction specs arbitrary: noOverlap ranges)
  case Nil
  then show ?case by (auto split: if_splits)
next
  case (Cons ra specs)
  have "Count (TrimString ra) CHR ''-'' \<le> 1"
    using Cons.prems(2) Count_trim[of ascii_space ra "CHR ''-''"] by (force simp: TrimString_def)
  then have ok: "range_ok sz r" if "parse_spec (TrimString ra) sz = Inr (Some r)" for r
    using parse_spec_ok[OF that] Cons.prems(3) by blast
  have rest: "\<forall>ra \<in> set specs. Count ra CHR ''-'' \<le> 1" using Cons.prems(2) by simp
  note IH = Cons.IH[OF _ rest Cons.prems(3)]
  show ?case
  proof (cases "TrimString ra = []")
    case True
    then show ?thesis using IH[OF _ Cons.prems(4)] Cons.prems(1) by simp
  next
    case False
    then consider (skip) "parse_specs specs sz True ranges = Inr rs"
      | (add) r where "parse_spec (TrimString ra) sz = Inr (Some r)" "parse_specs specs sz noOverlap (ranges @ [r]) = Inr rs"
      using Cons.prems(1) by (auto simp: Let_def split: sum.splits option.splits)
    then show ?thesis
    proof cases
      case skip
      then show ?thesis using IH[OF _ Cons.prems(4)] by blast
    next
      case (add r)
      then show ?thesis using IH[OF add(2)] ok Cons.prems(4) by auto
    qed
  qed
qed

section \<open>Properties\<close>

text \<open>
  A range survives printing and parsing: \<open>GetRange\<close> reads back what \<open>String\<close> wrote exactly when
  the range is in order, and rejects it otherwise.
\<close>

theorem get_range_roundtrip:
  "GetRange (Range_String r) = (if StartIndex r \<le> EndIndex r then Inr r else Inl StartAfterEnd)"
  by (auto simp: GetRange_def Range_String_split ParseUint10_unat)

text \<open>
  C31. \<open>rangeutils.ParseRange\<close> never panics, and for content that is not empty every range it returns
  ends inside the content, and its \<open>Length\<close> is the number of bytes from its start to its end, 0 when
  it starts right after the content.
\<close>

theorem parse_range_bounds:
  assumes "0 < len"
  shows "\<exists>x. ParseRange s len = Ret x \<and>
    (\<forall>r. x = Inr r \<longrightarrow> EndIndex r < len \<and> StartIndex r \<le> EndIndex r + 1 \<and>
       unat (Range_Length r) = unat (EndIndex r) + 1 - unat (StartIndex r))"
proof -
  obtain x where x: "ParseRange s len = Ret x" using ParseRange_returns by blast
  have last: "unat (len - 1) = unat len - 1" using assms by (simp add: unat_minus_one word_neq_0_conv)
  have "EndIndex r < len \<and> StartIndex r \<le> EndIndex r + 1 \<and>
       unat (Range_Length r) = unat (EndIndex r) + 1 - unat (StartIndex r)" if "x = Inr r" for r
  proof -
    have e: "EndIndex r < len" using ParseRange_cases[of s len r] x that assms last by (auto simp: word_less_nat_alt)
    then have inc: "unat (EndIndex r + 1) = unat (EndIndex r) + 1"
      using unsigned_less[of len, where ?'a = nat] by (subst unat_word_ariths(1)) (simp add: word_less_nat_alt)
    have s: "StartIndex r \<le> EndIndex r + 1"
      using ParseRange_cases[of s len r] x that inc by (auto simp: word_le_nat_alt)
    have "unat (Range_Length r) = unat (EndIndex r + 1) - unat (StartIndex r)"
      using s unat_sub[of "StartIndex r" "EndIndex r + 1"] by (simp add: Range_Length_def algebra_simps)
    then show ?thesis using e s inc by simp
  qed
  then show ?thesis using x by blast
qed

theorem parse_range_bounds_witness:
  "\<exists>x. ParseRange ''5-'' 5 = Ret x \<and> (\<forall>r. x = Inr r \<longrightarrow> EndIndex r < 5 \<and> StartIndex r \<le> EndIndex r + 1 \<and>
     unat (Range_Length r) = unat (EndIndex r) + 1 - unat (StartIndex r))"
  by (rule parse_range_bounds) simp

text \<open>For empty content the last index wraps around: \<open>0-\<close> is the range of all 64-bit offsets.\<close>

lemma parse_range_empty: "ParseRange ''0-'' 0 = Ret (Inr \<lparr>StartIndex = 0, EndIndex = - 1\<rparr>)"
  by (simp add: ParseRange_def Count_def handleSuffixRange_def TrimSuffix_def HasSuffix_def ParseUint10_def
      digit_val_def)

text \<open>
  Every range \<open>clientutil.ParseRange\<close> reads from a header lies within the content, provided no
  element of the header has a second dash.
\<close>

theorem http_ranges_within:
  assumes "http_ParseRange header sz = Inr rs" and "0 \<le> sint sz"
    and "\<forall>ra \<in> set (Split (drop (length ''bytes='') header) CHR '',''). Count ra CHR ''-'' \<le> 1"
  shows "\<forall>r \<in> set rs. 0 \<le> sint (r_Start r) \<and> 0 \<le> sint (r_Length r) \<and> sint (r_Start r) + sint (r_Length r) \<le> sint sz"
proof -
  have "\<forall>r \<in> set rs. range_ok sz r"
    using assms(1) parse_specs_ok[OF _ assms(3,2), of False "[]" rs]
    by (auto simp: http_ParseRange_def split: if_splits)
  then show ?thesis by (simp add: range_ok_def)
qed

theorem http_ranges_within_witness:
  "http_ParseRange ''bytes=2-9, -1'' 5 = Inr [\<lparr>r_Start = 2, r_Length = 3\<rparr>, \<lparr>r_Start = 4, r_Length = 1\<rparr>] \<and>
   0 \<le> sint (3 :: int64) \<and> sint (2 :: int64) + sint (3 :: int64) \<le> sint (5 :: int64)"
proof -
  have "http_ParseRange ''bytes=2-9, -1'' 5 = Inr [\<lparr>r_Start = 2, r_Length = 3\<rparr>, \<lparr>r_Start = 4, r_Length = 1\<rparr>]"
    by (simp add: http_ParseRange_def parse_spec_def TrimString_def trim_by_def ascii_space_def ParseInt_def
        ParseUint_nat_def digit_val_def Let_def)
  then show ?thesis using http_ranges_within[of "''bytes=2-9, -1''" 5] by (simp add: Count_def)
qed

text \<open>
  A second dash is read as a negative suffix length, which RFC 7233 does not have:
  \<open>bytes=--5\<close> is accepted as a range that starts after the content and has a negative length.
\<close>

theorem http_range_negative_suffix:
  assumes "0 \<le> sint sz"
  shows "http_ParseRange ''bytes=--5'' sz = Inr [\<lparr>r_Start = sz + 5, r_Length = - 5\<rparr>]"
proof -
  have "\<not> sint sz < - 5" using assms by simp
  then show ?thesis
    by (simp add: http_ParseRange_def parse_spec_def TrimString_def trim_by_def ascii_space_def ParseInt_def
        ParseUint_nat_def digit_val_def Let_def)
qed

theorem http_range_negative_suffix_witness:
  "http_ParseRange ''bytes=--5'' 100 = Inr [\<lparr>r_Start = 105, r_Length = - 5\<rparr>]"
  using http_range_negative_suffix[of 100] by simp

end
