(* ===== verification/Local_Storage.thy ===== *)
theory Local_Storage
  imports Files Ids Ranges Supervisor_Model
begin

text \<open>
  \<open>client/daemon/storage/local_storage.go\<close> and \<open>metadata.go\<close>: the pieces of one task on the disk of a
  peer, with the metadata of its pieces. A reader is the bytes it will deliver and whether it fails
  after them; the encoding of the metadata (\<open>encoding/json\<close>) is a parameter.
\<close>

section \<open>metadata.go\<close>

record PieceMetadata =
  pm_Num :: int32
  pm_Md5 :: string
  pm_Offset :: uint64
  pm_Range :: http_range
  pm_Style :: int

record persistentMetadata =
  md_StoreStrategy :: string
  md_TaskID :: string
  md_TaskMeta :: "(string, string) gomap"
  md_ContentLength :: int64
  md_TotalPieces :: int32
  md_PeerID :: string
  md_Pieces :: "(int32, PieceMetadata) gomap"
  md_PieceMd5Sign :: string
  md_DataFilePath :: path
  md_Done :: bool

record PeerTaskMetadata =
  ptm_PeerID :: string
  ptm_TaskID :: string

section \<open>Readers\<close>

record stream =
  st_bytes :: "uint8 list"
  st_fails :: bool

text \<open>
  The readers \<open>WritePiece\<close> tells apart: an \<open>io.LimitedReader\<close> over a \<open>BufferedReader\<close> (the bytes in
  its buffer and the raw connection), over another reader, or any other reader, which may also know
  the digest of what was read.
\<close>

datatype reader =
  LimitedBuffered int64 "uint8 list" stream
| LimitedReader int64 stream
| OtherReader stream "(uint8 list \<Rightarrow> string) option"

text \<open>\<open>io.Copy\<close> from \<open>io.LimitReader(r, n)\<close>: the bytes, and whether the copy failed.\<close>

definition copy_limited :: "int \<Rightarrow> stream \<Rightarrow> uint8 list \<times> bool" where
  "copy_limited n s =
     (take (nat n) (st_bytes s), st_fails s \<and> int (length (st_bytes s)) < n)"

fun reader_stream :: "reader \<Rightarrow> stream" where
  "reader_stream (LimitedBuffered n buffered raw) =
     (let (bs, e) = copy_limited (sint n) \<lparr>st_bytes = buffered @ st_bytes raw, st_fails = st_fails raw\<rparr>
      in \<lparr>st_bytes = bs, st_fails = e\<rparr>)"
| "reader_stream (LimitedReader n s) =
     (let (bs, e) = copy_limited (sint n) s in \<lparr>st_bytes = bs, st_fails = e\<rparr>)"
| "reader_stream (OtherReader s _) = s"

section \<open>localTaskStore\<close>

text \<open>The metadata file is open at an inode, for writing or only for reading.\<close>

record localTaskStore =
  lt_meta :: persistentMetadata
  lt_dataDir :: path
  lt_metadataFile :: "nat \<times> bool"
  lt_metadataFilePath :: path
  lt_expireTime :: time
  lt_lastAccess :: time
  lt_reclaimMarked :: bool
  lt_invalid :: bool

datatype storage_error =
  ErrShortRead | ErrTaskNotFound | ErrPieceNotFound | ErrPieceCountNotSet | ErrDigestNotSet | ErrInvalidDigest
| ErrRead | ErrOs os_error

definition touch :: "time \<Rightarrow> localTaskStore \<Rightarrow> localTaskStore" where
  "touch now t = t\<lparr>lt_lastAccess := now\<rparr>"

abbreviation lt_Pieces :: "localTaskStore \<Rightarrow> (int32, PieceMetadata) gomap" where
  "lt_Pieces t \<equiv> md_Pieces (lt_meta t)"

abbreviation upd_meta :: "(persistentMetadata \<Rightarrow> persistentMetadata) \<Rightarrow> localTaskStore \<Rightarrow> localTaskStore" where
  "upd_meta f t \<equiv> t\<lparr>lt_meta := f (lt_meta t)\<rparr>"

record WritePieceRequest =
  w_Piece :: PieceMetadata
  w_UnknownLength :: bool
  w_Reader :: reader

text \<open>A piece that is known already: its bytes are read and dropped.\<close>

definition discard_piece :: "WritePieceRequest \<Rightarrow> PieceMetadata \<Rightarrow> int64 \<times> storage_error option" where
  "discard_piece req piece =
     (case copy_limited (sint (r_Length (pm_Range (w_Piece req)))) (reader_stream (w_Reader req)) of
        (bs, failed) \<Rightarrow>
          let n = of_nat (length bs)
          in if failed then (n, Some ErrRead)
             else if n \<noteq> r_Length (pm_Range piece) then (n, Some ErrShortRead)
             else (r_Length (pm_Range piece), None))"

text \<open>
  The bytes copied from the buffer of a \<open>BufferedReader\<close> and those copied after it, and whether the
  copy failed. The variable \<open>bn\<close> that should count the former is shadowed at line 99, so it is 0.
\<close>

definition copy_piece :: "WritePieceRequest \<Rightarrow> uint8 list \<times> uint8 list \<times> bool" where
  "copy_piece req =
     (case w_Reader req of
        LimitedBuffered n buffered raw \<Rightarrow>
          (buffered, copy_limited (sint (n - of_nat (length buffered))) raw)
      | LimitedReader n s \<Rightarrow> ([], copy_limited (sint n) s)
      | OtherReader s _ \<Rightarrow> ([], copy_limited (sint (r_Length (pm_Range (w_Piece req)))) s))"

definition piece_md5 :: "WritePieceRequest \<Rightarrow> uint8 list \<Rightarrow> string" where
  "piece_md5 req bs =
     (if pm_Md5 (w_Piece req) \<noteq> [] then pm_Md5 (w_Piece req)
      else case w_Reader req of OtherReader _ (Some digest) \<Rightarrow> digest bs | _ \<Rightarrow> [])"

text \<open>The piece is recorded under the lock unless another goroutine recorded it meanwhile.\<close>

definition commit_piece :: "PieceMetadata \<Rightarrow> localTaskStore \<Rightarrow> localTaskStore" where
  "commit_piece piece t =
     (case Load (lt_Pieces t) (pm_Num piece) of
        Some _ \<Rightarrow> t
      | None \<Rightarrow> upd_meta (\<lambda>m. m\<lparr>md_Pieces := Store (pm_Num piece) piece (md_Pieces m)\<rparr>) t)"

text \<open>A write that fails is taken to have written nothing.\<close>

definition WritePiece ::
  "os_fail \<Rightarrow> time \<Rightarrow> WritePieceRequest \<Rightarrow> localTaskStore \<times> fs
   \<Rightarrow> (int64 \<times> storage_error option) \<times> localTaskStore \<times> fs" where
  "WritePiece bad now req = (\<lambda>(t0, s).
     let t = touch now t0; piece = w_Piece req; file = md_DataFilePath (lt_meta t)
     in case Load (lt_Pieces t) (pm_Num piece) of
          Some known \<Rightarrow> (discard_piece req known, t, s)
        | None \<Rightarrow>
            (case os_Open bad file s of
               Inl e \<Rightarrow> ((0, Some (ErrOs e)), t, s)
             | Inr i \<Rightarrow>
                 if bad OpSeek file \<or> sint (r_Start (pm_Range piece)) < 0
                 then ((0, Some (ErrOs (OtherError OpSeek))), t, s)
                 else (case copy_piece req of
                         (buffered, bs, failed) \<Rightarrow>
                           let s1 = fs_write i (unat (r_Start (pm_Range piece))) (buffered @ bs) s;
                               n = of_nat (length bs)
                           in if bad OpWrite file then ((0, Some (ErrOs (OtherError OpWrite))), t, s)
                              else if failed then ((0, Some ErrRead), t, s1)
                              else if w_UnknownLength req \<and> n = 0 then ((0, None), t, s1)
                              else if n \<noteq> r_Length (pm_Range piece) \<and> \<not> w_UnknownLength req
                              then ((n, Some ErrShortRead), t, s1)
                              else let piece' = piece\<lparr>pm_Range := (pm_Range piece)\<lparr>r_Length := n\<rparr>,
                                                      pm_Md5 := piece_md5 req (buffered @ bs)\<rparr>
                                   in ((n, None), commit_piece piece' t, s1))))"

record UpdateTaskRequest =
  u_ContentLength :: int64
  u_TotalPieces :: int32
  u_PieceMd5Sign :: string
  u_GenPieceDigest :: bool

text \<open>The digests of the pieces \<open>0 .. TotalPieces - 1\<close>; a missing piece counts as the empty string.\<close>

definition pieceDigests :: "localTaskStore \<Rightarrow> string list" where
  "pieceDigests t =
     map (\<lambda>i. case Load (lt_Pieces t) (of_nat i) of Some p \<Rightarrow> pm_Md5 p | None \<Rightarrow> [])
       [0..<nat (sint (md_TotalPieces (lt_meta t)))]"

definition UpdateTask ::
  "hash \<Rightarrow> time \<Rightarrow> UpdateTaskRequest \<Rightarrow> localTaskStore \<Rightarrow> localTaskStore" where
  "UpdateTask sha256 now req t0 =
     (let t1 = upd_meta (\<lambda>m. m\<lparr>md_ContentLength := u_ContentLength req\<rparr>) (touch now t0);
          t2 = (if sint (u_TotalPieces req) > 0 then upd_meta (\<lambda>m. m\<lparr>md_TotalPieces := u_TotalPieces req\<rparr>) t1 else t1);
          t3 = (if md_PieceMd5Sign (lt_meta t2) = []
                then upd_meta (\<lambda>m. m\<lparr>md_PieceMd5Sign := u_PieceMd5Sign req\<rparr>) t2 else t2)
      in if u_GenPieceDigest req
         then upd_meta (\<lambda>m. m\<lparr>md_PieceMd5Sign := Sha256 sha256 (pieceDigests t3)\<rparr>) t3 else t3)"

definition ValidateDigest :: "hash \<Rightarrow> localTaskStore \<Rightarrow> storage_error option \<times> localTaskStore" where
  "ValidateDigest sha256 t =
     (if md_PieceMd5Sign (lt_meta t) = [] then (Some ErrDigestNotSet, t\<lparr>lt_invalid := True\<rparr>)
      else if sint (md_TotalPieces (lt_meta t)) \<le> 0 then (Some ErrPieceCountNotSet, t\<lparr>lt_invalid := True\<rparr>)
      else if Sha256 sha256 (pieceDigests t) \<noteq> md_PieceMd5Sign (lt_meta t)
      then (Some ErrInvalidDigest, t\<lparr>lt_invalid := True\<rparr>)
      else (None, t))"

definition IsInvalid :: "localTaskStore \<Rightarrow> bool" where
  "IsInvalid t = lt_invalid t"

text \<open>
  \<open>ReadPiece\<close> returns a reader positioned in the data file: its inode, offset and limit. The range of
  the request is used only when its piece number is -1.
\<close>

type_synonym piece_reader = "nat \<times> nat \<times> nat"

definition ReadPiece ::
  "os_fail \<Rightarrow> time \<Rightarrow> PieceMetadata \<Rightarrow> localTaskStore \<times> fs \<Rightarrow> (storage_error + piece_reader) \<times> localTaskStore" where
  "ReadPiece bad now req = (\<lambda>(t0, s).
     if lt_invalid t0 then (Inl ErrInvalidDigest, t0)
     else let t = touch now t0; file = md_DataFilePath (lt_meta t)
          in case os_Open bad file s of
               Inl e \<Rightarrow> (Inl (ErrOs e), t)
             | Inr i \<Rightarrow>
                 (case (if pm_Num req = -1 then Some (pm_Range req)
                        else map_option pm_Range (Load (lt_Pieces t) (pm_Num req))) of
                    None \<Rightarrow> (Inl ErrPieceNotFound, t)
                  | Some rg \<Rightarrow>
                      if bad OpSeek file \<or> sint (r_Start rg) < 0 then (Inl (ErrOs (OtherError OpSeek)), t)
                      else (Inr (i, unat (r_Start rg), nat (sint (r_Length rg))), t)))"

definition reader_bytes :: "fs \<Rightarrow> piece_reader \<Rightarrow> uint8 list" where
  "reader_bytes s = (\<lambda>(i, off, len). read_at off len (blocks s i))"

definition ReadAllPieces ::
  "os_fail \<Rightarrow> time \<Rightarrow> localTaskStore \<times> fs \<Rightarrow> (storage_error + nat) \<times> localTaskStore" where
  "ReadAllPieces bad now = (\<lambda>(t0, s).
     if lt_invalid t0 then (Inl ErrInvalidDigest, t0)
     else let t = touch now t0; file = md_DataFilePath (lt_meta t)
          in case os_Open bad file s of
               Inl e \<Rightarrow> (Inl (ErrOs e), t)
             | Inr i \<Rightarrow> if bad OpSeek file then (Inl (ErrOs (OtherError OpSeek)), t) else (Inr i, t))"

text \<open>The metadata is written over the old file from its start; the file is not cut.\<close>

definition saveMetadata ::
  "os_fail \<Rightarrow> (persistentMetadata \<Rightarrow> uint8 list) \<Rightarrow> localTaskStore \<Rightarrow> fs \<Rightarrow> storage_error option \<times> fs" where
  "saveMetadata bad marshal t s =
     (let (i, writable) = lt_metadataFile t; file = lt_metadataFilePath t
      in if bad OpSeek file then (Some (ErrOs (OtherError OpSeek)), s)
         else if \<not> writable \<or> bad OpWrite file then (Some (ErrOs (OtherError OpWrite)), s)
         else (None, fs_write i 0 (marshal (lt_meta t)) s))"

record StoreRequest =
  sr_Destination :: path
  sr_MetadataOnly :: bool
  sr_StoreOnly :: bool
  sr_TotalPieces :: int32

text \<open>The copy that is made when the hard link fails.\<close>

definition copy_file :: "os_fail \<Rightarrow> path \<Rightarrow> path \<Rightarrow> fs \<Rightarrow> storage_error option \<times> fs" where
  "copy_file bad src dst s =
     (case os_Open bad src s of
        Inl e \<Rightarrow> (Some (ErrOs e), s)
      | Inr i \<Rightarrow>
          if bad OpSeek src then (Some (ErrOs (OtherError OpSeek)), s)
          else (case os_Create bad True dst s of
                  (Inl e, s1) \<Rightarrow> (Some (ErrOs e), s1)
                | (Inr j, s1) \<Rightarrow>
                    if bad OpWrite dst then (Some (ErrOs (OtherError OpWrite)), s1)
                    else (None, fs_write j 0 (blocks s1 i) s1)))"

definition Store_task ::
  "os_fail \<Rightarrow> (persistentMetadata \<Rightarrow> uint8 list) \<Rightarrow> time \<Rightarrow> StoreRequest \<Rightarrow> localTaskStore \<times> fs
   \<Rightarrow> storage_error option \<times> localTaskStore \<times> fs" where
  "Store_task bad marshal now req = (\<lambda>(t0, s).
     let t1 = touch now (upd_meta (\<lambda>m. m\<lparr>md_Done := True\<rparr>) t0);
         t = (if sint (sr_TotalPieces req) > 0 then upd_meta (\<lambda>m. m\<lparr>md_TotalPieces := sr_TotalPieces req\<rparr>) t1 else t1);
         (e, s1) = (if sr_StoreOnly req then (None, s) else saveMetadata bad marshal t s);
         file = md_DataFilePath (lt_meta t); dst = sr_Destination req
     in if e \<noteq> None then (e, t, s1)
        else if sr_MetadataOnly req then (None, t, s1)
        else let s2 = (if os_Stat bad dst s1 = None then snd (os_Remove bad dst s1) else s1)
             in case os_Link bad file dst s2 of
                  (None, s3) \<Rightarrow> (None, t, s3)
                | (Some _, s3) \<Rightarrow> (case copy_file bad file dst s3 of (e', s4) \<Rightarrow> (e', t, s4)))"

record PieceTaskRequest =
  pt_TaskId :: string
  pt_StartNum :: uint32
  pt_Limit :: uint32

record PiecePacket =
  pk_TaskId :: string
  pk_DstPid :: string
  pk_PieceInfos :: "PieceInfo list"
  pk_TotalPiece :: int32
  pk_ContentLength :: int64
  pk_PieceMd5Sign :: string

definition piece_info :: "PieceMetadata \<Rightarrow> PieceInfo" where
  "piece_info p =
     \<lparr>PieceNum = pm_Num p, RangeStart = r_Start (pm_Range p), RangeSize = ucast (r_Length (pm_Range p)),
      PieceMd5 = pm_Md5 p, PieceOffset = pm_Offset p, PieceStyle = pm_Style p\<rparr>"

definition GetPieces :: "time \<Rightarrow> PieceTaskRequest \<Rightarrow> localTaskStore \<Rightarrow> (storage_error + PiecePacket) \<times> localTaskStore" where
  "GetPieces now req t0 =
     (if lt_invalid t0 then (Inl ErrInvalidDigest, t0)
      else let t = touch now t0
           in (Inr \<lparr>pk_TaskId = pt_TaskId req, pk_DstPid = md_PeerID (lt_meta t),
                    pk_PieceInfos = List.map_filter
                      (\<lambda>i. map_option piece_info (Load (lt_Pieces t) (pt_StartNum req + of_nat i)))
                      [0..<nat (sint (pt_Limit req))],
                    pk_TotalPiece = md_TotalPieces (lt_meta t), pk_ContentLength = md_ContentLength (lt_meta t),
                    pk_PieceMd5Sign = md_PieceMd5Sign (lt_meta t)\<rparr>, t))"

definition CanReclaim :: "time \<Rightarrow> localTaskStore \<Rightarrow> bool" where
  "CanReclaim now t \<longleftrightarrow> lt_lastAccess t + lt_expireTime t < now"

text \<open>\<open>MarkReclaim\<close> calls \<open>gcCallback\<close> once; the call is returned.\<close>

definition MarkReclaim :: "localTaskStore \<Rightarrow> PeerTaskMetadata list \<times> localTaskStore" where
  "MarkReclaim t =
     (if lt_reclaimMarked t then ([], t)
      else ([\<lparr>ptm_PeerID = md_PeerID (lt_meta t), ptm_TaskID = md_TaskID (lt_meta t)\<rparr>], t\<lparr>lt_reclaimMarked := True\<rparr>))"

definition not_exist_ok :: "os_error option \<Rightarrow> bool" where
  "not_exist_ok e \<longleftrightarrow> e = None \<or> e = Some NotExist"

definition reclaimData :: "os_fail \<Rightarrow> localTaskStore \<Rightarrow> fs \<Rightarrow> os_error option \<times> fs" where
  "reclaimData bad t s =
     (let data = path_Join (lt_dataDir t) ''data''
      in case os_Lstat bad data s of
           Inl e \<Rightarrow> (Some e, s)
         | Inr e \<Rightarrow>
             (case (case e of
                      SymlinkTo dest \<Rightarrow> if bad OpReadlink data then (None, s) else (None, snd (os_Remove bad dest s))
                    | _ \<Rightarrow> (case os_Remove bad (md_DataFilePath (lt_meta t)) s of
                              (err, s1) \<Rightarrow> (if not_exist_ok err then None else err, s1))) of
                (Some err, s1) \<Rightarrow> (Some err, s1)
              | (None, s1) \<Rightarrow>
                  (case os_Remove bad data s1 of (err, s2) \<Rightarrow> (if not_exist_ok err then None else err, s2))))"

definition reclaimMeta :: "os_fail \<Rightarrow> localTaskStore \<Rightarrow> fs \<Rightarrow> os_error option \<times> fs" where
  "reclaimMeta bad t s =
     (if bad OpClose (lt_metadataFilePath t) then (Some (OtherError OpClose), s)
      else case os_Remove bad (lt_metadataFilePath t) s of
             (err, s1) \<Rightarrow> (if not_exist_ok err then None else err, s1))"

text \<open>Errors of the removal of the task directory are only logged.\<close>

definition remove_task_dir :: "os_fail \<Rightarrow> path \<Rightarrow> fs \<Rightarrow> fs" where
  "remove_task_dir bad taskDir s =
     (if bad OpReadDir taskDir \<or> list_ex (below taskDir) (map fst (entries s)) then s
      else snd (os_Remove bad taskDir s))"

definition Reclaim :: "os_fail \<Rightarrow> localTaskStore \<Rightarrow> fs \<Rightarrow> os_error option \<times> fs" where
  "Reclaim bad t s =
     (case reclaimData bad t s of
        (e, s1) \<Rightarrow>
          if \<not> not_exist_ok e then (e, s1)
          else case reclaimMeta bad t s1 of
                 (e2, s2) \<Rightarrow>
                   if \<not> not_exist_ok e2 then (e2, s2)
                   else case os_Remove bad (lt_dataDir t) s2 of
                          (e3, s3) \<Rightarrow>
                            if \<not> not_exist_ok e3 then (e3, s3)
                            else (None, remove_task_dir bad (path_Dir (lt_dataDir t)) s3))"

section \<open>Pieces on disk\<close>

text \<open>The bytes a recorded range takes in the data file.\<close>

definition piece_extent :: "http_range \<Rightarrow> nat \<times> nat" where
  "piece_extent rg = (unat (r_Start rg), nat (sint (r_Length rg)))"

text \<open>
  Every recorded piece is in the data file: reading its range gives the bytes \<open>w\<close> it was written
  with.
\<close>

definition pieces_ok :: "(int32 \<Rightarrow> uint8 list) \<Rightarrow> localTaskStore \<times> fs \<Rightarrow> bool" where
  "pieces_ok w = (\<lambda>(t, s).
     \<exists>i. inode_of (md_DataFilePath (lt_meta t)) s = Some i \<and>
       (\<forall>num p. Load (lt_Pieces t) num = Some p \<longrightarrow>
          0 \<le> sint (r_Start (pm_Range p)) \<and> length (w num) = snd (piece_extent (pm_Range p)) \<and>
          case_prod read_at (piece_extent (pm_Range p)) (blocks s i) = w num))"

lemma length_copy_limited: "length (fst (copy_limited (sint (n :: int64)) s)) < 2 ^ 63"
proof -
  have "length (fst (copy_limited (sint n) s)) \<le> nat (sint n)" by (simp add: copy_limited_def)
  moreover have "nat (sint n) < 2 ^ 63"
    using sint_bounds_64(2)[of n] by (cases "0 \<le> sint n") (simp_all add: nat_less_iff)
  ultimately show ?thesis by linarith
qed

lemma copy_piece_length: "copy_piece req = (b, bs, failed) \<Longrightarrow> length bs < 2 ^ 63"
  using length_copy_limited by (auto simp: copy_piece_def split: reader.splits) (metis fst_conv)+

text \<open>What a successful write of a new piece has done.\<close>

lemma WritePiece_new:
  assumes "WritePiece bad now req (t, s) = ((n, None), t', s')" "Load (lt_Pieces t) (pm_Num (w_Piece req)) = None"
    and "copy_piece req = ([], bs, failed)" "bs \<noteq> []"
  obtains i where "inode_of (md_DataFilePath (lt_meta t)) s = Some i"
    and "s' = fs_write i (unat (r_Start (pm_Range (w_Piece req)))) bs s" and "n = of_nat (length bs)"
    and "0 \<le> sint (r_Start (pm_Range (w_Piece req)))"
    and "t' = commit_piece ((w_Piece req)\<lparr>pm_Range := (pm_Range (w_Piece req))\<lparr>r_Length := n\<rparr>,
           pm_Md5 := piece_md5 req bs\<rparr>) (touch now t)"
proof -
  have "(of_nat (length bs) :: int64) \<noteq> 0"
    using copy_piece_length[OF assms(3)] assms(4) sint_of_nat_64[of "length bs"] by fastforce
  then show thesis
    using assms that unfolding WritePiece_def
    by (auto simp: Let_def touch_def os_Open_def split: sum.splits if_splits option.splits)
qed

lemma read_at_length: "length (read_at off len bs) = len \<Longrightarrow> 0 < len \<Longrightarrow> off + len \<le> length bs"
  by (auto simp: read_at_def)

lemma pieces_ok_write:
  assumes ok: "pieces_ok w (t, s)" and new: "Load (lt_Pieces t) (pm_Num (w_Piece req)) = None"
    and copy: "copy_piece req = ([], bs, failed)" "bs \<noteq> []"
    and disj: "\<And>num p. Load (lt_Pieces t) num = Some p \<Longrightarrow>
      disjoint_ranges (unat (r_Start (pm_Range (w_Piece req))), length bs) (piece_extent (pm_Range p))"
    and res: "WritePiece bad now req (t, s) = ((n, None), t', s')"
  shows "pieces_ok (w(pm_Num (w_Piece req) := bs)) (t', s')"
proof -
  let ?num = "pm_Num (w_Piece req)" and ?off = "unat (r_Start (pm_Range (w_Piece req)))"
  obtain i where i: "inode_of (md_DataFilePath (lt_meta t)) s = Some i" and s': "s' = fs_write i ?off bs s"
    and n: "n = of_nat (length bs)" and st: "0 \<le> sint (r_Start (pm_Range (w_Piece req)))"
    and t': "t' = commit_piece ((w_Piece req)\<lparr>pm_Range := (pm_Range (w_Piece req))\<lparr>r_Length := n\<rparr>,
           pm_Md5 := piece_md5 req bs\<rparr>) (touch now t)"
    using WritePiece_new[OF res new copy] by blast
  define piece where "piece = (w_Piece req)\<lparr>pm_Range := (pm_Range (w_Piece req))\<lparr>r_Length := n\<rparr>,
           pm_Md5 := piece_md5 req bs\<rparr>"
  have pieces: "lt_Pieces t' = Store ?num piece (lt_Pieces t)" and same_file: "md_DataFilePath (lt_meta t') = md_DataFilePath (lt_meta t)"
    using new by (simp_all add: t' commit_piece_def touch_def piece_def)
  have len: "nat (sint n) = length bs" using copy_piece_length[OF copy(1)] by (simp add: n sint_of_nat_64)
  have "0 \<le> sint (r_Start (pm_Range p)) \<and> length ((w(?num := bs)) num) = snd (piece_extent (pm_Range p)) \<and>
      case_prod read_at (piece_extent (pm_Range p)) (blocks s' i) = (w(?num := bs)) num"
    if p: "Load (lt_Pieces t') num = Some p" for num p
  proof (cases "num = ?num")
    case True
    then have "p = piece" using p pieces by simp
    then show ?thesis using True st len copy(2) by (simp add: piece_extent_def piece_def s' read_write_same)
  next
    case False
    then have old: "Load (lt_Pieces t) num = Some p" using p pieces by simp
    with ok i have q: "0 \<le> sint (r_Start (pm_Range p))" "length (w num) = snd (piece_extent (pm_Range p))"
      "case_prod read_at (piece_extent (pm_Range p)) (blocks s i) = w num" by (auto simp: pieces_ok_def)
    obtain a b where ab: "piece_extent (pm_Range p) = (a, b)" by fastforce
    have "read_at a b (write_at ?off bs (blocks s i)) = read_at a b (blocks s i)"
    proof (cases "b = 0")
      case False
      then show ?thesis using read_write_disjoint[of ?off bs a b] disj[OF old] ab read_at_length[of a b "blocks s i"] q(2,3) by simp
    qed (simp add: read_at_def)
    then show ?thesis using q ab False by (simp add: s')
  qed
  moreover have "inode_of (md_DataFilePath (lt_meta t')) s' = Some i" using i same_file by (simp add: s')
  ultimately show ?thesis unfolding pieces_ok_def by blast
qed

lemma ReadPiece_bytes:
  assumes "pieces_ok w (t, s)" "fst (ReadPiece bad now req (t, s)) = Inr rd" "pm_Num req \<noteq> -1"
  shows "reader_bytes s rd = w (pm_Num req)"
  using assms
  by (auto simp: ReadPiece_def Let_def touch_def os_Open_def reader_bytes_def pieces_ok_def piece_extent_def
      split: if_splits option.splits sum.splits)

section \<open>Properties\<close>

text \<open>
  C28. What was written is what is read: after a successful write of a new piece whose bytes do not
  overlap a recorded piece, every recorded piece still reads as it was written, and the new piece
  reads as the bytes its reader delivered.
\<close>

theorem piece_read_back:
  assumes "pieces_ok w (t, s)" and "Load (lt_Pieces t) (pm_Num (w_Piece req)) = None"
    and "copy_piece req = ([], bs, failed)" "bs \<noteq> []"
    and "\<forall>num p. Load (lt_Pieces t) num = Some p \<longrightarrow>
      disjoint_ranges (unat (r_Start (pm_Range (w_Piece req))), length bs) (piece_extent (pm_Range p))"
    and "WritePiece bad now req (t, s) = ((n, None), t', s')"
    and "fst (ReadPiece bad' now' q (t', s')) = Inr rd" "pm_Num q \<noteq> -1"
  shows "reader_bytes s' rd = (if pm_Num q = pm_Num (w_Piece req) then bs else w (pm_Num q))"
  using ReadPiece_bytes[OF pieces_ok_write[OF assms(1-4) _ assms(6)] assms(7,8)] assms(5) by auto

text \<open>
  A piece that comes through a buffered connection is refused: the bytes copied from the buffer
  are counted in a shadowed variable, so a complete piece of which the buffer held a part is
  reported as a short read, although all its bytes are in the file.
\<close>

theorem buffered_piece_rejected:
  assumes "w_Reader req = LimitedBuffered (r_Length rg) buffered raw" and "rg = pm_Range (w_Piece req)"
    and "buffered \<noteq> []" and "\<not> st_fails raw" and "sint (r_Length rg) = int (length buffered + length (st_bytes raw))"
    and "Load (lt_Pieces t) (pm_Num (w_Piece req)) = None" and "0 \<le> sint (r_Start rg)" and "\<not> w_UnknownLength req"
    and "inode_of (md_DataFilePath (lt_meta t)) s = Some i" and "\<forall>op p. \<not> bad op p"
    and "WritePiece bad now req (t, s) = ((n, err), t', s')"
  shows "err = Some ErrShortRead \<and> Load (lt_Pieces t') (pm_Num (w_Piece req)) = None \<and>
    reader_bytes s' (i, unat (r_Start rg), nat (sint (r_Length rg))) = buffered @ st_bytes raw"
proof -
  have small: "length buffered < 2 ^ 63" "length (st_bytes raw) < 2 ^ 63"
    using assms(5) sint_bounds_64(2)[of "r_Length rg"] by auto
  have "sint (r_Length rg - of_nat (length buffered)) = int (length (st_bytes raw))"
    using assms(5) small by (subst sint_sub_64) (auto simp: sint_of_nat_64)
  then have copy: "copy_piece req = (buffered, st_bytes raw, False)"
    using assms(1,4) by (simp add: copy_piece_def copy_limited_def)
  have "of_nat (length (st_bytes raw)) \<noteq> r_Length rg"
    using assms(3,5) small sint_of_nat_64[of "length (st_bytes raw)"] by auto
  then have res: "err = Some ErrShortRead" "t' = touch now t" "s' = fs_write i (unat (r_Start rg)) (buffered @ st_bytes raw) s"
    using assms(6-11) copy unfolding WritePiece_def
    by (simp_all add: Let_def touch_def os_Open_def flip: assms(2))
  have "nat (sint (r_Length rg)) = length (buffered @ st_bytes raw)" using assms(5) by simp
  then show ?thesis
    using res assms(3,6) read_write_same[of "buffered @ st_bytes raw"] by (simp add: reader_bytes_def touch_def)
qed

lemma os_Remove_other:
  "p \<noteq> q \<Longrightarrow> Load (entries (snd (os_Remove bad q s))) p = Load (entries s) p"
  "blocks (snd (os_Remove bad q s)) = blocks s" "next_inode (snd (os_Remove bad q s)) = next_inode s"
  by (auto simp: os_Remove_def split: option.split entry.split)

text \<open>A name nothing is reachable under: no entry, or a link to a name without an entry.\<close>

definition free_name :: "path \<Rightarrow> fs \<Rightarrow> bool" where
  "free_name p s \<longleftrightarrow> Load (entries s) (link_target p s) = None"

lemma file_bytes_FileAt: "Load (entries s) p = Some (FileAt i) \<Longrightarrow> file_bytes p s = Some (blocks s i)"
  by (simp add: file_bytes_def inode_of_def link_target_def)

lemma link_delivers:
  assumes "os_Link bad src dst s = (None, s')" "Load (entries s) src = Some (FileAt i)"
  shows "file_bytes dst s' = Some (blocks s i) \<and> file_bytes src s' = Some (blocks s i)"
  using assms by (auto simp: os_Link_def file_bytes_FileAt split: if_splits option.splits)

lemma copy_delivers:
  assumes "copy_file bad src dst s = (None, s')" "Load (entries s) src = Some (FileAt i)" "i < next_inode s"
    and "free_name dst s"
  shows "file_bytes dst s' = Some (blocks s i) \<and> file_bytes src s' = Some (blocks s i)"
proof -
  let ?q = "link_target dst s" and ?j = "next_inode s"
  have i: "inode_of src s = Some i" using assms(2) by (simp add: inode_of_def link_target_def)
  define s1 where "s1 = s\<lparr>entries := Store ?q (FileAt ?j) (entries s), blocks := (blocks s)(?j := []), next_inode := ?j + 1\<rparr>"
  have create: "os_Create bad True dst s = (Inr ?j, s1) \<or> os_Create bad True dst s = (Inl (OtherError OpOpen), s)"
    using assms(4) by (simp add: os_Create_def free_name_def s1_def)
  then have s': "s' = fs_write ?j 0 (blocks s i) s1"
    using assms(1,3) i by (auto simp: copy_file_def os_Open_def s1_def split: if_splits)
  have "Load (entries s') ?q = Some (FileAt ?j)" "blocks s' ?j = blocks s i" "blocks s' i = blocks s i"
    using assms(3) by (auto simp: s' s1_def write_at_def)
  moreover have "link_target dst s' = ?q"
    using assms(4) by (auto simp: s' s1_def free_name_def link_target_def split: option.splits entry.splits)
  moreover have "Load (entries s') src = Some (FileAt i)"
    using assms(2,4) by (auto simp: s' s1_def free_name_def)
  ultimately show ?thesis by (simp add: file_bytes_FileAt) (simp add: file_bytes_def inode_of_def)
qed

text \<open>After the destination was removed it is free, or it is a directory that could not be removed.\<close>

lemma purged:
  assumes "\<not> bad OpStat dst" "\<not> bad OpUnlink dst"
    and "s2 = (if os_Stat bad dst s = None then snd (os_Remove bad dst s) else s)"
  shows "free_name dst s2 \<or> Load (entries s2) dst = Some Directory"
  using assms by (auto simp: os_Stat_def os_Remove_def free_name_def link_target_def
      split: option.splits entry.splits if_splits)

lemma saveMetadata_frame:
  assumes "saveMetadata bad marshal t s = (e, s1)"
  shows "entries s1 = entries s" "next_inode s1 = next_inode s" "fst (lt_metadataFile t) \<noteq> i \<Longrightarrow> blocks s1 i = blocks s i"
  using assms by (auto simp: saveMetadata_def Let_def split: prod.splits if_splits)

text \<open>
  C29. \<open>Store\<close> delivers: when it reports success the destination holds the bytes of the data file,
  by a hard link or by a copy.
\<close>

theorem store_delivers:
  assumes "Store_task bad marshal now req (t, s) = (None, t', s')" and "\<not> sr_MetadataOnly req"
    and "dst = sr_Destination req" "src = md_DataFilePath (lt_meta t)" "src \<noteq> dst"
    and "Load (entries s) src = Some (FileAt i)" "i < next_inode s" "fst (lt_metadataFile t) \<noteq> i"
    and "\<not> bad OpStat dst" "\<not> bad OpUnlink dst"
  shows "file_bytes dst s' = Some (blocks s i) \<and> file_bytes src s' = Some (blocks s i)"
proof -
  define t2 where "t2 = (let t1 = touch now (upd_meta (\<lambda>m. m\<lparr>md_Done := True\<rparr>) t) in
    if sint (sr_TotalPieces req) > 0 then upd_meta (\<lambda>m. m\<lparr>md_TotalPieces := sr_TotalPieces req\<rparr>) t1 else t1)"
  have t2: "md_DataFilePath (lt_meta t2) = src" "lt_metadataFile t2 = lt_metadataFile t"
    using assms(4) by (auto simp: t2_def touch_def Let_def)
  obtain e s1 where m: "(if sr_StoreOnly req then (None, s) else saveMetadata bad marshal t2 s) = (e, s1)" by fastforce
  have s1: "entries s1 = entries s" "next_inode s1 = next_inode s" "blocks s1 i = blocks s i"
    using m saveMetadata_frame[of bad marshal t2 s] assms(8) t2(2) by (auto split: if_splits)
  define s2 where "s2 = (if os_Stat bad dst s1 = None then snd (os_Remove bad dst s1) else s1)"
  have s2: "Load (entries s2) src = Some (FileAt i)" "next_inode s2 = next_inode s" "blocks s2 i = blocks s i"
    using s1 assms(5,6) by (auto simp: s2_def os_Remove_other)
  have res: "(case os_Link bad src dst s2 of (None, s3) \<Rightarrow> (None, t2, s3)
      | (Some _, s3) \<Rightarrow> (case copy_file bad src dst s3 of (e', s4) \<Rightarrow> (e', t2, s4))) = (None, t', s')"
    using assms(1,2,3) m t2(1) unfolding Store_task_def t2_def[symmetric] Let_def s2_def
    by (auto simp: t2_def Let_def split: if_splits prod.splits option.splits)
  show ?thesis
  proof (cases "fst (os_Link bad src dst s2)")
    case None
    then have "os_Link bad src dst s2 = (None, s')" using res by (auto split: prod.splits)
    then show ?thesis using link_delivers[OF _ s2(1)] s2(3) by simp
  next
    case (Some x)
    then have "snd (os_Link bad src dst s2) = s2" by (auto simp: os_Link_def split: if_splits option.splits entry.splits)
    then have copy: "copy_file bad src dst s2 = (None, s')" using res Some by (auto split: prod.splits option.splits)
    moreover have "Load (entries s2) dst \<noteq> Some Directory"
      using copy by (auto simp: copy_file_def os_Create_def link_target_def split: sum.splits if_splits)
    ultimately show ?thesis
      using copy_delivers[OF copy s2(1)] purged[OF assms(9,10) s2_def] s2(2,3) assms(7) by simp
  qed
qed

section \<open>A small store\<close>

text \<open>A task with one piece of two bytes on disk, used as the concrete case of the properties.\<close>

definition tiny_fs :: fs where
  "tiny_fs = \<lparr>entries = [(''/d/t/p'', Directory), (''/d/t/p/data'', FileAt 0), (''/d/t/p/metadata'', FileAt 1)],
     blocks = (\<lambda>i. if i = 0 then [1, 2] else []), next_inode = 2\<rparr>"

definition tiny_store :: localTaskStore where
  "tiny_store =
     \<lparr>lt_meta = \<lparr>md_StoreStrategy = ''simple'', md_TaskID = ''t'', md_TaskMeta = [], md_ContentLength = 4,
        md_TotalPieces = 2, md_PeerID = ''p'',
        md_Pieces = [(0, \<lparr>pm_Num = 0, pm_Md5 = ''m0'', pm_Offset = 0, pm_Range = \<lparr>r_Start = 0, r_Length = 2\<rparr>, pm_Style = 0\<rparr>)],
        md_PieceMd5Sign = [], md_DataFilePath = ''/d/t/p/data'', md_Done = False\<rparr>,
      lt_dataDir = ''/d/t/p'', lt_metadataFile = (1, True), lt_metadataFilePath = ''/d/t/p/metadata'',
      lt_expireTime = 100, lt_lastAccess = 0, lt_reclaimMarked = False, lt_invalid = False\<rparr>"

definition tiny_write :: "reader \<Rightarrow> WritePieceRequest" where
  "tiny_write r = \<lparr>w_Piece = \<lparr>pm_Num = 1, pm_Md5 = ''m1'', pm_Offset = 2, pm_Range = \<lparr>r_Start = 2, r_Length = 2\<rparr>, pm_Style = 0\<rparr>,
     w_UnknownLength = False, w_Reader = r\<rparr>"

lemmas tiny_defs = tiny_fs_def tiny_store_def tiny_write_def

theorem piece_read_back_witness:
  "\<exists>t' s'. WritePiece (\<lambda>_ _. False) 5 (tiny_write (LimitedReader 2 \<lparr>st_bytes = [3, 4], st_fails = False\<rparr>))
       (tiny_store, tiny_fs) = ((2, None), t', s') \<and>
     reader_bytes s' (0, 2, 2) = [3, 4]"
proof -
  let ?req = "tiny_write (LimitedReader 2 \<lparr>st_bytes = [3, 4], st_fails = False\<rparr>)" and ?bad = "\<lambda>_ _. False"
  obtain t' s' where w: "WritePiece ?bad 5 ?req (tiny_store, tiny_fs) = ((2, None), t', s')"
    by (simp add: WritePiece_def tiny_defs os_Open_def inode_of_def link_target_def copy_piece_def copy_limited_def touch_def Let_def)
  have copy: "copy_piece ?req = ([], [3, 4], False)"
    by (simp add: copy_piece_def copy_limited_def tiny_write_def)
  have ok: "pieces_ok (\<lambda>_. [1, 2]) (tiny_store, tiny_fs)"
    by (auto simp: pieces_ok_def tiny_defs inode_of_def link_target_def piece_extent_def read_at_def split: if_splits)
  have rd: "fst (ReadPiece ?bad 6 (w_Piece ?req) (t', s')) = Inr (0, 2, 2)"
    using w by (auto simp: WritePiece_def ReadPiece_def tiny_defs os_Open_def inode_of_def link_target_def
        copy_piece_def copy_limited_def touch_def Let_def commit_piece_def)
  have "reader_bytes s' (0, 2, 2) = [3, 4]"
    using piece_read_back[OF ok _ copy _ _ w rd]
    by (auto simp: tiny_defs disjoint_ranges_def piece_extent_def split: if_splits)
  then show ?thesis using w by blast
qed

theorem buffered_piece_rejected_witness:
  "\<exists>n t' s'. WritePiece (\<lambda>_ _. False) 5 (tiny_write (LimitedBuffered 2 [3] \<lparr>st_bytes = [4], st_fails = False\<rparr>))
       (tiny_store, tiny_fs) = ((n, Some ErrShortRead), t', s') \<and> reader_bytes s' (0, 2, 2) = [3, 4]"
proof -
  let ?req = "tiny_write (LimitedBuffered 2 [3] \<lparr>st_bytes = [4], st_fails = False\<rparr>)"
  define R where "R = WritePiece (\<lambda>_ _. False) 5 ?req (tiny_store, tiny_fs)"
  obtain n err t' s' where "R = ((n, err), t', s')" by (metis surj_pair)
  then have w: "WritePiece (\<lambda>_ _. False) 5 ?req (tiny_store, tiny_fs) = ((n, err), t', s')" by (simp only: R_def)
  have "err = Some ErrShortRead \<and> Load (lt_Pieces t') (pm_Num (w_Piece ?req)) = None \<and>
      reader_bytes s' (0, unat (r_Start (pm_Range (w_Piece ?req))), nat (sint (r_Length (pm_Range (w_Piece ?req))))) =
        [3] @ st_bytes \<lparr>st_bytes = [4], st_fails = False\<rparr>"
    by (rule buffered_piece_rejected[OF _ refl _ _ _ _ _ _ _ _ w])
      (simp_all add: tiny_defs inode_of_def link_target_def)
  then have "err = Some ErrShortRead" "reader_bytes s' (0, 2, 2) = [3, 4]" by (simp_all add: tiny_write_def)
  then show ?thesis using w by blast
qed

theorem store_delivers_witness:
  "file_bytes ''/out'' (snd (snd (Store_task (\<lambda>_ _. False) (\<lambda>_. []) 5
     \<lparr>sr_Destination = ''/out'', sr_MetadataOnly = False, sr_StoreOnly = True, sr_TotalPieces = 0\<rparr> (tiny_store, tiny_fs)))) = Some [1, 2]"
proof -
  let ?req = "\<lparr>sr_Destination = ''/out'', sr_MetadataOnly = False, sr_StoreOnly = True, sr_TotalPieces = 0\<rparr>"
  define R where "R = Store_task (\<lambda>_ _. False) (\<lambda>_. []) 5 ?req (tiny_store, tiny_fs)"
  obtain err t' s' where "R = (err, t', s')" by (metis surj_pair)
  then have r: "Store_task (\<lambda>_ _. False) (\<lambda>_. []) 5 ?req (tiny_store, tiny_fs) = (err, t', s')" by (simp only: R_def)
  moreover have "err = None"
    using r by (auto simp: Store_task_def tiny_defs touch_def os_Stat_def os_Link_def link_target_def Let_def)
  ultimately have r0: "Store_task (\<lambda>_ _. False) (\<lambda>_. []) 5 ?req (tiny_store, tiny_fs) = (None, t', s')" by simp
  have "file_bytes ''/out'' s' = Some (blocks tiny_fs 0) \<and> file_bytes ''/d/t/p/data'' s' = Some (blocks tiny_fs 0)"
    by (rule store_delivers[OF r0]) (simp_all add: tiny_defs)
  then show ?thesis by (simp add: r0) (simp add: tiny_fs_def)
qed

end
