(* ===== verification/Byte_Units.thy ===== *)
theory Byte_Units
  imports Go_Rounding Ids Ranges
begin

text \<open>
  \<open>pkg/unit/byte.go\<close>: byte sizes as signed 64-bit numbers, their text with one decimal and a binary
  unit, and the parser of that text. The decoders of JSON and YAML are parameters.
\<close>

section \<open>The \<open>%.1f\<close> verb\<close>

text \<open>The decimal closest to the exact binary value, ties to even.\<close>

fun fmt_1f :: "f64 \<Rightarrow> string" where
  "fmt_1f NaN = ''NaN''"
| "fmt_1f PInf = ''+Inf''"
| "fmt_1f NInf = ''-Inf''"
| "fmt_1f (Fin x) =
     (let n = nat (round_even (\<bar>x\<bar> * 10))
      in (if x < 0 then ''-'' else []) @ show_nat (n div 10) @ ''.'' @ [digit_char (n mod 10)])"

section \<open>byte.go\<close>

type_synonym Bytes = int64

definition unit_B :: Bytes where "unit_B = 1"

definition unit_KB :: Bytes where "unit_KB = 1024 * unit_B"

definition unit_MB :: Bytes where "unit_MB = 1024 * unit_KB"

definition unit_GB :: Bytes where "unit_GB = 1024 * unit_MB"

definition unit_TB :: Bytes where "unit_TB = 1024 * unit_GB"

definition unit_PB :: Bytes where "unit_PB = 1024 * unit_TB"

definition unit_EB :: Bytes where "unit_EB = 1024 * unit_PB"

definition ToNumber :: "Bytes \<Rightarrow> int64" where "ToNumber f = f"

definition ToBytes :: "int64 \<Rightarrow> Bytes" where "ToBytes sz = sz"

definition Bytes_Type :: "Bytes \<Rightarrow> string" where "Bytes_Type f = ''bytes''"

definition Bytes_String :: "Bytes \<Rightarrow> string" where
  "Bytes_String f =
     (let (symbol, unit) =
        (if sint f \<ge> sint unit_PB then (''PB'', unit_PB)
         else if sint f \<ge> sint unit_TB then (''TB'', unit_TB)
         else if sint f \<ge> sint unit_GB then (''GB'', unit_GB)
         else if sint f \<ge> sint unit_MB then (''MB'', unit_MB)
         else if sint f \<ge> sint unit_KB then (''KB'', unit_KB)
         else (''B'', unit_B))
      in fmt_1f (f64_div (f64_of_int (sint f)) (f64_of_int (sint unit))) @ symbol)"

text \<open>
  The submatches 1 and 3 of \<open>^([0-9]+)(\.0*)?([MmKkGgTtPpEe])?[iI]?[bB]?$\<close>. Each part is told from the
  next by its first character, so matching greedily is exact.
\<close>

definition opt_char :: "string \<Rightarrow> string \<Rightarrow> char option \<times> string" where
  "opt_char cs s = (case s of c # r \<Rightarrow> if c \<in> set cs then (Some c, r) else (None, s) | [] \<Rightarrow> (None, s))"

definition sizeRegexp :: "string \<Rightarrow> (string \<times> char option) option" where
  "sizeRegexp s =
     (let ds = takeWhile is_digit s; r1 = dropWhile is_digit s;
          r2 = (case r1 of c # r \<Rightarrow> if c = CHR ''.'' then dropWhile (\<lambda>c. c = CHR ''0'') r else r1 | [] \<Rightarrow> r1);
          (unit, r3) = opt_char ''MmKkGgTtPpEe'' r2
      in if ds = [] then None
         else if snd (opt_char ''bB'' (snd (opt_char ''iI'' r3))) = [] then Some (ds, unit) else None)"

datatype size_error = InvalidFormat | InvalidNumber num_error | InvalidSize | DecodeError

definition size_unit :: "char option \<Rightarrow> Bytes" where
  "size_unit m =
     (case m of
        None \<Rightarrow> unit_B
      | Some c \<Rightarrow>
          if c \<in> {CHR ''k'', CHR ''K''} then unit_KB
          else if c \<in> {CHR ''m'', CHR ''M''} then unit_MB
          else if c \<in> {CHR ''g'', CHR ''G''} then unit_GB
          else if c \<in> {CHR ''t'', CHR ''T''} then unit_TB
          else if c \<in> {CHR ''p'', CHR ''P''} then unit_PB
          else if c \<in> {CHR ''e'', CHR ''E''} then unit_EB
          else unit_B)"

definition parseSize :: "string \<Rightarrow> size_error + Bytes" where
  "parseSize fsize0 =
     (let fsize = trim_by IsSpace fsize0
      in if IsBlank fsize then Inr 0
         else case sizeRegexp fsize of
                None \<Rightarrow> Inl InvalidFormat
              | Some (m1, m3) \<Rightarrow>
                  (case ParseInt True m1 of
                     Inl e \<Rightarrow> Inl (InvalidNumber e)
                   | Inr num \<Rightarrow> Inr (ToBytes num * size_unit m3)))"

text \<open>\<open>Set\<close> assigns the zero that \<open>parseSize\<close> returns with its error.\<close>

definition Bytes_Set :: "string \<Rightarrow> size_error option \<times> Bytes" where
  "Bytes_Set s =
     (if IsBlank s then (None, 0)
      else case parseSize s of Inl e \<Rightarrow> (Some e, 0) | Inr f \<Rightarrow> (None, f))"

definition MarshalYAML :: "Bytes \<Rightarrow> string" where "MarshalYAML f = Bytes_String f"

text \<open>
  The value a decoder finds; the conversion of a float outside the range of 64 bits depends on the
  machine and is a parameter.
\<close>

datatype decoded = VFloat f64 | VInt int64 | VString string | VOther

definition f64_to_int64 :: "(f64 \<Rightarrow> int64) \<Rightarrow> f64 \<Rightarrow> int64" where
  "f64_to_int64 out_of_range v =
     (case v of
        Fin x \<Rightarrow>
          let i = (if x < 0 then - \<lfloor>- x\<rfloor> else \<lfloor>x\<rfloor>)
          in if - (2 ^ 63) \<le> i \<and> i < 2 ^ 63 then word_of_int i else out_of_range v
      | _ \<Rightarrow> out_of_range v)"

definition Bytes_unmarshal ::
  "(f64 \<Rightarrow> int64) \<Rightarrow> ('b \<Rightarrow> decoded option) \<Rightarrow> 'b \<Rightarrow> Bytes \<Rightarrow> size_error option \<times> Bytes" where
  "Bytes_unmarshal out_of_range unmarshal b f =
     (case unmarshal b of
        None \<Rightarrow> (Some DecodeError, f)
      | Some (VFloat v) \<Rightarrow> (None, f64_to_int64 out_of_range v)
      | Some (VInt v) \<Rightarrow> (None, v)
      | Some (VString s) \<Rightarrow> (case parseSize s of Inl e \<Rightarrow> (Some e, f) | Inr sz \<Rightarrow> (None, sz))
      | Some VOther \<Rightarrow> (Some InvalidSize, f))"

section \<open>Lemmas\<close>

lemmas unit_defs = unit_B_def unit_KB_def unit_MB_def unit_GB_def unit_TB_def unit_PB_def unit_EB_def

lemma f64_round_scaled:
  assumes "0 < i" "i < 2 ^ 53" "-1022 \<le> k" "k \<le> 900"
  shows "f64_round (of_int i * pow2 k) = Fin (of_int i * pow2 k)"
proof -
  define m where "m = floor_log2 (of_int i)"
  have b: "pow2 m \<le> of_int i" "of_int i < pow2 (m + 1)"
    unfolding m_def using floor_log2_bounds[of "of_int i"] assms(1) by auto
  have m52: "m \<le> 52" using floor_log2_int_le[OF assms(1,2)] by (simp add: m_def)
  have m0: "0 \<le> m"
    using floor_log2_mono[of 1 "of_int i"] floor_log2_eqI[of 0 1] assms(1) by (simp add: m_def pow2_def)
  have pw: "pow2 k = pow2 (m + k - 52) * 2 ^ nat (52 - m)"
    using m52 pow2_of_nat[of "nat (52 - m)"] pow2_add[of "m + k - 52" "52 - m"] by simp
  have q: "of_int i * pow2 k / pow2 (m + k - 52) = of_int (i * 2 ^ nat (52 - m))"
    by (simp add: pw)
  have "f64_round (of_int i * pow2 k) = Fin (of_int (i * 2 ^ nat (52 - m)) * pow2 (m + k - 52))"
  proof (rule f64_round_eqI)
    show "pow2 (m + k) \<le> of_int i * pow2 k" "of_int i * pow2 k < pow2 (m + k + 1)"
      using b pow2_add[of m k] pow2_add[of "m + 1" k] by (simp_all add: mult_right_mono algebra_simps)
  qed (use m0 m52 assms(3,4) q in auto)
  then show ?thesis by (simp add: pw)
qed

lemma show_nat_hd: "0 < n \<Longrightarrow> \<exists>d r. show_nat n = digit_char d # r \<and> 0 < d \<and> d < 10"
proof (induction n rule: show_nat.induct)
  case (1 n)
  show ?case
  proof (cases "n < 10")
    case True
    then show ?thesis using 1 by (subst show_nat.simps) auto
  next
    case False
    then have "0 < n div 10" by (simp add: div_greater_zero_iff)
    then obtain d r where "show_nat (n div 10) = digit_char d # r" "0 < d" "d < 10" using 1(1)[OF False] by blast
    then show ?thesis using False by (subst show_nat.simps) auto
  qed
qed

lemma digit_char_0: "d < 10 \<Longrightarrow> digit_char d = CHR ''0'' \<longleftrightarrow> d = 0"
proof
  assume "d < 10" "digit_char d = CHR ''0''"
  then have "digit_val (CHR ''0'') = Some d" using digit_val_digit_char by metis
  then show "d = 0" by (simp add: digit_val_def)
qed (simp add: digit_char_def char_digits)

lemma ParseInt_show:
  assumes "0 < n" "n < 2 ^ 63"
  shows "ParseInt True (show_nat n) = Inr (of_nat n)"
proof -
  obtain d r where s: "show_nat n = digit_char d # r" and d: "0 < d" "d < 10" using show_nat_hd[OF assms(1)] by blast
  have dig: "is_digit (digit_char d)" using d by (simp add: is_digit_char)
  have "parse_digits 10 True (show_nat n) 0 = Inr n" using assms(2) by (intro parse_show_nat) simp
  moreover have "CHR ''_'' \<notin> set (show_nat n)" using show_nat_digits is_digit_neq(2) by blast
  ultimately have "ParseUint0 (show_nat n) = Inr n"
    using d s by (simp add: ParseUint0_def base_prefix_def digit_char_0)
  then show ?thesis
    using assms(2) is_digit_neq(1,3)[OF dig] s by (simp add: ParseInt_def ParseUint_nat_def)
qed

lemma fmt_1f_int: "fmt_1f (Fin (of_nat n)) = show_nat n @ ''.0''"
proof -
  have "round_even (\<bar>of_nat n\<bar> * 10) = int (n * 10)" using round_even_of_int[of "int (n * 10)"] by simp
  then have "nat (round_even (\<bar>of_nat n\<bar> * 10)) = n * 10" by (metis nat_int)
  then show ?thesis by (simp add: Let_def digit_char_def char_digits)
qed

lemma fmt_1f_half: "fmt_1f (Fin (of_nat n + 1 / 2)) = show_nat n @ ''.5''"
proof -
  have "(of_nat n + 1 / 2) * 10 = (of_int (int (n * 10 + 5)) :: rat)" by (simp add: distrib_right)
  then have "round_even (\<bar>of_nat n + 1 / 2\<bar> * 10) = int (n * 10 + 5)"
    using round_even_of_int[of "int (n * 10 + 5)"] by simp
  then have "nat (round_even (\<bar>of_nat n + 1 / 2\<bar> * 10)) = n * 10 + 5" by (metis nat_int)
  moreover have "char_of (53 :: nat) = CHR ''5''" by code_simp
  ultimately show ?thesis by (simp add: Let_def digit_char_def)
qed

text \<open>The units with their symbols, largest first.\<close>

definition size_units :: "(string \<times> nat) list" where
  "size_units = [(''PB'', 50), (''TB'', 40), (''GB'', 30), (''MB'', 20), (''KB'', 10), (''B'', 0)]"

lemma f64_of_int_scaled: "0 < i \<Longrightarrow> i < 2 ^ 53 \<Longrightarrow> e \<le> 50 \<Longrightarrow> f64_of_int (i * 2 ^ e) = Fin (of_int i * 2 ^ e)"
  using f64_round_scaled[of i "int e"] by (simp add: f64_of_int_def pow2_of_nat)

lemma size_quotient:
  assumes "0 < n" "n < 1024" "e \<le> 50"
  shows "f64_div (f64_of_int (int n * 2 ^ e)) (f64_of_int (2 ^ e)) = Fin (of_nat n)"
proof -
  have "f64_of_int (int n * 2 ^ e) = Fin (of_nat n * 2 ^ e)" "f64_of_int (2 ^ e) = Fin (2 ^ e)"
    using f64_of_int_scaled[of "int n" e] f64_of_int_scaled[of 1 e] assms by simp_all
  moreover have "f64_round (of_nat n) = Fin (of_nat n)"
    using f64_round_scaled[of "int n" 0] assms by (simp add: pow2_def)
  ultimately show ?thesis by simp
qed

lemma sint_unit: "n < 1024 \<Longrightarrow> e \<le> 50 \<Longrightarrow> sint (of_nat n * 2 ^ e :: int64) = int n * 2 ^ e"
proof -
  assume "n < 1024" "e \<le> 50"
  then have "n * 2 ^ e < 1024 * 2 ^ 50"
    using power_increasing[of e 50 "2 :: nat"] by (intro mult_less_le_imp_less) simp_all
  then show ?thesis using sint_of_nat_64[of "n * 2 ^ e"] by simp
qed

lemma Bytes_String_multiple:
  assumes "0 < n" "n < 1024" "(u, e) \<in> set size_units"
  shows "Bytes_String (of_nat n * 2 ^ e) = show_nat n @ ''.0'' @ u"
proof -
  have e: "e \<le> 50" using assms(3) by (auto simp: size_units_def)
  note q = size_quotient[OF assms(1,2), unfolded fmt_1f_int]
  note s = sint_unit[OF assms(2) e]
  show ?thesis using assms s q[of e]
    by (auto simp: size_units_def Bytes_String_def unit_defs fmt_1f_int simp del: fmt_1f.simps)
qed

lemma digits_prefix: "takeWhile is_digit (show_nat n @ CHR ''.'' # r) = show_nat n"
  "dropWhile is_digit (show_nat n @ CHR ''.'' # r) = CHR ''.'' # r"
proof -
  have "\<not> is_digit CHR ''.''" by (simp add: is_digit_def)
  moreover have "\<forall>c \<in> set (show_nat n). is_digit c" using show_nat_digits by blast
  ultimately show "takeWhile is_digit (show_nat n @ CHR ''.'' # r) = show_nat n"
    "dropWhile is_digit (show_nat n @ CHR ''.'' # r) = CHR ''.'' # r" by simp_all
qed

lemma is_digit_not_space: "is_digit c \<Longrightarrow> \<not> IsSpace c"
  by (auto simp: is_digit_def IsSpace_def)

text \<open>A printed size begins with a digit and ends with a letter, so nothing is trimmed.\<close>

lemma parseSize_printed:
  assumes "s = show_nat n @ CHR ''.'' # r" "\<not> IsSpace (last s)"
  shows "parseSize s = (case sizeRegexp s of None \<Rightarrow> Inl InvalidFormat
    | Some (m1, m3) \<Rightarrow> (case ParseInt True m1 of Inl e \<Rightarrow> Inl (InvalidNumber e) | Inr num \<Rightarrow> Inr (num * size_unit m3)))"
proof -
  obtain c d where cd: "show_nat n = c # d" by (cases "show_nat n") simp_all
  then have c: "\<not> IsSpace c" using show_nat_digits[of c n] is_digit_not_space by simp
  have "s \<noteq> []" using assms(1) by simp
  then have "s = butlast s @ [last s]" by simp
  then obtain b where "s = b @ [last s]" by blast
  then have "trim_by IsSpace s = s" using c cd assms unfolding trim_by_def
    by (metis append_Cons dropWhile.simps(2) rev_eq_Cons_iff rev_rev_ident)
  moreover have "\<not> IsBlank s" using c cd assms(1) by simp
  ultimately show ?thesis unfolding parseSize_def ToBytes_def Let_def by simp
qed

text \<open>
  Sizes that are a whole number of some unit survive printing and parsing: for \<open>1 \<le> n < 1024\<close>,
  \<open>parseSize\<close> reads back what \<open>String\<close> prints of \<open>n\<close> bytes, KB, MB, GB, TB or PB.
\<close>

theorem bytes_roundtrip:
  assumes "0 < n" "n < 1024" "(u, e) \<in> set size_units"
  shows "parseSize (Bytes_String (of_nat n * 2 ^ e)) = Inr (of_nat n * 2 ^ e)"
proof -
  note str = Bytes_String_multiple[OF assms]
  have "ParseInt True (show_nat n) = Inr (of_nat n)" using assms by (intro ParseInt_show) simp_all
  moreover have "sizeRegexp (show_nat n @ ''.0'' @ u) = Some (show_nat n, if u = ''B'' then None else Some (hd u))"
    using assms(3) by (auto simp: sizeRegexp_def Let_def digits_prefix size_units_def opt_char_def)
  moreover have "size_unit (if u = ''B'' then None else Some (hd u)) = 2 ^ e"
    using assms(3) by (auto simp: size_units_def size_unit_def unit_defs)
  moreover have "\<not> IsSpace (last (show_nat n @ ''.0'' @ u))"
    using assms(3) by (auto simp: size_units_def IsSpace_def)
  ultimately show ?thesis
    unfolding str by (subst parseSize_printed[where n = n and r = "CHR ''0'' # u"]) simp_all
qed

theorem bytes_roundtrip_witness: "parseSize (Bytes_String (4 * 2 ^ 20)) = Inr (4194304 :: int64)"
  using bytes_roundtrip[of 4 "''MB''" 20] by (simp add: size_units_def)

text \<open>
  Other sizes do not: a size of \<open>n\<close> and a half KB is printed with the decimal \<open>.5\<close>, which
  \<open>parseSize\<close> rejects, so a configuration that was written back cannot be read again.
\<close>

theorem bytes_half_unreadable:
  assumes "0 < n" "n < 1024"
  shows "parseSize (MarshalYAML (of_nat (1024 * n + 512))) = Inl InvalidFormat"
proof -
  have si: "sint (of_nat (1024 * n + 512) :: int64) = (2 * int n + 1) * 2 ^ 9"
    using assms(2) by (subst sint_of_nat_64) simp_all
  have "f64_of_int ((2 * int n + 1) * 2 ^ 9) = Fin (of_int (2 * int n + 1) * 2 ^ 9)"
    using assms f64_of_int_scaled[of "2 * int n + 1" 9] by simp
  moreover have "f64_of_int 1024 = Fin 1024" using f64_of_int_scaled[of 1 10] by simp
  moreover have "f64_round ((2 * of_nat n + 1) / 2) = Fin (of_nat n + 1 / 2)"
    using f64_round_scaled[of "2 * int n + 1" "-1"] assms by (simp add: pow2_def add_divide_distrib)
  moreover have "of_int (2 * int n + 1) * 2 ^ 9 / 1024 = (2 * of_nat n + 1 :: rat) / 2" by simp
  ultimately have q: "f64_div (f64_of_int ((2 * int n + 1) * 2 ^ 9)) (f64_of_int 1024) = Fin (of_nat n + 1 / 2)"
    by (simp only: f64_div.simps) simp
  have str: "MarshalYAML (of_nat (1024 * n + 512)) = show_nat n @ ''.5'' @ ''KB''"
    using assms si q unfolding MarshalYAML_def Bytes_String_def Let_def
    by (simp add: unit_defs fmt_1f_half del: fmt_1f.simps)
  have "sizeRegexp (show_nat n @ ''.5'' @ ''KB'') = None"
    by (simp add: sizeRegexp_def Let_def digits_prefix opt_char_def)
  then show ?thesis
    unfolding str by (subst parseSize_printed[where n = n and r = "''5KB''"]) (simp_all add: IsSpace_def)
qed

theorem bytes_half_unreadable_witness: "parseSize (MarshalYAML 1536) = Inl InvalidFormat"
  using bytes_half_unreadable[of 1] by simp

end
