(* ===== verification/Storage_Manager.thy ===== *)
theory Storage_Manager
  imports Local_Storage Byte_Units
begin

text \<open>
  \<open>client/daemon/storage/storage_manager.go\<close>: the tasks a peer stores, their index by task, the
  two-phase garbage collector and the reload after a restart. A task store is a reference, because
  the map of tasks and the index share it. \<open>clientutil.KeepAlive\<close> is modelled with it.
\<close>

section \<open>keepalive.go\<close>

record keepAlive =
  ka_access :: time

definition NewKeepAlive :: "time \<Rightarrow> keepAlive" where
  "NewKeepAlive now = \<lparr>ka_access = now\<rparr>"

text \<open>\<open>Keep\<close> has a value receiver: it assigns to a copy, and the object stays as it was.\<close>

definition Keep :: "time \<Rightarrow> keepAlive \<Rightarrow> keepAlive" where
  "Keep now k = (let copied = k\<lparr>ka_access := now\<rparr> in k)"

definition Alive :: "time \<Rightarrow> time \<Rightarrow> keepAlive \<Rightarrow> bool" where
  "Alive now alive k \<longleftrightarrow> ka_access k + alive > now"

section \<open>storageManager\<close>

record storageManager =
  sm_keep :: keepAlive
  sm_storeStrategy :: string
  sm_dataPath :: path
  sm_expireTime :: time
  sm_DiskGCThreshold :: Bytes
  sm_DiskGCThresholdPercent :: f64
  sm_gcInterval :: time
  sm_tasks :: "(PeerTaskMetadata, nat) gomap"
  sm_index :: "(string, nat list) gomap"
  sm_marked :: "PeerTaskMetadata list"
  sm_at :: "nat \<Rightarrow> localTaskStore"
  sm_next :: nat
  sm_fs :: fs
  sm_left :: "PeerTaskMetadata list" \<comment> \<open>the calls of \<open>gcCallback\<close>, in order\<close>

definition simpleStrategy :: string where "simpleStrategy = ''io.d7y.storage.v2.simple''"

definition advanceStrategy :: string where "advanceStrategy = ''io.d7y.storage.v2.advance''"

definition upd_store :: "nat \<Rightarrow> (localTaskStore \<Rightarrow> localTaskStore) \<Rightarrow> storageManager \<Rightarrow> storageManager" where
  "upd_store r f s = s\<lparr>sm_at := (sm_at s)(r := f (sm_at s r))\<rparr>"

definition LoadTask :: "time \<Rightarrow> PeerTaskMetadata \<Rightarrow> storageManager \<Rightarrow> nat option \<times> storageManager" where
  "LoadTask now meta s = (Load (sm_tasks s) meta, s\<lparr>sm_keep := Keep now (sm_keep s)\<rparr>)"

text \<open>The data file and its link in the task directory, for either strategy.\<close>

definition create_data ::
  "os_fail \<Rightarrow> bool \<Rightarrow> string \<Rightarrow> path \<Rightarrow> path \<Rightarrow> string \<Rightarrow> fs \<Rightarrow> (storage_error + path) \<times> fs" where
  "create_data bad same_dev strategy dataDir destination peerID s =
     (let data = path_Join dataDir ''data''
      in if strategy = simpleStrategy
         then (case os_Create bad False data s of
                 (Inl e, s1) \<Rightarrow> (Inl (ErrOs e), s1) | (Inr _, s1) \<Rightarrow> (Inr data, s1))
         else if strategy = advanceStrategy
         then let (dir, base) = path_Split destination
              in case os_Stat bad dir s of
                   Some e \<Rightarrow> (Inl (ErrOs e), s)
                 | None \<Rightarrow>
                     let cache = path_Join dir (''.'' @ base @ ''.dfget.cache.'' @ peerID)
                     in case os_Create bad False cache s of
                          (Inl e, s1) \<Rightarrow> (Inl (ErrOs e), s1)
                        | (Inr _, s1) \<Rightarrow>
                            (case (if same_dev then os_Link bad cache data s1 else (Some NotExist, s1)) of
                               (None, s2) \<Rightarrow> (Inr cache, s2)
                             | (Some _, s2) \<Rightarrow>
                                 (case os_Symlink bad cache data s2 of
                                    (Some e, s3) \<Rightarrow> (Inl (ErrOs e), s3)
                                  | (None, s3) \<Rightarrow> (Inr cache, s3)))
         else (Inr [], s))"

record RegisterTaskRequest =
  rt_PeerID :: string
  rt_TaskID :: string
  rt_Destination :: path
  rt_ContentLength :: int64
  rt_TotalPieces :: int32
  rt_PieceMd5Sign :: string

definition index_add :: "string \<Rightarrow> nat \<Rightarrow> (string, nat list) gomap \<Rightarrow> (string, nat list) gomap" where
  "index_add taskID r ix =
     (case Load ix taskID of Some ts \<Rightarrow> Store taskID (ts @ [r]) ix | None \<Rightarrow> Store taskID [r] ix)"

definition add_store :: "PeerTaskMetadata \<Rightarrow> localTaskStore \<Rightarrow> storageManager \<Rightarrow> storageManager" where
  "add_store key t s =
     s\<lparr>sm_at := (sm_at s)(sm_next s := t), sm_next := sm_next s + 1,
       sm_tasks := Store key (sm_next s) (sm_tasks s), sm_index := index_add (ptm_TaskID key) (sm_next s) (sm_index s)\<rparr>"

definition CreateTask ::
  "os_fail \<Rightarrow> bool \<Rightarrow> time \<Rightarrow> RegisterTaskRequest \<Rightarrow> storageManager \<Rightarrow> storage_error option \<times> storageManager" where
  "CreateTask bad same_dev now req s0 =
     (let s = s0\<lparr>sm_keep := Keep now (sm_keep s0)\<rparr>;
          dataDir = path_Join (path_Join (sm_dataPath s) (rt_TaskID req)) (rt_PeerID req);
          metaPath = path_Join dataDir ''metadata'';
          strategy = (if rt_Destination req = [] then simpleStrategy else sm_storeStrategy s)
      in case os_MkdirAll bad dataDir (sm_fs s) of
           (Some e, f1) \<Rightarrow> (Some (ErrOs e), s\<lparr>sm_fs := f1\<rparr>)
         | (None, f1) \<Rightarrow>
             (case os_Create bad False metaPath f1 of
                (Inl e, f2) \<Rightarrow> (Some (ErrOs e), s\<lparr>sm_fs := f2\<rparr>)
              | (Inr i, f2) \<Rightarrow>
                  (case create_data bad same_dev strategy dataDir (rt_Destination req) (rt_PeerID req) f2 of
                     (Inl e, f3) \<Rightarrow> (Some e, s\<lparr>sm_fs := f3\<rparr>)
                   | (Inr dataFile, f3) \<Rightarrow>
                       (None, add_store \<lparr>ptm_PeerID = rt_PeerID req, ptm_TaskID = rt_TaskID req\<rparr>
                          \<lparr>lt_meta = \<lparr>md_StoreStrategy = strategy, md_TaskID = rt_TaskID req, md_TaskMeta = [],
                             md_ContentLength = rt_ContentLength req, md_TotalPieces = rt_TotalPieces req,
                             md_PeerID = rt_PeerID req, md_Pieces = [], md_PieceMd5Sign = rt_PieceMd5Sign req,
                             md_DataFilePath = dataFile, md_Done = False\<rparr>,
                           lt_dataDir = dataDir, lt_metadataFile = (i, True), lt_metadataFilePath = metaPath,
                           lt_expireTime = sm_expireTime s, lt_lastAccess = now, lt_reclaimMarked = False,
                           lt_invalid = False\<rparr> (s\<lparr>sm_fs := f3\<rparr>)))))"

text \<open>The second look-up runs under the lock; nothing else runs in between here.\<close>

definition sm_RegisterTask ::
  "os_fail \<Rightarrow> bool \<Rightarrow> time \<Rightarrow> RegisterTaskRequest \<Rightarrow> storageManager \<Rightarrow> storage_error option \<times> storageManager" where
  "sm_RegisterTask bad same_dev now req s =
     (case LoadTask now \<lparr>ptm_PeerID = rt_PeerID req, ptm_TaskID = rt_TaskID req\<rparr> s of
        (Some _, s1) \<Rightarrow> (None, s1)
      | (None, s1) \<Rightarrow>
          (case LoadTask now \<lparr>ptm_PeerID = rt_PeerID req, ptm_TaskID = rt_TaskID req\<rparr> s1 of
             (Some _, s2) \<Rightarrow> (None, s2)
           | (None, s2) \<Rightarrow> CreateTask bad same_dev now req s2))"

text \<open>
  The other calls look the task up and pass the request on to its store.
\<close>

definition with_task ::
  "time \<Rightarrow> PeerTaskMetadata \<Rightarrow> (localTaskStore \<times> fs \<Rightarrow> 'a \<times> localTaskStore \<times> fs) \<Rightarrow> storageManager
   \<Rightarrow> (storage_error + 'a) \<times> storageManager" where
  "with_task now meta f s0 =
     (case LoadTask now meta s0 of
        (None, s) \<Rightarrow> (Inl ErrTaskNotFound, s)
      | (Some r, s) \<Rightarrow>
          (case f (sm_at s r, sm_fs s) of
             (x, t, fs') \<Rightarrow> (Inr x, (upd_store r (\<lambda>_. t) s)\<lparr>sm_fs := fs'\<rparr>)))"

definition sm_WritePiece where
  "sm_WritePiece bad now meta req = with_task now meta (WritePiece bad now req)"

definition sm_ReadPiece where
  "sm_ReadPiece bad now meta req =
     with_task now meta (\<lambda>(t, s). case ReadPiece bad now req (t, s) of (x, t') \<Rightarrow> (x, t', s))"

definition sm_ReadAllPieces where
  "sm_ReadAllPieces bad now meta =
     with_task now meta (\<lambda>(t, s). case ReadAllPieces bad now (t, s) of (x, t') \<Rightarrow> (x, t', s))"

definition sm_Store where
  "sm_Store bad marshal now meta req = with_task now meta (Store_task bad marshal now req)"

definition sm_GetPieces where
  "sm_GetPieces now meta req = with_task now meta (\<lambda>(t, s). case GetPieces now req t of (x, t') \<Rightarrow> (x, t', s))"

definition sm_UpdateTask where
  "sm_UpdateTask sha256 now meta req = with_task now meta (\<lambda>(t, s). ((), UpdateTask sha256 now req t, s))"

definition sm_ValidateDigest where
  "sm_ValidateDigest sha256 now meta =
     with_task now meta (\<lambda>(t, s). case ValidateDigest sha256 t of (x, t') \<Rightarrow> (x, t', s))"

definition sm_IsInvalid where
  "sm_IsInvalid now meta = with_task now meta (\<lambda>(t, s). (IsInvalid t, t, s))"

record ReusePeerTask =
  ru_Task :: PeerTaskMetadata
  ru_ContentLength :: int64
  ru_TotalPieces :: int32

fun find_completed :: "time \<Rightarrow> string \<Rightarrow> nat list \<Rightarrow> storageManager \<Rightarrow> ReusePeerTask option \<times> storageManager" where
  "find_completed now taskID [] s = (None, s)"
| "find_completed now taskID (r # rs) s =
     (if lt_invalid (sm_at s r) then find_completed now taskID rs s
      else let s1 = upd_store r (touch now) s; t = sm_at s1 r
           in if lt_reclaimMarked t then find_completed now taskID rs s1
              else if \<not> md_Done (lt_meta t) then find_completed now taskID rs s1
              else (Some \<lparr>ru_Task = \<lparr>ptm_PeerID = md_PeerID (lt_meta t), ptm_TaskID = taskID\<rparr>,
                          ru_ContentLength = md_ContentLength (lt_meta t),
                          ru_TotalPieces = md_TotalPieces (lt_meta t)\<rparr>, s1))"

definition FindCompletedTask :: "time \<Rightarrow> string \<Rightarrow> storageManager \<Rightarrow> ReusePeerTask option \<times> storageManager" where
  "FindCompletedTask now taskID s =
     (case Load (sm_index s) taskID of None \<Rightarrow> (None, s) | Some ts \<Rightarrow> find_completed now taskID ts s)"

definition cleanIndex :: "string \<Rightarrow> string \<Rightarrow> storageManager \<Rightarrow> storageManager" where
  "cleanIndex taskID peerID s =
     (case Load (sm_index s) taskID of
        None \<Rightarrow> s
      | Some ts \<Rightarrow>
          s\<lparr>sm_index := Store taskID (filter (\<lambda>r. md_PeerID (lt_meta (sm_at s r)) \<noteq> peerID) ts) (sm_index s)\<rparr>)"

section \<open>Garbage collection\<close>

text \<open>\<open>disk.Usage\<close>: the used percentage and the size of the disk, or no answer.\<close>

definition diskUsageExceed ::
  "(f64 \<Rightarrow> int64) \<Rightarrow> (f64 \<times> uint64) option \<Rightarrow> storageManager \<Rightarrow> bool \<times> int64" where
  "diskUsageExceed out_of_range usage s =
     (case usage of
        None \<Rightarrow> (False, 0)
      | Some (UsedPercent, total_bytes) \<Rightarrow>
          if f64_gt (sm_DiskGCThresholdPercent s) UsedPercent then (False, 0)
          else let bs = f64_mul (f64_add UsedPercent (f64_neg (sm_DiskGCThresholdPercent s))) (f64_of_int (uint total_bytes))
               in (True, f64_to_int64 out_of_range bs))"

definition mark_store :: "nat \<Rightarrow> storageManager \<Rightarrow> storageManager" where
  "mark_store r s =
     (case MarkReclaim (sm_at s r) of (calls, t) \<Rightarrow> (upd_store r (\<lambda>_. t) s)\<lparr>sm_left := sm_left s @ calls\<rparr>)"

text \<open>The first pass: expired tasks are marked, the sizes of the others are added up.\<close>

fun mark_expired ::
  "time \<Rightarrow> (PeerTaskMetadata \<times> nat) list \<Rightarrow> PeerTaskMetadata list \<times> int64 \<times> storageManager
   \<Rightarrow> PeerTaskMetadata list \<times> int64 \<times> storageManager" where
  "mark_expired now [] acc = acc"
| "mark_expired now ((key, r) # es) (marked, total_size, s) =
     (if CanReclaim now (sm_at s r)
      then mark_expired now es (marked @ [key], total_size, mark_store r s)
      else mark_expired now es (marked, total_size + md_ContentLength (lt_meta (sm_at s r)), s))"

text \<open>The tasks the quota may take, oldest access first.\<close>

definition gc_candidates :: "time \<Rightarrow> storageManager \<Rightarrow> nat list" where
  "gc_candidates now s =
     sort_key (\<lambda>r. lt_lastAccess (sm_at s r))
       (filter (\<lambda>r. \<not> lt_reclaimMarked (sm_at s r) \<and>
                    \<not> (\<not> md_Done (lt_meta (sm_at s r)) \<and> now - lt_lastAccess (sm_at s r) < sm_gcInterval s))
         (map snd (sm_tasks s)))"

fun mark_oldest ::
  "nat list \<Rightarrow> int64 \<Rightarrow> PeerTaskMetadata list \<times> storageManager \<Rightarrow> PeerTaskMetadata list \<times> storageManager" where
  "mark_oldest [] bytesExceed acc = acc"
| "mark_oldest (r # rs) bytesExceed (marked, s) =
     (let m = lt_meta (sm_at s r); s1 = mark_store r s;
          acc = (marked @ [\<lparr>ptm_PeerID = md_PeerID m, ptm_TaskID = md_TaskID m\<rparr>], s1);
          b = bytesExceed - md_ContentLength m
      in if sint b \<le> 0 then acc else mark_oldest rs b acc)"

text \<open>The last pass: the tasks marked in the previous collection are deleted.\<close>

fun reclaim_marked ::
  "os_fail \<Rightarrow> PeerTaskMetadata list \<Rightarrow> PeerTaskMetadata list \<times> storageManager
   \<Rightarrow> PeerTaskMetadata list \<times> storageManager" where
  "reclaim_marked bad [] acc = acc"
| "reclaim_marked bad (key # ks) (marked, s) =
     (case Load (sm_tasks s) key of
        None \<Rightarrow> reclaim_marked bad ks (marked, s)
      | Some r \<Rightarrow>
          let t = sm_at s r;
              s1 = cleanIndex (md_TaskID (lt_meta t)) (md_PeerID (lt_meta t)) (s\<lparr>sm_tasks := Delete key (sm_tasks s)\<rparr>)
          in case Reclaim bad t (sm_fs s1) of
               (err, f) \<Rightarrow>
                 if err \<noteq> None then reclaim_marked bad ks (marked, s1\<lparr>sm_fs := f\<rparr>)
                 else reclaim_marked bad ks (remove1 key marked, s1\<lparr>sm_fs := f\<rparr>))"

text \<open>Both marking passes: the keys of the marked tasks and the state.\<close>

definition gc_mark ::
  "(f64 \<Rightarrow> int64) \<Rightarrow> (f64 \<times> uint64) option \<Rightarrow> time \<Rightarrow> storageManager \<Rightarrow> PeerTaskMetadata list \<times> storageManager" where
  "gc_mark out_of_range usage now s0 =
     (let (marked, totalNotMarkedSize, s) = mark_expired now (sm_tasks s0) ([], 0, s0);
          quotaBytesExceed = totalNotMarkedSize - sm_DiskGCThreshold s;
          quotaExceed = (sint (sm_DiskGCThreshold s) > 0 \<and> sint quotaBytesExceed > 0);
          (usageExceed, usageBytesExceed) = diskUsageExceed out_of_range usage s;
          bytesExceed = (if sint quotaBytesExceed > sint usageBytesExceed then quotaBytesExceed else usageBytesExceed)
      in if quotaExceed \<or> usageExceed then mark_oldest (gc_candidates now s) bytesExceed (marked, s) else (marked, s))"

definition TryGC ::
  "os_fail \<Rightarrow> (f64 \<Rightarrow> int64) \<Rightarrow> (f64 \<times> uint64) option \<Rightarrow> time \<Rightarrow> storageManager \<Rightarrow> storageManager" where
  "TryGC bad out_of_range usage now s0 =
     (let (marked, s1) = gc_mark out_of_range usage now s0;
          (marked', s2) = reclaim_marked bad (sm_marked s1) (marked, s1)
      in s2\<lparr>sm_marked := marked'\<rparr>)"

definition force_visit :: "os_fail \<Rightarrow> PeerTaskMetadata \<times> nat \<Rightarrow> storageManager \<Rightarrow> storageManager" where
  "force_visit bad = (\<lambda>(meta, r) s.
     let s1 = cleanIndex (ptm_TaskID meta) (ptm_PeerID meta) (s\<lparr>sm_tasks := Delete meta (sm_tasks s)\<rparr>);
         s2 = mark_store r s1
     in s2\<lparr>sm_fs := snd (Reclaim bad (sm_at s2 r) (sm_fs s2))\<rparr>)"

definition forceGC :: "os_fail \<Rightarrow> storageManager \<Rightarrow> storageManager" where
  "forceGC bad s = fold (force_visit bad) (sm_tasks s) s"

definition CleanUp :: "os_fail \<Rightarrow> storageManager \<Rightarrow> storageManager" where
  "CleanUp bad s = forceGC bad s"

section \<open>Reload after a restart\<close>

text \<open>\<open>os.ReadDir\<close>: the names of the entries right below a directory.\<close>

definition dir_names :: "path \<Rightarrow> fs \<Rightarrow> string list" where
  "dir_names d s =
     remdups (map (\<lambda>(p, _). takeWhile (\<lambda>c. c \<noteq> CHR ''/'') (drop (length d + 1) p)) (filter (\<lambda>(p, _). below d p) (entries s)))"

definition os_ReadDir :: "os_fail \<Rightarrow> path \<Rightarrow> fs \<Rightarrow> os_error + string list" where
  "os_ReadDir bad d s =
     (if bad OpReadDir d then Inl (OtherError OpReadDir)
      else case Load (entries s) d of
             None \<Rightarrow> Inl NotExist
           | Some Directory \<Rightarrow> Inr (dir_names d s)
           | Some _ \<Rightarrow> Inl (OtherError OpReadDir))"

text \<open>One peer directory: the metadata is opened for reading only, read and decoded.\<close>

definition reload_store ::
  "os_fail \<Rightarrow> (uint8 list \<Rightarrow> persistentMetadata option) \<Rightarrow> time \<Rightarrow> time \<Rightarrow> path \<Rightarrow> fs \<Rightarrow> localTaskStore option" where
  "reload_store bad unmarshal expire now dataDir s =
     (let metaPath = path_Join dataDir ''metadata''
      in case os_Open bad metaPath s of
           Inl _ \<Rightarrow> None
         | Inr i \<Rightarrow>
             if bad OpRead metaPath then None
             else map_option (\<lambda>m. \<lparr>lt_meta = m, lt_dataDir = dataDir, lt_metadataFile = (i, False),
                                   lt_metadataFilePath = metaPath, lt_expireTime = expire, lt_lastAccess = now,
                                   lt_reclaimMarked = False, lt_invalid = False\<rparr>)
                    (unmarshal (blocks s i)))"

definition reload_peer ::
  "os_fail \<Rightarrow> (uint8 list \<Rightarrow> persistentMetadata option) \<Rightarrow> time \<Rightarrow> string \<Rightarrow> string
   \<Rightarrow> path list \<times> storageManager \<Rightarrow> path list \<times> storageManager" where
  "reload_peer bad unmarshal now taskID peerID = (\<lambda>(errDirs, s).
     let dataDir = path_Join (path_Join (sm_dataPath s) taskID) peerID
     in case reload_store bad unmarshal (sm_expireTime s) now dataDir (sm_fs s) of
          None \<Rightarrow> (errDirs @ [dataDir], s)
        | Some t \<Rightarrow> (errDirs, add_store \<lparr>ptm_PeerID = peerID, ptm_TaskID = taskID\<rparr> t s))"

definition reload_task ::
  "os_fail \<Rightarrow> (uint8 list \<Rightarrow> persistentMetadata option) \<Rightarrow> time \<Rightarrow> string
   \<Rightarrow> path list \<times> storageManager \<Rightarrow> path list \<times> storageManager" where
  "reload_task bad unmarshal now taskID = (\<lambda>(errDirs, s).
     let taskDir = path_Join (sm_dataPath s) taskID
     in case os_ReadDir bad taskDir (sm_fs s) of
          Inl _ \<Rightarrow> (errDirs, s)
        | Inr [] \<Rightarrow>
            if HasPrefix taskDir ''.'' then (errDirs, s)
            else (errDirs, s\<lparr>sm_fs := snd (os_Remove bad taskDir (sm_fs s))\<rparr>)
        | Inr peers \<Rightarrow> fold (reload_peer bad unmarshal now taskID) peers (errDirs, s))"

text \<open>A directory that could not be loaded is removed as far as possible.\<close>

definition remove_load_error :: "os_fail \<Rightarrow> path \<Rightarrow> fs \<Rightarrow> fs" where
  "remove_load_error bad dir s =
     (let s1 = snd (os_Remove bad (path_Join dir ''metadata'') s);
          data = path_Join dir ''data'';
          s2 = (case os_Lstat bad data s1 of
                  Inl _ \<Rightarrow> s1
                | Inr e \<Rightarrow>
                    let s' = (case e of
                                SymlinkTo dest \<Rightarrow> if bad OpReadlink data then s1 else snd (os_Remove bad dest s1)
                              | _ \<Rightarrow> s1)
                    in snd (os_Remove bad data s'))
      in snd (os_Remove bad dir s2))"

definition ReloadPersistentTask ::
  "os_fail \<Rightarrow> (uint8 list \<Rightarrow> persistentMetadata option) \<Rightarrow> time \<Rightarrow> storageManager \<Rightarrow> bool \<times> storageManager" where
  "ReloadPersistentTask bad unmarshal now s0 =
     (case os_ReadDir bad (sm_dataPath s0) (sm_fs s0) of
        Inl NotExist \<Rightarrow> (True, s0)
      | Inl _ \<Rightarrow> (False, s0)
      | Inr dirs \<Rightarrow>
          (case fold (reload_task bad unmarshal now) dirs ([], s0) of
             (errDirs, s1) \<Rightarrow> (errDirs = [], s1\<lparr>sm_fs := fold (remove_load_error bad) errDirs (sm_fs s1)\<rparr>)))"

definition no_store :: localTaskStore where
  "no_store =
     \<lparr>lt_meta = \<lparr>md_StoreStrategy = [], md_TaskID = [], md_TaskMeta = [], md_ContentLength = 0, md_TotalPieces = 0,
        md_PeerID = [], md_Pieces = [], md_PieceMd5Sign = [], md_DataFilePath = [], md_Done = False\<rparr>,
      lt_dataDir = [], lt_metadataFile = (0, False), lt_metadataFilePath = [], lt_expireTime = 0, lt_lastAccess = 0,
      lt_reclaimMarked = False, lt_invalid = False\<rparr>"

text \<open>The options are already applied; the data path is absolute and exists or can be made.\<close>

definition NewStorageManager ::
  "os_fail \<Rightarrow> (uint8 list \<Rightarrow> persistentMetadata option) \<Rightarrow> time \<Rightarrow> string \<Rightarrow> path \<Rightarrow> time \<Rightarrow> Bytes \<Rightarrow> f64 \<Rightarrow> fs
   \<Rightarrow> storageManager option" where
  "NewStorageManager bad unmarshal now strategy dataPath expire threshold percent f0 =
     (case (case os_Stat bad dataPath f0 of
              Some NotExist \<Rightarrow> (case os_MkdirAll bad dataPath f0 of (None, f) \<Rightarrow> Some f | _ \<Rightarrow> None)
            | None \<Rightarrow> Some f0
            | _ \<Rightarrow> None) of
        None \<Rightarrow> None
      | Some f \<Rightarrow>
          if strategy \<noteq> [] \<and> strategy \<noteq> simpleStrategy \<and> strategy \<noteq> advanceStrategy then None
          else Some (snd (ReloadPersistentTask bad unmarshal now
                 \<lparr>sm_keep = NewKeepAlive now, sm_storeStrategy = (if strategy = [] then simpleStrategy else strategy),
                  sm_dataPath = dataPath, sm_expireTime = expire, sm_DiskGCThreshold = threshold,
                  sm_DiskGCThresholdPercent = percent, sm_gcInterval = 60000000000, sm_tasks = [], sm_index = [],
                  sm_marked = [], sm_at = (\<lambda>_. no_store), sm_next = 0, sm_fs = f, sm_left = []\<rparr>)))"

end
