(* ===== verification/Storage_Properties.thy ===== *)
theory Storage_Properties
  imports Storage_Manager
begin

text \<open>
  The invariant of the storage manager of a peer, kept by all its calls, and what it gives for the
  two-phase garbage collector.
\<close>

section \<open>Invariant\<close>

definition index_of :: "string \<Rightarrow> storageManager \<Rightarrow> nat list" where
  "index_of tid s = (case Load (sm_index s) tid of None \<Rightarrow> [] | Some ts \<Rightarrow> ts)"

text \<open>A store is registered under its own identifiers.\<close>

definition keyed :: "PeerTaskMetadata \<Rightarrow> localTaskStore \<Rightarrow> bool" where
  "keyed k t \<longleftrightarrow> md_PeerID (lt_meta t) = ptm_PeerID k \<and> md_TaskID (lt_meta t) = ptm_TaskID k"

definition base_inv :: "storageManager \<Rightarrow> bool" where
  "base_inv s \<longleftrightarrow> wf_map (sm_tasks s) \<and>
     (\<forall>k r. Load (sm_tasks s) k = Some r \<longrightarrow> r < sm_next s \<and> keyed k (sm_at s r)) \<and>
     (\<forall>tid r. r \<in> set (index_of tid s) \<longleftrightarrow> (\<exists>k. Load (sm_tasks s) k = Some r \<and> ptm_TaskID k = tid))"

text \<open>The marked tasks are exactly those the next collection deletes.\<close>

definition mark_inv :: "PeerTaskMetadata list \<Rightarrow> storageManager \<Rightarrow> bool" where
  "mark_inv ks s \<longleftrightarrow> (\<forall>k r. Load (sm_tasks s) k = Some r \<longrightarrow> (lt_reclaimMarked (sm_at s r) \<longleftrightarrow> k \<in> set ks))"

definition sm_inv :: "storageManager \<Rightarrow> bool" where
  "sm_inv s \<longleftrightarrow> base_inv s \<and> mark_inv (sm_marked s) s"

lemma base_invD:
  assumes "base_inv s"
  shows "wf_map (sm_tasks s)"
    and "Load (sm_tasks s) k = Some r \<Longrightarrow> r < sm_next s"
    and "Load (sm_tasks s) k = Some r \<Longrightarrow> keyed k (sm_at s r)"
    and "r \<in> set (index_of tid s) \<longleftrightarrow> (\<exists>k. Load (sm_tasks s) k = Some r \<and> ptm_TaskID k = tid)"
  using assms unfolding base_inv_def by blast+

lemma keyed_unique: "keyed k t \<Longrightarrow> keyed k' t \<Longrightarrow> k = k'"
  by (simp add: keyed_def)

lemma store_unique:
  assumes "base_inv s" "Load (sm_tasks s) k = Some r" "Load (sm_tasks s) k' = Some r"
  shows "k = k'"
  using base_invD(3)[OF assms(1)] assms(2,3) keyed_unique by blast

lemma upd_store_simps [simp]:
  "sm_tasks (upd_store r f s) = sm_tasks s" "sm_index (upd_store r f s) = sm_index s"
  "sm_next (upd_store r f s) = sm_next s" "sm_marked (upd_store r f s) = sm_marked s"
  "sm_at (upd_store r f s) q = (if q = r then f (sm_at s r) else sm_at s q)" "sm_fs (upd_store r f s) = sm_fs s"
  "index_of tid (upd_store r f s) = index_of tid s" "sm_left (upd_store r f s) = sm_left s"
  "sm_gcInterval (upd_store r f s) = sm_gcInterval s"
  by (simp_all add: upd_store_def index_of_def)

text \<open>Changes of fields the invariant does not read.\<close>

lemma base_inv_frame [simp]:
  "base_inv (s\<lparr>sm_keep := k\<rparr>) = base_inv s" "base_inv (s\<lparr>sm_fs := f\<rparr>) = base_inv s"
  "base_inv (s\<lparr>sm_left := l\<rparr>) = base_inv s" "base_inv (s\<lparr>sm_marked := m\<rparr>) = base_inv s"
  by (simp_all add: base_inv_def index_of_def)

lemma mark_inv_frame [simp]:
  "mark_inv ks (s\<lparr>sm_keep := k\<rparr>) = mark_inv ks s" "mark_inv ks (s\<lparr>sm_fs := f\<rparr>) = mark_inv ks s"
  "mark_inv ks (s\<lparr>sm_left := l\<rparr>) = mark_inv ks s" "mark_inv ks (s\<lparr>sm_marked := m\<rparr>) = mark_inv ks s"
  by (simp_all add: mark_inv_def)

text \<open>What the calls on one store keep.\<close>

definition same_store :: "localTaskStore \<Rightarrow> localTaskStore \<Rightarrow> bool" where
  "same_store t t' \<longleftrightarrow> md_PeerID (lt_meta t') = md_PeerID (lt_meta t) \<and> md_TaskID (lt_meta t') = md_TaskID (lt_meta t) \<and>
     lt_reclaimMarked t' = lt_reclaimMarked t"

lemma upd_store_base_inv:
  assumes "base_inv s" "md_PeerID (lt_meta (f (sm_at s r))) = md_PeerID (lt_meta (sm_at s r))"
    "md_TaskID (lt_meta (f (sm_at s r))) = md_TaskID (lt_meta (sm_at s r))"
  shows "base_inv (upd_store r f s)"
  using assms unfolding base_inv_def keyed_def by auto

lemma upd_store_inv:
  assumes "sm_inv s" "same_store (sm_at s r) (f (sm_at s r))"
  shows "sm_inv (upd_store r f s)"
  using assms upd_store_base_inv[of s f r] by (auto simp: sm_inv_def mark_inv_def same_store_def)

lemma same_store_touch [simp]: "same_store t (touch now t)"
  by (simp add: same_store_def touch_def)

lemma same_store_refl [simp]: "same_store t t"
  by (simp add: same_store_def)

section \<open>Calls on one task\<close>











lemma find_completed_inv: "sm_inv s \<Longrightarrow> sm_inv (snd (find_completed now tid rs s))"
  by (induction now tid rs s rule: find_completed.induct) (simp_all add: Let_def upd_store_inv)

lemma FindCompletedTask_inv: "sm_inv s \<Longrightarrow> sm_inv (snd (FindCompletedTask now tid s))"
  by (simp add: FindCompletedTask_def find_completed_inv split: option.split)

section \<open>Registration\<close>






section \<open>Deletion\<close>

lemma keyed_eqI: "keyed k t \<Longrightarrow> ptm_TaskID k = tid \<Longrightarrow> md_PeerID (lt_meta t) = pid \<Longrightarrow> k = \<lparr>ptm_PeerID = pid, ptm_TaskID = tid\<rparr>"
  by (simp add: keyed_def)

text \<open>Taking a task out of the map and out of the index.\<close>

definition drop_task :: "PeerTaskMetadata \<Rightarrow> storageManager \<Rightarrow> storageManager" where
  "drop_task k s = cleanIndex (ptm_TaskID k) (ptm_PeerID k) (s\<lparr>sm_tasks := Delete k (sm_tasks s)\<rparr>)"

lemma drop_task_simps [simp]:
  "sm_tasks (drop_task k s) = Delete k (sm_tasks s)" "sm_at (drop_task k s) = sm_at s" "sm_next (drop_task k s) = sm_next s"
  "sm_marked (drop_task k s) = sm_marked s" "sm_fs (drop_task k s) = sm_fs s" "sm_left (drop_task k s) = sm_left s"
  by (simp_all add: drop_task_def cleanIndex_def split: option.split)

lemma index_of_drop:
  "set (index_of tid (drop_task k s)) =
     {r \<in> set (index_of tid s). tid = ptm_TaskID k \<longrightarrow> md_PeerID (lt_meta (sm_at s r)) \<noteq> ptm_PeerID k}"
  by (auto simp: index_of_def drop_task_def cleanIndex_def split: option.split)

lemma drop_task_base_inv:
  assumes inv: "base_inv s"
  shows "base_inv (drop_task k s)"
proof -
  have "r \<in> set (index_of tid (drop_task k s)) \<longleftrightarrow> (\<exists>k'. Load (sm_tasks (drop_task k s)) k' = Some r \<and> ptm_TaskID k' = tid)" for tid r
  proof -
    have "(tid = ptm_TaskID k \<longrightarrow> md_PeerID (lt_meta (sm_at s r)) \<noteq> ptm_PeerID k) \<longleftrightarrow> k' \<noteq> k"
      if "Load (sm_tasks s) k' = Some r" "ptm_TaskID k' = tid" for k'
      using base_invD(3)[OF inv that(1)] that(2) by (cases k, cases k') (auto simp: keyed_def)
    then show ?thesis using base_invD(4)[OF inv, of r tid] by (auto simp: index_of_drop)
  qed
  then show ?thesis using base_invD(1-3)[OF inv] unfolding base_inv_def by (auto split: if_splits)
qed

section \<open>Garbage collection\<close>

lemma mark_store_simps [simp]:
  "sm_tasks (mark_store r s) = sm_tasks s" "sm_index (mark_store r s) = sm_index s" "sm_next (mark_store r s) = sm_next s"
  "sm_marked (mark_store r s) = sm_marked s" "sm_fs (mark_store r s) = sm_fs s"
  "lt_meta (sm_at (mark_store r s) q) = lt_meta (sm_at s q)"
  "lt_lastAccess (sm_at (mark_store r s) q) = lt_lastAccess (sm_at s q)"
  "lt_reclaimMarked (sm_at (mark_store r s) q) \<longleftrightarrow> q = r \<or> lt_reclaimMarked (sm_at s q)"
  "sm_DiskGCThreshold (mark_store r s) = sm_DiskGCThreshold s" "sm_gcInterval (mark_store r s) = sm_gcInterval s"
  "sm_DiskGCThresholdPercent (mark_store r s) = sm_DiskGCThresholdPercent s"
  by (auto simp: mark_store_def MarkReclaim_def upd_store_def)

lemma mark_store_base_inv: "base_inv s \<Longrightarrow> base_inv (mark_store r s)"
  unfolding base_inv_def index_of_def keyed_def by simp

text \<open>The state after some tasks of \<open>s0\<close>, those in the list, were marked.\<close>

definition marking :: "storageManager \<Rightarrow> PeerTaskMetadata list \<Rightarrow> storageManager \<Rightarrow> bool" where
  "marking s0 marked s \<longleftrightarrow> base_inv s \<and> sm_tasks s = sm_tasks s0 \<and> sm_marked s = sm_marked s0 \<and>
     sm_DiskGCThreshold s = sm_DiskGCThreshold s0 \<and> sm_DiskGCThresholdPercent s = sm_DiskGCThresholdPercent s0 \<and>
     (\<forall>r. lt_meta (sm_at s r) = lt_meta (sm_at s0 r)) \<and>
     (\<forall>k r. Load (sm_tasks s) k = Some r \<longrightarrow>
        (lt_reclaimMarked (sm_at s r) \<longleftrightarrow> lt_reclaimMarked (sm_at s0 r) \<or> k \<in> set marked))"

lemma marking_refl: "base_inv s \<Longrightarrow> marking s [] s"
  by (simp add: marking_def)

lemma marking_step:
  assumes "marking s0 marked s" "Load (sm_tasks s) k = Some r"
  shows "marking s0 (marked @ [k]) (mark_store r s)"
proof -
  have inv: "base_inv s" using assms(1) by (simp add: marking_def)
  have same: "q = r \<longleftrightarrow> k' = k" if "Load (sm_tasks s) k' = Some q" for k' q
    using store_unique[OF inv assms(2), of k'] that assms(2) by auto
  have "lt_reclaimMarked (sm_at (mark_store r s) q) \<longleftrightarrow> lt_reclaimMarked (sm_at s0 q) \<or> k' \<in> set (marked @ [k])"
    if "Load (sm_tasks (mark_store r s)) k' = Some q" for k' q
    using that same[of k' q] assms(1) by (simp add: marking_def) blast
  then show ?thesis using assms(1) mark_store_base_inv[OF inv] by (simp add: marking_def)
qed

lemma mark_expired_marking:
  "mark_expired now es (marked, n, s) = (marked', n', s') \<Longrightarrow> marking s0 marked s \<Longrightarrow>
   \<forall>(k, r) \<in> set es. Load (sm_tasks s) k = Some r \<Longrightarrow> marking s0 marked' s'"
proof (induction now es "(marked, n, s)" arbitrary: marked n s rule: mark_expired.induct)
  case (2 now k r es marked n s)
  show ?case
  proof (cases "CanReclaim now (sm_at s r)")
    case True
    then show ?thesis using 2(1)[OF True _ marking_step[OF 2(4)]] 2(3,5) by auto
  next
    case False
    then show ?thesis using 2(2)[OF False _ 2(4)] 2(3,5) by auto
  qed
qed simp

lemma mark_oldest_marking:
  "mark_oldest rs b (marked, s) = (marked', s') \<Longrightarrow> marking s0 marked s \<Longrightarrow>
   \<forall>r \<in> set rs. \<exists>k. Load (sm_tasks s) k = Some r \<Longrightarrow> marking s0 marked' s'"
proof (induction rs b "(marked, s)" arbitrary: marked s rule: mark_oldest.induct)
  case (2 r rs b marked s)
  obtain k where k: "Load (sm_tasks s) k = Some r" using 2(4) by auto
  have "keyed k (sm_at s r)" using 2(3) base_invD(3)[of s k r] k by (simp add: marking_def)
  then have key: "\<lparr>ptm_PeerID = md_PeerID (lt_meta (sm_at s r)), ptm_TaskID = md_TaskID (lt_meta (sm_at s r))\<rparr> = k"
    by (simp add: keyed_def)
  note step = marking_step[OF 2(3) k]
  show ?case
  proof (cases "sint (b - md_ContentLength (lt_meta (sm_at s r))) \<le> 0")
    case True
    then show ?thesis using 2(2) step key by (simp add: Let_def)
  next
    case False
    then show ?thesis using 2(1)[OF refl refl refl refl False] 2(2,4) step key by (simp add: Let_def)
  qed
qed simp

lemma reclaim_marked_step:
  assumes "base_inv s"
  obtains marked1 s1 where "reclaim_marked bad (key # ks) (marked, s) = reclaim_marked bad ks (marked1, s1)"
    and "base_inv s1" "sm_at s1 = sm_at s" "\<And>k. Load (sm_tasks s1) k = (if k = key then None else Load (sm_tasks s) k)"
    and "\<And>k. k \<noteq> key \<Longrightarrow> k \<in> set marked1 \<longleftrightarrow> k \<in> set marked"
proof (cases "Load (sm_tasks s) key")
  case None
  show thesis by (rule that[of marked s]) (use None assms in auto)
next
  case (Some r)
  have "keyed key (sm_at s r)" using base_invD(3)[OF assms Some] .
  then have drop: "cleanIndex (md_TaskID (lt_meta (sm_at s r))) (md_PeerID (lt_meta (sm_at s r)))
      (s\<lparr>sm_tasks := Delete key (sm_tasks s)\<rparr>) = drop_task key s"
    by (simp add: drop_task_def keyed_def)
  obtain err f where rec: "Reclaim bad (sm_at s r) (sm_fs s) = (err, f)" by fastforce
  show thesis
    by (rule that[of "if err \<noteq> None then marked else remove1 key marked" "(drop_task key s)\<lparr>sm_fs := f\<rparr>"])
      (use Some rec drop drop_task_base_inv[OF assms] in \<open>auto simp: Let_def\<close>)
qed

lemma reclaim_marked_spec:
  "reclaim_marked bad ks (marked, s) = (marked', s') \<Longrightarrow> base_inv s \<Longrightarrow>
   base_inv s' \<and> sm_at s' = sm_at s \<and>
   (\<forall>k. Load (sm_tasks s') k = (if k \<in> set ks then None else Load (sm_tasks s) k)) \<and>
   (\<forall>k. k \<notin> set ks \<longrightarrow> (k \<in> set marked' \<longleftrightarrow> k \<in> set marked))"
proof (induction ks arbitrary: marked s)
  case (Cons key ks)
  obtain marked1 s1 where step: "reclaim_marked bad (key # ks) (marked, s) = reclaim_marked bad ks (marked1, s1)"
    and s1: "base_inv s1" "sm_at s1 = sm_at s" "\<And>k. Load (sm_tasks s1) k = (if k = key then None else Load (sm_tasks s) k)"
    and m1: "\<And>k. k \<noteq> key \<Longrightarrow> k \<in> set marked1 \<longleftrightarrow> k \<in> set marked"
    using reclaim_marked_step[OF Cons.prems(2)] by metis
  from Cons.IH[OF Cons.prems(1)[unfolded step] s1(1)] s1(2,3) m1 show ?case by simp
qed simp

text \<open>The marking passes, in terms of their parts.\<close>

lemma gc_mark_parts:
  assumes "base_inv s"
  obtains marked n s1 ue ub where "marking s marked s1" "mark_expired now (sm_tasks s) ([], 0, s) = (marked, n, s1)"
    and "diskUsageExceed oor usage s1 = (ue, ub)"
    and "gc_mark oor usage now s =
      (if (sint (sm_DiskGCThreshold s1) > 0 \<and> sint (n - sm_DiskGCThreshold s1) > 0) \<or> ue
       then mark_oldest (gc_candidates now s1)
         (if sint (n - sm_DiskGCThreshold s1) > sint ub then n - sm_DiskGCThreshold s1 else ub) (marked, s1)
       else (marked, s1))"
    and "\<forall>r \<in> set (gc_candidates now s1). \<exists>k. Load (sm_tasks s1) k = Some r"
proof -
  obtain marked n s1 where e: "mark_expired now (sm_tasks s) ([], 0, s) = (marked, n, s1)" by (metis surj_pair)
  obtain ue ub where d: "diskUsageExceed oor usage s1 = (ue, ub)" by fastforce
  have m: "marking s marked s1"
    using mark_expired_marking[OF e marking_refl[OF assms]] base_invD(1)[OF assms] by (auto simp: Load_Some_iff)
  have c: "\<forall>r \<in> set (gc_candidates now s1). \<exists>k. Load (sm_tasks s1) k = Some r"
    using m base_invD(1)[of s1] by (auto simp: gc_candidates_def marking_def Load_Some_iff)
  show thesis by (rule that[OF m e d _ c]) (simp only: gc_mark_def Let_def e prod.case d)
qed

lemma gc_mark_marking:
  assumes "base_inv s" "gc_mark oor usage now s = (marked, s1)"
  shows "marking s marked s1"
proof -
  obtain marked0 n s0 ue ub where m: "marking s marked0 s0" and g: "gc_mark oor usage now s =
      (if (sint (sm_DiskGCThreshold s0) > 0 \<and> sint (n - sm_DiskGCThreshold s0) > 0) \<or> ue
       then mark_oldest (gc_candidates now s0)
         (if sint (n - sm_DiskGCThreshold s0) > sint ub then n - sm_DiskGCThreshold s0 else ub) (marked0, s0)
       else (marked0, s0))"
    and c: "\<forall>r \<in> set (gc_candidates now s0). \<exists>k. Load (sm_tasks s0) k = Some r"
    by (rule gc_mark_parts[OF assms(1)])
  show ?thesis using assms(2) m mark_oldest_marking[OF _ m c] unfolding g by (auto split: if_splits)
qed

text \<open>One collection: the tasks marked before are gone, and newly marked ones are listed.\<close>

lemma TryGC_spec:
  assumes inv: "sm_inv s" and g: "gc_mark oor usage now s = (marked, s1)" and s': "s' = TryGC bad oor usage now s"
  shows "base_inv s'"
    and "Load (sm_tasks s') k = (if k \<in> set (sm_marked s) then None else Load (sm_tasks s) k)"
    and "k \<notin> set (sm_marked s) \<Longrightarrow> k \<in> set (sm_marked s') \<longleftrightarrow> k \<in> set marked"
    and "Load (sm_tasks s) k = Some r \<Longrightarrow> (lt_reclaimMarked (sm_at s' r) \<longleftrightarrow> lt_reclaimMarked (sm_at s r) \<or> k \<in> set marked)"
proof -
  have m: "marking s marked s1" using gc_mark_marking[OF _ g] inv by (simp add: sm_inv_def)
  obtain marked2 s2 where r: "reclaim_marked bad (sm_marked s1) (marked, s1) = (marked2, s2)" by fastforce
  have gc: "s' = s2\<lparr>sm_marked := marked2\<rparr>" by (simp add: s' TryGC_def g r)
  have b1: "base_inv s1" using m by (simp add: marking_def)
  note spec = reclaim_marked_spec[OF r b1]
  show "base_inv s'" using spec by (simp add: gc)
  show "Load (sm_tasks s') k = (if k \<in> set (sm_marked s) then None else Load (sm_tasks s) k)"
    using spec m by (simp add: gc marking_def)
  show "k \<notin> set (sm_marked s) \<Longrightarrow> k \<in> set (sm_marked s') \<longleftrightarrow> k \<in> set marked"
    using spec m by (simp add: gc marking_def)
  show "Load (sm_tasks s) k = Some r \<Longrightarrow> (lt_reclaimMarked (sm_at s' r) \<longleftrightarrow> lt_reclaimMarked (sm_at s r) \<or> k \<in> set marked)"
    using spec m by (simp add: gc marking_def)
qed

lemma TryGC_inv:
  assumes "sm_inv s"
  shows "sm_inv (TryGC bad oor usage now s)"
proof -
  obtain marked s1 where g: "gc_mark oor usage now s = (marked, s1)" by fastforce
  note spec = TryGC_spec[OF assms g, where bad = bad and s' = "TryGC bad oor usage now s", OF refl]
  have "lt_reclaimMarked (sm_at (TryGC bad oor usage now s) r) \<longleftrightarrow> k \<in> set (sm_marked (TryGC bad oor usage now s))"
    if "Load (sm_tasks (TryGC bad oor usage now s)) k = Some r" for k r
  proof -
    have "k \<notin> set (sm_marked s)" "Load (sm_tasks s) k = Some r" using that spec(2)[of k] by (auto split: if_splits)
    then show ?thesis using spec(3)[of k] spec(4)[of k r] assms by (simp add: sm_inv_def mark_inv_def)
  qed
  then show ?thesis using spec(1) by (simp add: sm_inv_def mark_inv_def)
qed




section \<open>Runs\<close>





lemma find_completed_Some:
  "find_completed now tid rs s = (Some ru, s') \<Longrightarrow>
   \<exists>r \<in> set rs. \<not> lt_reclaimMarked (sm_at s' r) \<and> ru_Task ru = \<lparr>ptm_PeerID = md_PeerID (lt_meta (sm_at s' r)), ptm_TaskID = tid\<rparr>"
  by (induction now tid rs s rule: find_completed.induct) (auto simp: Let_def touch_def split: if_splits)

lemma find_completed_tasks [simp]:
  "sm_tasks (snd (find_completed now tid rs s)) = sm_tasks s" "sm_index (snd (find_completed now tid rs s)) = sm_index s"
  by (induction now tid rs s rule: find_completed.induct) (simp_all add: Let_def)

lemma FindCompletedTask_Some:
  assumes "sm_inv s" "FindCompletedTask now tid s = (Some ru, s')"
  obtains r where "Load (sm_tasks s') (ru_Task ru) = Some r" "ru_Task ru \<notin> set (sm_marked s')"
proof -
  obtain ts where ts: "Load (sm_index s) tid = Some ts" and f: "find_completed now tid ts s = (Some ru, s')"
    using assms(2) by (auto simp: FindCompletedTask_def split: option.splits)
  obtain r where r: "r \<in> set ts" "\<not> lt_reclaimMarked (sm_at s' r)"
    "ru_Task ru = \<lparr>ptm_PeerID = md_PeerID (lt_meta (sm_at s' r)), ptm_TaskID = tid\<rparr>"
    using find_completed_Some[OF f] by blast
  have inv: "sm_inv s'" using FindCompletedTask_inv[OF assms(1), of now tid] assms(2) by simp
  have "Load (sm_index s') tid = Some ts" using find_completed_tasks(2)[of now tid ts s] f ts by simp
  then have "r \<in> set (index_of tid s')" using r(1) by (simp add: index_of_def)
  then obtain k where k: "Load (sm_tasks s') k = Some r" "ptm_TaskID k = tid"
    using inv base_invD(4)[of s' r tid] by (auto simp: sm_inv_def)
  have "ru_Task ru = k" using inv base_invD(3)[of s' k r] k r(3) by (simp add: sm_inv_def keyed_def)
  moreover have "k \<notin> set (sm_marked s')" using inv k(1) r(2) by (simp add: sm_inv_def mark_inv_def)
  ultimately show thesis using that k(1) by simp
qed

text \<open>
  C26. A task that was handed out for reuse survives the next collection, whenever it runs and
  whatever quota it enforces: marking gives the user of the task one more period.
\<close>

theorem reused_task_survives:
  assumes "sm_inv s" and "FindCompletedTask now tid s = (Some ru, s1)"
  shows "\<exists>r. Load (sm_tasks s1) (ru_Task ru) = Some r \<and>
    Load (sm_tasks (TryGC bad oor usage later s1)) (ru_Task ru) = Some r"
proof -
  obtain r where r: "Load (sm_tasks s1) (ru_Task ru) = Some r" "ru_Task ru \<notin> set (sm_marked s1)"
    using FindCompletedTask_Some[OF assms] .
  obtain marked s2 where g: "gc_mark oor usage later s1 = (marked, s2)" by fastforce
  have inv: "sm_inv s1" using FindCompletedTask_inv[OF assms(1), of now tid] assms(2) by simp
  then show ?thesis using TryGC_spec(2)[OF inv g refl] r by simp
qed

section \<open>The quota\<close>

abbreviation task_size :: "storageManager \<Rightarrow> nat \<Rightarrow> int" where
  "task_size s r \<equiv> sint (md_ContentLength (lt_meta (sm_at s r)))"

lemma mark_oldest_all:
  "mark_oldest rs b (marked, s) = (marked', s') \<Longrightarrow> \<forall>r \<in> set rs. 0 \<le> task_size s r \<Longrightarrow>
   (\<Sum>r\<leftarrow>rs. task_size s r) < sint b \<Longrightarrow>
   set marked \<subseteq> set marked' \<and> (\<forall>r \<in> set rs. \<lparr>ptm_PeerID = md_PeerID (lt_meta (sm_at s r)),
     ptm_TaskID = md_TaskID (lt_meta (sm_at s r))\<rparr> \<in> set marked')"
proof (induction rs b "(marked, s)" arbitrary: marked s rule: mark_oldest.induct)
  case (2 r rs b marked s)
  let ?b = "b - md_ContentLength (lt_meta (sm_at s r))"
  let ?k = "\<lparr>ptm_PeerID = md_PeerID (lt_meta (sm_at s r)), ptm_TaskID = md_TaskID (lt_meta (sm_at s r))\<rparr>"
  have rest: "0 \<le> (\<Sum>r\<leftarrow>rs. task_size s r)" using 2(3) by (intro sum_list_nonneg) auto
  have b: "sint ?b = sint b - task_size s r"
    using 2(3,4) rest sint_bounds_64[of b] by (intro sint_sub_64) auto
  then have pos: "\<not> sint ?b \<le> 0" using 2(4) rest by simp
  then have run: "mark_oldest rs ?b (marked @ [?k], mark_store r s) = (marked', s')"
    using 2(2) by (simp add: Let_def)
  have "set (marked @ [?k]) \<subseteq> set marked' \<and> (\<forall>q \<in> set rs. \<lparr>ptm_PeerID = md_PeerID (lt_meta (sm_at s q)),
     ptm_TaskID = md_TaskID (lt_meta (sm_at s q))\<rparr> \<in> set marked')"
    using 2(1)[OF refl refl refl refl pos run] 2(3,4) b by simp
  then show ?case by simp
qed simp

lemma sum_list_filter_le: "\<forall>x \<in> set xs. (0 :: int) \<le> f x \<Longrightarrow> (\<Sum>x\<leftarrow>filter P xs. f x) \<le> (\<Sum>x\<leftarrow>xs. f x)"
  by (induction xs) auto

lemma candidates_sum:
  assumes "\<forall>r \<in> set (map snd (sm_tasks s)). 0 \<le> task_size s r"
  shows "(\<Sum>r\<leftarrow>gc_candidates now s. task_size s r) \<le> (\<Sum>r\<leftarrow>map snd (sm_tasks s). task_size s r)"
proof -
  have "(\<Sum>r\<leftarrow>sort_key g xs. f r) = (\<Sum>r\<leftarrow>xs. f r)" for g :: "nat \<Rightarrow> int" and f :: "nat \<Rightarrow> int" and xs
    by (metis mset_map mset_sort sum_mset_sum_list)
  then show ?thesis unfolding gc_candidates_def using sum_list_filter_le[OF assms] by simp
qed

text \<open>With the threshold 0, one collection marks every completed task.\<close>

lemma completed_marked:
  assumes b: "base_inv s" and cfg: "sm_DiskGCThresholdPercent s = Fin 0" and usage: "usage = Some (Fin u, total_bytes)" "0 \<le> u"
    and sizes: "\<forall>r \<in> set (map snd (sm_tasks s)). 0 \<le> task_size s r"
      "(\<Sum>r\<leftarrow>map snd (sm_tasks s). task_size s r) < sint (snd (diskUsageExceed oor usage s))"
    and task: "Load (sm_tasks s) k = Some r" "md_Done (lt_meta (sm_at s r))" "\<not> lt_reclaimMarked (sm_at s r)"
    and g: "gc_mark oor usage now s = (marked, s1)"
  shows "k \<in> set marked"
proof -
  obtain marked0 n s0 ue ub where m: "marking s marked0 s0"
    and d: "diskUsageExceed oor usage s0 = (ue, ub)" and parts: "gc_mark oor usage now s =
      (if (sint (sm_DiskGCThreshold s0) > 0 \<and> sint (n - sm_DiskGCThreshold s0) > 0) \<or> ue
       then mark_oldest (gc_candidates now s0)
         (if sint (n - sm_DiskGCThreshold s0) > sint ub then n - sm_DiskGCThreshold s0 else ub) (marked0, s0)
       else (marked0, s0))"
    by (rule gc_mark_parts[OF b])
  have meta: "lt_meta (sm_at s0 q) = lt_meta (sm_at s q)" for q using m by (simp add: marking_def)
  have tasks: "sm_tasks s0 = sm_tasks s" using m by (simp add: marking_def)
  have "sm_DiskGCThresholdPercent s0 = sm_DiskGCThresholdPercent s" using m by (simp add: marking_def)
  then have same: "diskUsageExceed oor usage s0 = diskUsageExceed oor usage s" by (simp only: diskUsageExceed_def)
  have ue: "ue" using d cfg usage same by (simp add: diskUsageExceed_def f64_gt_def split: if_splits)
  have ub: "ub = snd (diskUsageExceed oor usage s)" using d same by simp
  define bytes where "bytes = (if sint (n - sm_DiskGCThreshold s0) > sint ub then n - sm_DiskGCThreshold s0 else ub)"
  have run: "mark_oldest (gc_candidates now s0) bytes (marked0, s0) = (marked, s1)"
    using g parts ue by (simp add: bytes_def)
  have nonneg: "\<forall>q \<in> set (map snd (sm_tasks s0)). 0 \<le> task_size s0 q" using sizes(1) by (simp add: meta tasks)
  have le: "(\<Sum>q\<leftarrow>gc_candidates now s0. task_size s0 q) < sint bytes"
    using candidates_sum[OF nonneg, of now] sizes(2) ub by (auto simp: bytes_def meta tasks)
  have "\<forall>q \<in> set (gc_candidates now s0). 0 \<le> task_size s0 q" using nonneg by (auto simp: gc_candidates_def)
  note all = mark_oldest_all[OF run this le]
  have key: "\<lparr>ptm_PeerID = md_PeerID (lt_meta (sm_at s0 r)), ptm_TaskID = md_TaskID (lt_meta (sm_at s0 r))\<rparr> = k"
    using base_invD(3)[OF b task(1)] by (simp add: meta keyed_def)
  have mk: "lt_reclaimMarked (sm_at s0 r) \<longleftrightarrow> lt_reclaimMarked (sm_at s r) \<or> k \<in> set marked0"
    using m task(1) tasks unfolding marking_def by metis
  show ?thesis
  proof (cases "k \<in> set marked0")
    case False
    then have "\<not> lt_reclaimMarked (sm_at s0 r)" using mk task(3) by simp
    moreover have "r \<in> set (map snd (sm_tasks s0))" using Load_in_set[OF task(1)] by (force simp: tasks)
    ultimately have "r \<in> set (gc_candidates now s0)" using task(2) by (simp add: gc_candidates_def meta)
    then show ?thesis using all key by blast
  qed (use all in blast)
qed

text \<open>
  C27. Without a configured \<open>diskGCThresholdPercent\<close> its value is 0, and 0 percent is taken as the
  threshold: every collection exceeds it, by the used percentage times the size of the disk. If that
  is more than all tasks together, every completed task is deleted by the next two collections.
\<close>

theorem default_threshold_deletes_all:
  assumes inv: "sm_inv s" and cfg: "sm_DiskGCThresholdPercent s = Fin 0" and usage: "usage = Some (Fin u, total_bytes)" "0 \<le> u"
    and sizes: "\<forall>r \<in> set (map snd (sm_tasks s)). 0 \<le> task_size s r"
      "(\<Sum>r\<leftarrow>map snd (sm_tasks s). task_size s r) < sint (snd (diskUsageExceed oor usage s))"
    and task: "Load (sm_tasks s) k = Some r" "md_Done (lt_meta (sm_at s r))"
  shows "Load (sm_tasks (TryGC bad' oor' usage' later (TryGC bad oor usage now s))) k = None"
proof -
  let ?s = "TryGC bad oor usage now s"
  obtain marked s1 where g: "gc_mark oor usage now s = (marked, s1)" by fastforce
  obtain marked' s1' where g': "gc_mark oor' usage' later ?s = (marked', s1')" by fastforce
  note spec = TryGC_spec[OF inv g, where bad = bad and s' = ?s, OF refl]
  note spec' = TryGC_spec(2)[OF TryGC_inv[OF inv] g' refl, where k = k]
  have b: "base_inv s" using inv by (simp add: sm_inv_def)
  have "k \<in> set marked" if "\<not> lt_reclaimMarked (sm_at s r)"
    using completed_marked[OF b cfg usage sizes task that g] .
  moreover have "lt_reclaimMarked (sm_at s r) \<longleftrightarrow> k \<in> set (sm_marked s)" using inv task(1) by (simp add: sm_inv_def mark_inv_def)
  ultimately show ?thesis using spec(2,3)[of k] spec' by (auto split: if_splits)
qed

section \<open>Metadata and liveness\<close>


text \<open>
  The daemon's keep-alive is never refreshed: \<open>Keep\<close> has a value receiver, so however often and
  late it was called, \<open>Alive\<close> is false once the alive time has passed since the object was made, and
  a daemon with an alive time stops then even if it is in use.
\<close>

theorem keepalive_not_refreshed:
  "Alive now alive (fold Keep calls (NewKeepAlive start)) \<longleftrightarrow> now < start + alive"
proof -
  have "fold Keep calls k = k" for k by (induction calls arbitrary: k) (simp_all add: Keep_def)
  then show ?thesis by (auto simp: Alive_def NewKeepAlive_def)
qed

section \<open>A small manager\<close>

definition tiny_manager :: "bool \<Rightarrow> storageManager" where
  "tiny_manager filled =
     \<lparr>sm_keep = NewKeepAlive 0, sm_storeStrategy = simpleStrategy, sm_dataPath = ''/d'', sm_expireTime = 100,
      sm_DiskGCThreshold = 0, sm_DiskGCThresholdPercent = Fin 0, sm_gcInterval = 60,
      sm_tasks = (if filled then [(\<lparr>ptm_PeerID = ''p'', ptm_TaskID = ''t''\<rparr>, 0)] else []),
      sm_index = (if filled then [(''t'', [0])] else []), sm_marked = [],
      sm_at = (\<lambda>_. upd_meta (\<lambda>m. m\<lparr>md_Done := True\<rparr>) tiny_store), sm_next = 1, sm_fs = tiny_fs, sm_left = []\<rparr>"

lemma tiny_manager_inv: "sm_inv (tiny_manager True)"
  by (auto simp: sm_inv_def base_inv_def mark_inv_def index_of_def keyed_def tiny_manager_def tiny_store_def split: if_splits)


theorem reused_task_survives_witness:
  "\<exists>ru s1 r. FindCompletedTask 5 ''t'' (tiny_manager True) = (Some ru, s1) \<and>
     Load (sm_tasks (TryGC (\<lambda>_ _. False) (\<lambda>_. 0) None 500 s1)) (ru_Task ru) = Some r"
proof -
  obtain ru s1 where f: "FindCompletedTask 5 ''t'' (tiny_manager True) = (Some ru, s1)"
    by (simp add: FindCompletedTask_def tiny_manager_def tiny_store_def touch_def upd_store_def Let_def)
  show ?thesis using reused_task_survives[OF tiny_manager_inv f] f by blast
qed

lemma f64_round_int: "\<bar>i\<bar> < 2 ^ 53 \<Longrightarrow> f64_round (of_int i) = Fin (of_int i)"
  using f64_of_int_exact[of i] by (simp add: f64_of_int_def)

theorem default_threshold_deletes_all_witness:
  "Load (sm_tasks (TryGC (\<lambda>_ _. False) (\<lambda>_. 0) None 20 (TryGC (\<lambda>_ _. False) (\<lambda>_. 0) (Some (Fin 50, 100)) 10 (tiny_manager True))))
     \<lparr>ptm_PeerID = ''p'', ptm_TaskID = ''t''\<rparr> = None"
proof -
  have "snd (diskUsageExceed (\<lambda>_. 0) (Some (Fin 50, 100)) (tiny_manager True)) = 5000"
    using f64_round_int[of 50] f64_round_int[of 100] f64_round_int[of 5000]
    by (simp add: diskUsageExceed_def tiny_manager_def f64_gt_def f64_of_int_def f64_to_int64_def)
  then show ?thesis
    by (intro default_threshold_deletes_all[OF tiny_manager_inv _ refl, where r = 0])
      (simp_all add: tiny_manager_def tiny_store_def)
qed


end
