(* ===== verification/File_Utils.thy ===== *)
theory File_Utils
  imports Files
begin

text \<open>
  \<open>pkg/util/fileutils/file_utils.go\<close>: the helpers the CDN storage calls on top of \<open>os\<close>. The errors
  that \<open>os.IsNotExist\<close> recognises are the plain ones: it does not look inside a wrapped error.
\<close>

section \<open>More of os\<close>

definition os_Readlink :: "os_fail \<Rightarrow> path \<Rightarrow> fs \<Rightarrow> os_error + path" where
  "os_Readlink bad p s =
     (if bad OpReadlink p then Inl (OtherError OpReadlink)
      else case Load (entries s) p of
             Some (SymlinkTo q) \<Rightarrow> Inr q | None \<Rightarrow> Inl NotExist | _ \<Rightarrow> Inl (OtherError OpReadlink))"

definition os_Rename :: "os_fail \<Rightarrow> path \<Rightarrow> path \<Rightarrow> fs \<Rightarrow> os_error option \<times> fs" where
  "os_Rename bad old new s =
     (if bad OpLink new then (Some (OtherError OpLink), s)
      else case (Load (entries s) old, Load (entries s) new) of
             (None, _) \<Rightarrow> (Some NotExist, s)
           | (Some e, Some Directory) \<Rightarrow> (Some (OtherError OpLink), s)
           | (Some e, _) \<Rightarrow> (None, s\<lparr>entries := Store new e (Delete old (entries s))\<rparr>))"

text \<open>\<open>os.RemoveAll\<close>: the entry and what is below it; no error when there is none.\<close>

definition os_RemoveAll :: "os_fail \<Rightarrow> path \<Rightarrow> fs \<Rightarrow> os_error option \<times> fs" where
  "os_RemoveAll bad p s =
     (if bad OpUnlink p then (Some (OtherError OpUnlink), s)
      else (None, s\<lparr>entries := filter (\<lambda>e. fst e \<noteq> p \<and> \<not> below p (fst e)) (entries s)\<rparr>))"

text \<open>What \<open>os.Stat\<close> finds behind a symbolic link.\<close>

definition os_FileInfo :: "os_fail \<Rightarrow> path \<Rightarrow> fs \<Rightarrow> os_error + entry" where
  "os_FileInfo bad p s =
     (if bad OpStat p then Inl (OtherError OpStat)
      else case Load (entries s) (link_target p s) of None \<Rightarrow> Inl NotExist | Some e \<Rightarrow> Inr e)"

section \<open>fileutils\<close>

datatype file_error =
  Os os_error | Wrapped | NotRegular | IsDirectory
| NegativeOffset | NegativeLength | NegativeTrunc | BeyondFile | UnexpectedEOF

definition of_os :: "os_error option \<Rightarrow> file_error option" where
  "of_os = map_option Os"

definition PathExist :: "os_fail \<Rightarrow> path \<Rightarrow> fs \<Rightarrow> bool" where
  "PathExist bad p s = (case os_Lstat bad p s of Inl _ \<Rightarrow> False | Inr _ \<Rightarrow> True)"

definition IsDir :: "os_fail \<Rightarrow> path \<Rightarrow> fs \<Rightarrow> bool" where
  "IsDir bad p s = (case os_FileInfo bad p s of Inl _ \<Rightarrow> False | Inr e \<Rightarrow> e = Directory)"

definition IsRegular :: "os_fail \<Rightarrow> path \<Rightarrow> fs \<Rightarrow> bool" where
  "IsRegular bad p s = (case os_FileInfo bad p s of Inr (FileAt _) \<Rightarrow> True | _ \<Rightarrow> False)"

definition IsSymbolicLink :: "os_fail \<Rightarrow> path \<Rightarrow> fs \<Rightarrow> bool" where
  "IsSymbolicLink bad p s = (case os_Lstat bad p s of Inr (SymlinkTo _) \<Rightarrow> True | _ \<Rightarrow> False)"

definition DeleteFile :: "os_fail \<Rightarrow> path \<Rightarrow> fs \<Rightarrow> file_error option \<times> fs" where
  "DeleteFile bad p s =
     (if PathExist bad p s
      then if IsDir bad p s then (Some NotRegular, s)
           else (case os_Remove bad p s of (e, s') \<Rightarrow> (of_os e, s'))
      else (None, s))"

text \<open>\<open>OpenFile\<close> with \<open>O_CREATE\<close>, and with \<open>O_TRUNC\<close> if \<open>trunc\<close>.\<close>

definition OpenFile :: "os_fail \<Rightarrow> bool \<Rightarrow> path \<Rightarrow> fs \<Rightarrow> (file_error + nat) \<times> fs" where
  "OpenFile bad trunc p s =
     (let (e, s1) = (if \<not> PathExist bad p s then os_MkdirAll bad (path_Dir p) s else (None, s))
      in case e of
           Some _ \<Rightarrow> (Inl Wrapped, s1)
         | None \<Rightarrow>
             (case os_Create bad trunc p s1 of
                (Inl e, s2) \<Rightarrow> (Inl (Os e), s2)
              | (Inr i, s2) \<Rightarrow> (Inr i, s2)))"

definition Link_file :: "os_fail \<Rightarrow> path \<Rightarrow> path \<Rightarrow> fs \<Rightarrow> file_error option \<times> fs" where
  "Link_file bad oldname newname s =
     (if PathExist bad newname s \<and> IsDir bad newname s then (Some IsDirectory, s)
      else
        let (e, s1) = (if PathExist bad newname s then DeleteFile bad newname s
                       else case os_MkdirAll bad (path_Dir newname) s of (e, s') \<Rightarrow> (of_os e, s'))
        in if e \<noteq> None then (Some Wrapped, s1)
           else (case os_Link bad oldname newname s1 of (e, s2) \<Rightarrow> (of_os e, s2)))"

definition replace_link :: "os_fail \<Rightarrow> path \<Rightarrow> path \<Rightarrow> fs \<Rightarrow> file_error option \<times> fs" where
  "replace_link bad oldname newname s =
     (let (e, s1) = (if PathExist bad newname s then os_Remove bad newname s else (None, s))
      in if e \<noteq> None then (Some Wrapped, s1)
         else (case os_MkdirAll bad (path_Dir newname) s1 of
                 (Some _, s2) \<Rightarrow> (Some Wrapped, s2)
               | (None, s2) \<Rightarrow> (case os_Symlink bad oldname newname s2 of (e, s3) \<Rightarrow> (of_os e, s3))))"

definition SymbolicLink :: "os_fail \<Rightarrow> path \<Rightarrow> path \<Rightarrow> fs \<Rightarrow> file_error option \<times> fs" where
  "SymbolicLink bad oldname newname s =
     (if PathExist bad newname s \<and> IsSymbolicLink bad newname s \<and> PathExist bad oldname s
      then case os_Readlink bad newname s of
             Inl e \<Rightarrow> (Some (Os e), s)
           | Inr dstPath \<Rightarrow> if dstPath = oldname then (None, s) else replace_link bad oldname newname s
      else replace_link bad oldname newname s)"

text \<open>The second component is the error of \<open>Readdirnames\<close>, which is also returned when there are names.\<close>

definition IsEmptyDir :: "os_fail \<Rightarrow> path \<Rightarrow> fs \<Rightarrow> bool \<times> file_error option" where
  "IsEmptyDir bad p s =
     (if bad OpOpen p then (False, Some (Os (OtherError OpOpen)))
      else if bad OpReadDir p then (False, Some (Os (OtherError OpReadDir)))
      else if list_ex (below p) (map fst (entries s)) then (False, None)
      else (True, None))"

definition MoveFile :: "os_fail \<Rightarrow> path \<Rightarrow> path \<Rightarrow> fs \<Rightarrow> file_error option \<times> fs" where
  "MoveFile bad src dst s =
     (if \<not> IsRegular bad src s then (Some NotRegular, s)
      else
        let (e, s1) = (if PathExist bad dst s \<and> \<not> IsDir bad dst s then DeleteFile bad dst s else (None, s))
        in if e \<noteq> None then (Some Wrapped, s1)
           else (case os_Rename bad src dst s1 of (e, s2) \<Rightarrow> (of_os e, s2)))"

section \<open>File systems without hard links\<close>

text \<open>Every file has an inode of its own, below the next free one.\<close>

definition fs_ok :: "fs \<Rightarrow> bool" where
  "fs_ok s \<longleftrightarrow>
     (\<forall>p i. Load (entries s) p = Some (FileAt i) \<longrightarrow> i < next_inode s) \<and>
     (\<forall>p q i. Load (entries s) p = Some (FileAt i) \<longrightarrow> Load (entries s) q = Some (FileAt i) \<longrightarrow> p = q)"

text \<open>A path that is a file or free, not a link or a directory.\<close>

definition plain_path :: "path \<Rightarrow> fs \<Rightarrow> bool" where
  "plain_path p s \<longleftrightarrow> (case Load (entries s) p of None \<Rightarrow> True | Some (FileAt _) \<Rightarrow> True | _ \<Rightarrow> False)"

definition contents :: "path \<Rightarrow> fs \<Rightarrow> uint8 list option" where
  "contents p s = (case Load (entries s) p of Some (FileAt i) \<Rightarrow> Some (blocks s i) | _ \<Rightarrow> None)"

lemma contents_plain: "plain_path p s \<Longrightarrow> contents p s = file_bytes p s \<and> link_target p s = p"
  by (auto simp: plain_path_def contents_def file_bytes_def inode_of_def link_target_def
      split: option.splits entry.splits)

text \<open>Making directories changes no entry that exists and no file.\<close>

definition mkdirs :: "path list \<Rightarrow> fs \<Rightarrow> fs" where
  "mkdirs ds s = fold (\<lambda>d s. if Load (entries s) d = None
                              then s\<lparr>entries := Store d Directory (entries s)\<rparr> else s) ds s"

lemma mkdirs_simps: "blocks (mkdirs ds s) = blocks s \<and> next_inode (mkdirs ds s) = next_inode s"
  unfolding mkdirs_def by (induction ds arbitrary: s) auto

lemma mkdirs_Load:
  "Load (entries (mkdirs ds s)) p =
     (case Load (entries s) p of Some e \<Rightarrow> Some e | None \<Rightarrow> if p \<in> set ds then Some Directory else None)"
  unfolding mkdirs_def
proof (induction ds arbitrary: s)
  case (Cons d ds)
  show ?case using Cons.IH by (auto simp: Load_Store split: option.split)
qed (auto split: option.split)

lemma os_MkdirAll_eq: "os_MkdirAll bad p s = (if bad OpMkdir p then (Some (OtherError OpMkdir), s) else (None, mkdirs (path_dirs p) s))"
  by (simp add: os_MkdirAll_def mkdirs_def)

lemma path_dirs_short: "q \<in> set (path_dirs p) \<Longrightarrow> length q \<le> length p"
  by (auto simp: path_dirs_def)

lemma contents_mkdirs [simp]: "contents p (mkdirs ds s) = contents p s"
  by (auto simp: contents_def mkdirs_Load mkdirs_simps split: option.splits entry.splits)

lemma plain_path_mkdirs: "plain_path p s \<Longrightarrow> p \<notin> set ds \<Longrightarrow> plain_path p (mkdirs ds s)"
  by (auto simp: plain_path_def mkdirs_Load split: option.splits)

lemma fs_ok_mkdirs: "fs_ok s \<Longrightarrow> fs_ok (mkdirs ds s)"
  by (auto simp: fs_ok_def mkdirs_Load mkdirs_simps split: option.splits if_splits)

end
