(* ===== verification/Cdn_Records.thy ===== *)
theory Cdn_Records
  imports Ranges Ids
begin

text \<open>
  The records of the pieces a CDN node has stored: \<open>PieceMetaRecord\<close> of
  \<open>cdn/supervisor/cdn/storage/storage.go\<close>, its line of text and the parser of that line, and the
  file of such lines as \<open>cdn/supervisor/cdn/storage/disk/disk.go\<close> writes and reads it. The text of an
  error is a constructor; the panic the parser recovers from is one of them.
\<close>

section \<open>PieceMetaRecord\<close>

record PieceMetaRecord =
  pr_PieceNum :: uint32
  pr_PieceLen :: uint32
  pr_Md5 :: string
  pr_Range :: "Range option"
  pr_OriginRange :: "Range option"
  pr_PieceStyle :: int32

definition fieldSeparator :: char where
  "fieldSeparator = CHR '':''"

text \<open>\<open>fmt.Sprint\<close> of a pointer to a range: the method \<open>String\<close>, or \<open><nil>\<close>.\<close>

definition Sprint_range :: "Range option \<Rightarrow> string" where
  "Sprint_range r = (case r of None \<Rightarrow> ''<nil>'' | Some x \<Rightarrow> Range_String x)"

definition Record_String :: "PieceMetaRecord \<Rightarrow> string" where
  "Record_String r =
     show_nat (unat (pr_PieceNum r)) @ [fieldSeparator] @ show_nat (unat (pr_PieceLen r)) @ [fieldSeparator] @
     pr_Md5 r @ [fieldSeparator] @ Sprint_range (pr_Range r) @ [fieldSeparator] @
     Sprint_range (pr_OriginRange r) @ [fieldSeparator] @ show_int (sint (pr_PieceStyle r))"

datatype record_error =
  InvalidPieceNum | InvalidPieceLen | InvalidPieceRange | InvalidOriginRange | InvalidPieceStyle | FieldMissing

text \<open>
  \<open>ParseUint(s, 10, 32)\<close> and \<open>ParseInt(s, 10, 8)\<close>: a number that does not fit is an error, of a kind
  the caller does not look at.
\<close>

definition ParseUint_32 :: "string \<Rightarrow> num_error + uint32" where
  "ParseUint_32 s =
     (case ParseUint10 s of
        Inl e \<Rightarrow> Inl e
      | Inr n \<Rightarrow> if 2 ^ 32 \<le> unat n then Inl ErrRange else Inr (ucast n))"

definition ParseInt_8 :: "string \<Rightarrow> num_error + int32" where
  "ParseInt_8 s =
     (case ParseInt False s of
        Inl e \<Rightarrow> Inl e
      | Inr n \<Rightarrow> if sint n < -128 \<or> 127 < sint n then Inl ErrRange else Inr (of_int (sint n)))"

text \<open>An index out of range panics, and \<open>ParsePieceMetaRecord\<close> recovers with an error.\<close>

definition field :: "nat \<Rightarrow> string list \<Rightarrow> record_error + string" where
  "field n parts = (if n < length parts then Inr (parts ! n) else Inl FieldMissing)"

definition ebind :: "'e + 'a \<Rightarrow> ('a \<Rightarrow> 'e + 'b) \<Rightarrow> 'e + 'b" where
  "ebind x f = (case x of Inl e \<Rightarrow> Inl e | Inr a \<Rightarrow> f a)"

definition wrap_error :: "'e \<Rightarrow> 'd + 'a \<Rightarrow> 'e + 'a" where
  "wrap_error e x = (case x of Inl _ \<Rightarrow> Inl e | Inr a \<Rightarrow> Inr a)"

definition ParsePieceMetaRecord :: "string \<Rightarrow> record_error + PieceMetaRecord" where
  "ParsePieceMetaRecord value =
     (let parts = Split value fieldSeparator in
      ebind (field 0 parts) (\<lambda>f0.
      ebind (wrap_error InvalidPieceNum (ParseUint_32 f0)) (\<lambda>pieceNum.
      ebind (field 1 parts) (\<lambda>f1.
      ebind (wrap_error InvalidPieceLen (ParseUint_32 f1)) (\<lambda>pieceLen.
      ebind (field 2 parts) (\<lambda>md5.
      ebind (field 3 parts) (\<lambda>f3.
      ebind (wrap_error InvalidPieceRange (GetRange f3)) (\<lambda>pieceRange.
      ebind (field 4 parts) (\<lambda>f4.
      ebind (wrap_error InvalidOriginRange (GetRange f4)) (\<lambda>originRange.
      ebind (field 5 parts) (\<lambda>f5.
      ebind (wrap_error InvalidPieceStyle (ParseInt_8 f5)) (\<lambda>pieceStyle.
      Inr \<lparr>pr_PieceNum = pieceNum, pr_PieceLen = pieceLen, pr_Md5 = md5, pr_Range = Some pieceRange,
            pr_OriginRange = Some originRange, pr_PieceStyle = pieceStyle\<rparr>))))))))))))"

section \<open>The file of records\<close>

abbreviation newline :: char where
  "newline \<equiv> CHR 0x0A"

text \<open>\<open>strings.TrimSpace\<close> and \<open>strings.Join\<close>, on ASCII text.\<close>

definition TrimSpace :: "string \<Rightarrow> string" where
  "TrimSpace s = trim_by IsSpace s"

fun Join_lines :: "string list \<Rightarrow> string" where
  "Join_lines [] = []"
| "Join_lines [s] = s"
| "Join_lines (s # t # ss) = s @ newline # Join_lines (t # ss)"

definition appended_text :: "PieceMetaRecord \<Rightarrow> string" where
  "appended_text r = Record_String r @ [newline]"

definition rewritten_text :: "PieceMetaRecord list \<Rightarrow> string" where
  "rewritten_text records = Join_lines (map Record_String records)"

fun parse_records :: "string list \<Rightarrow> record_error + PieceMetaRecord list" where
  "parse_records [] = Inr []"
| "parse_records (pieceStr # rest) =
     ebind (ParsePieceMetaRecord pieceStr) (\<lambda>r. ebind (parse_records rest) (\<lambda>rs. Inr (r # rs)))"

definition records_of_text :: "string \<Rightarrow> record_error + PieceMetaRecord list" where
  "records_of_text text = parse_records (Split (TrimSpace text) newline)"

section \<open>Lemmas\<close>

lemma ebind_simps [simp]: "ebind (Inr a) f = f a" "ebind (Inl e) f = Inl e"
  by (simp_all add: ebind_def)

lemma wrap_error_simps [simp]: "wrap_error e (Inr a) = Inr a" "wrap_error e (Inl d) = Inl e"
  by (simp_all add: wrap_error_def)

text \<open>Printable text without a separator, and what is printed of numbers and ranges.\<close>

definition plain_field :: "string \<Rightarrow> bool" where
  "plain_field s \<longleftrightarrow> (\<forall>c \<in> set s. c \<noteq> fieldSeparator \<and> \<not> IsSpace c)"

lemma plain_append [simp]: "plain_field (s @ t) \<longleftrightarrow> plain_field s \<and> plain_field t"
  by (auto simp: plain_field_def)

lemma plain_digit: "is_digit c \<Longrightarrow> c \<noteq> fieldSeparator \<and> \<not> IsSpace c"
  by (auto simp: is_digit_def fieldSeparator_def IsSpace_def)

lemma plain_show_nat [simp]: "plain_field (show_nat n)"
  using plain_digit show_nat_digits by (auto simp: plain_field_def)

lemma plain_Cons [simp]: "plain_field (c # s) \<longleftrightarrow> c \<noteq> fieldSeparator \<and> \<not> IsSpace c \<and> plain_field s"
  by (auto simp: plain_field_def)

lemma plain_Nil [simp]: "plain_field []"
  by (simp add: plain_field_def)

lemma plain_chars [simp]: "CHR ''-'' \<noteq> fieldSeparator" "\<not> IsSpace CHR ''-''"
  by (simp_all add: fieldSeparator_def IsSpace_def)

lemma plain_show_int [simp]: "plain_field (show_int i)"
  by (simp add: show_int_def)

lemma plain_Range_String [simp]: "plain_field (Range_String r)"
  by (simp add: Range_String_def)

lemma plain_Sprint_range [simp]: "plain_field (Sprint_range r)"
proof (cases r)
  case None
  then show ?thesis by (simp add: Sprint_range_def fieldSeparator_def IsSpace_def)
qed (simp add: Sprint_range_def)

lemma hex_digit_plain: "n < 16 \<Longrightarrow> hex_digit n \<noteq> fieldSeparator \<and> \<not> IsSpace (hex_digit n)"
proof -
  assume "n < 16"
  then have "(of_char (hex_digit n) :: nat) = (if n < 10 then 48 + n else 87 + n)" by (simp add: hex_digit_def)
  moreover have "(of_char fieldSeparator :: nat) = 58" by (simp add: fieldSeparator_def)
  ultimately show ?thesis using \<open>n < 16\<close> by (auto simp: IsSpace_def split: if_splits)
qed

lemma plain_ToHashString [simp]: "plain_field (ToHashString h)"
proof -
  have "unat b div 16 < 16" "unat b mod 16 < 16" for b :: uint8
    using unsigned_less[of b, where ?'a = nat] by auto
  then show ?thesis by (auto simp: plain_field_def ToHashString_def EncodeToString_def hex_digit_plain)
qed

lemma plain_no_separator: "plain_field s \<Longrightarrow> fieldSeparator \<notin> set s"
  by (auto simp: plain_field_def)

lemma plain_no_newline: "plain_field s \<Longrightarrow> newline \<notin> set s"
  by (auto simp: plain_field_def IsSpace_def)

text \<open>A record as the writer makes it: both ranges, a hexadecimal digest, a style of one byte.\<close>

definition record_ok :: "PieceMetaRecord \<Rightarrow> bool" where
  "record_ok r \<longleftrightarrow>
     plain_field (pr_Md5 r) \<and> -128 \<le> sint (pr_PieceStyle r) \<and> sint (pr_PieceStyle r) \<le> 127 \<and>
     (\<exists>a b. pr_Range r = Some a \<and> pr_OriginRange r = Some b \<and>
            StartIndex a \<le> EndIndex a \<and> StartIndex b \<le> EndIndex b)"

lemma ParseUint_32_show: "ParseUint_32 (show_nat (unat (w :: uint32))) = Inr w"
proof -
  have w: "unat w < 2 ^ 32" using unsigned_less[of w, where ?'a = nat] by simp
  have n: "unat (of_nat (unat w) :: uint64) = unat w" unfolding unsigned_of_nat using w by (simp add: take_bit_nat_eq_self)
  have "ucast (of_nat (unat w) :: uint64) = (of_nat (unat (of_nat (unat w) :: uint64)) :: uint32)" by simp
  also have "\<dots> = w" unfolding n by simp
  finally show ?thesis using w n ParseUint10_show[of "unat w"] by (simp add: ParseUint_32_def)
qed

lemma show_nat_first: "\<exists>c s. show_nat n = c # s \<and> is_digit c"
  using show_nat_not_Nil[of n] show_nat_digits[of _ n] by (cases "show_nat n") auto

lemma ParseInt_show_int:
  assumes "- (2 ^ 63) \<le> i" "i < 2 ^ 63"
  shows "ParseInt False (show_int i) = Inr (of_int i)"
proof (cases "i < 0")
  case True
  then have "nat (- i) < 2 ^ 64" "\<not> 2 ^ 63 < nat (- i)" using assms by auto
  then show ?thesis using True
    by (simp add: show_int_def ParseInt_def ParseUint_nat_def parse_show_nat)
next
  case False
  then obtain c s where c: "show_nat (nat i) = c # s" "is_digit c" using show_nat_first by blast
  have "nat i < 2 ^ 64" "\<not> 2 ^ 63 \<le> nat i" using False assms by auto
  then show ?thesis using False c parse_show_nat[of "nat i" False] is_digit_neq[OF c(2)]
    by (simp add: show_int_def ParseInt_def ParseUint_nat_def)
qed

lemma ParseInt_8_show:
  assumes "-128 \<le> sint (w :: int32)" "sint w \<le> 127"
  shows "ParseInt_8 (show_int (sint w)) = Inr w"
proof -
  have n: "sint (of_int (sint w) :: int64) = sint w"
    unfolding signed_of_int using assms by (simp add: signed_take_bit_int_eq_self)
  have e: "ParseInt False (show_int (sint w)) = Inr (of_int (sint w))" using assms by (intro ParseInt_show_int) auto
  show ?thesis unfolding ParseInt_8_def e sum.case n using assms by simp
qed

lemma Split_Record_String:
  assumes "plain_field (pr_Md5 r)"
  shows "Split (Record_String r @ t) fieldSeparator =
    [show_nat (unat (pr_PieceNum r)), show_nat (unat (pr_PieceLen r)), pr_Md5 r, Sprint_range (pr_Range r),
     Sprint_range (pr_OriginRange r)] @ Split (show_int (sint (pr_PieceStyle r)) @ t) fieldSeparator"
  using assms by (simp add: Record_String_def Split_append plain_no_separator)

lemma GetRange_String: "StartIndex a \<le> EndIndex a \<Longrightarrow> GetRange (Range_String a) = Inr a"
  by (simp add: GetRange_def Range_String_split ParseUint10_unat not_less)

lemma parse_Record_String_append:
  assumes "record_ok r" "Split (show_int (sint (pr_PieceStyle r)) @ t) fieldSeparator = w # ws"
  shows "ParsePieceMetaRecord (Record_String r @ t) =
    (case ParseInt_8 w of Inl _ \<Rightarrow> Inl InvalidPieceStyle | Inr style \<Rightarrow> Inr (r\<lparr>pr_PieceStyle := style\<rparr>))"
proof -
  obtain a b where ab: "pr_Range r = Some a" "pr_OriginRange r = Some b"
    "StartIndex a \<le> EndIndex a" "StartIndex b \<le> EndIndex b" and m: "plain_field (pr_Md5 r)"
    using assms(1) by (auto simp: record_ok_def)
  show ?thesis
    by (cases r) (use ab m assms(2) Split_Record_String[OF m, of t] in
      \<open>auto simp: ParsePieceMetaRecord_def field_def ParseUint_32_show Sprint_range_def GetRange_String split: sum.split\<close>)
qed

lemma parse_Record_String: "record_ok r \<Longrightarrow> ParsePieceMetaRecord (Record_String r) = Inr r"
  using parse_Record_String_append[of r "[]"] plain_no_separator[OF plain_show_int]
  by (simp add: ParseInt_8_show record_ok_def)

section \<open>Lines\<close>

text \<open>A line that neither begins nor ends with a space and has no newline.\<close>

definition line_ok :: "string \<Rightarrow> bool" where
  "line_ok l \<longleftrightarrow> l \<noteq> [] \<and> \<not> IsSpace (hd l) \<and> \<not> IsSpace (last l) \<and> newline \<notin> set l"

lemma Split_Join_lines: "ls \<noteq> [] \<Longrightarrow> \<forall>l \<in> set ls. newline \<notin> set l \<Longrightarrow> Split (Join_lines ls) newline = ls"
  by (induction ls rule: Join_lines.induct) (auto simp: Split_append)

lemma Join_lines_ends:
  "ls \<noteq> [] \<Longrightarrow> \<forall>l \<in> set ls. l \<noteq> [] \<Longrightarrow>
   Join_lines ls \<noteq> [] \<and> hd (Join_lines ls) = hd (hd ls) \<and> last (Join_lines ls) = last (last ls)"
  by (induction ls rule: Join_lines.induct) auto

lemma concat_lines: "ls \<noteq> [] \<Longrightarrow> concat (map (\<lambda>l. l @ [newline]) ls) = Join_lines ls @ [newline]"
  by (induction ls rule: Join_lines.induct) auto

lemma Join_lines_glue:
  "Join_lines (ls @ [l]) @ Join_lines (m # ms) = Join_lines (ls @ (l @ m) # ms)"
proof (induction ls)
  case Nil
  show ?case by (cases ms) auto
next
  case (Cons k ls)
  then show ?case by (cases ls) auto
qed

lemma TrimSpace_ends:
  assumes "s \<noteq> []" "\<not> IsSpace (hd s)" "\<not> IsSpace (last s)"
  shows "TrimSpace s = s" "TrimSpace (s @ [newline]) = s"
proof -
  have h: "dropWhile IsSpace (s @ t) = s @ t" for t using assms by (cases s) auto
  have r: "dropWhile IsSpace (rev s) = rev s" using assms by (cases s rule: rev_cases) auto
  have n: "IsSpace newline" by (simp add: IsSpace_def)
  show "TrimSpace s = s" using h[of "[]"] r by (simp add: TrimSpace_def trim_by_def)
  show "TrimSpace (s @ [newline]) = s" using h[of "[newline]"] r n by (simp add: TrimSpace_def trim_by_def)
qed

lemma lines_of_text:
  assumes "ls \<noteq> []" "\<forall>l \<in> set ls. line_ok l"
  shows "Split (TrimSpace (Join_lines ls)) newline = ls"
    "Split (TrimSpace (Join_lines ls @ [newline])) newline = ls"
proof -
  have "Join_lines ls \<noteq> []" "\<not> IsSpace (hd (Join_lines ls))" "\<not> IsSpace (last (Join_lines ls))"
    using Join_lines_ends[of ls] assms by (auto simp: line_ok_def)
  then show "Split (TrimSpace (Join_lines ls)) newline = ls"
    "Split (TrimSpace (Join_lines ls @ [newline])) newline = ls"
    using assms by (auto simp: TrimSpace_ends Split_Join_lines line_ok_def)
qed

lemma line_ok_append: "line_ok a \<Longrightarrow> line_ok b \<Longrightarrow> line_ok (a @ b)"
  by (auto simp: line_ok_def)

lemma line_ok_record:
  assumes "record_ok r" shows "line_ok (Record_String r)"
proof -
  have ends: "plain_field x \<Longrightarrow> plain_field y \<Longrightarrow> x \<noteq> [] \<Longrightarrow> y \<noteq> [] \<Longrightarrow> newline \<notin> set m \<Longrightarrow> line_ok (x @ m @ y)"
    for x m y
    using plain_no_newline[of x] plain_no_newline[of y] hd_in_set[of x] last_in_set[of y]
    by (auto simp: line_ok_def plain_field_def)
  have i: "show_int i \<noteq> []" for i by (simp add: show_int_def)
  have m: "plain_field (pr_Md5 r)" using assms by (simp add: record_ok_def)
  have "newline \<noteq> fieldSeparator" by (simp add: fieldSeparator_def)
  then show ?thesis
    using ends[of "show_nat (unat (pr_PieceNum r))" "show_int (sint (pr_PieceStyle r))"
        "[fieldSeparator] @ show_nat (unat (pr_PieceLen r)) @ [fieldSeparator] @ pr_Md5 r @ [fieldSeparator] @
         Sprint_range (pr_Range r) @ [fieldSeparator] @ Sprint_range (pr_OriginRange r) @ [fieldSeparator]"]
      plain_no_newline[OF m] plain_no_newline[OF plain_Sprint_range] plain_no_newline[OF plain_show_nat] i
    by (simp add: Record_String_def)
qed

lemma parse_records_map:
  "\<forall>r \<in> set rs. record_ok r \<Longrightarrow> parse_records (map Record_String rs) = Inr rs"
  by (induction rs) (auto simp: parse_Record_String)

lemma parse_records_append:
  "parse_records (xs @ ys) =
     ebind (parse_records xs) (\<lambda>rs. ebind (parse_records ys) (\<lambda>rs'. Inr (rs @ rs')))"
proof (induction xs)
  case Nil
  show ?case by (cases "parse_records ys") auto
next
  case (Cons x xs)
  then show ?case
    by (cases "ParsePieceMetaRecord x"; cases "parse_records xs"; cases "parse_records ys") auto
qed

lemma records_of_appended:
  assumes "rs \<noteq> []" "\<forall>r \<in> set rs. record_ok r"
  shows "records_of_text (concat (map appended_text rs)) = Inr rs"
proof -
  have "concat (map appended_text rs) = concat (map (\<lambda>l. l @ [newline]) (map Record_String rs))"
    by (simp add: appended_text_def[abs_def] comp_def)
  then show ?thesis
    using assms lines_of_text(2)[of "map Record_String rs"] concat_lines[of "map Record_String rs"]
    by (simp add: records_of_text_def line_ok_record parse_records_map)
qed

lemma records_of_rewritten:
  assumes "rs \<noteq> []" "\<forall>r \<in> set rs. record_ok r"
  shows "records_of_text (rewritten_text rs) = Inr rs"
  using assms lines_of_text(1)[of "map Record_String rs"]
  by (simp add: records_of_text_def rewritten_text_def line_ok_record parse_records_map)

lemma records_of_glued:
  assumes "\<forall>x \<in> set (rs @ r # r' # rs'). record_ok x"
  shows "records_of_text (rewritten_text (rs @ [r]) @ concat (map appended_text (r' # rs'))) =
    ebind (ParsePieceMetaRecord (Record_String r @ Record_String r')) (\<lambda>x. Inr (rs @ x # rs'))"
proof -
  define ls where "ls = map Record_String rs @ (Record_String r @ Record_String r') # map Record_String rs'"
  have "concat (map appended_text (r' # rs')) =
      concat (map (\<lambda>l. l @ [newline]) (Record_String r' # map Record_String rs'))"
    by (simp add: appended_text_def[abs_def] comp_def)
  then have "rewritten_text (rs @ [r]) @ concat (map appended_text (r' # rs')) = Join_lines ls @ [newline]"
    using concat_lines[of "Record_String r' # map Record_String rs'"]
      Join_lines_glue[of "map Record_String rs" "Record_String r" "Record_String r'" "map Record_String rs'"]
    by (simp add: rewritten_text_def ls_def)
  moreover have "\<forall>l \<in> set ls. line_ok l"
    using assms by (auto simp: ls_def intro: line_ok_record line_ok_append)
  moreover have "ls \<noteq> []" by (simp add: ls_def)
  ultimately have "records_of_text (rewritten_text (rs @ [r]) @ concat (map appended_text (r' # rs'))) = parse_records ls"
    by (simp add: records_of_text_def lines_of_text(2))
  also have "\<dots> = ebind (ParsePieceMetaRecord (Record_String r @ Record_String r')) (\<lambda>x. Inr (rs @ x # rs'))"
    using assms
    by (cases "ParsePieceMetaRecord (Record_String r @ Record_String r')")
      (simp_all add: ls_def parse_records_append parse_records_map)
  finally show ?thesis .
qed

lemma ParseInt_8_leading_zero:
  "ParseInt_8 (CHR ''0'' # show_nat (unat (n :: uint32))) =
     (if unat n \<le> 127 then Inr n else Inl ErrRange)"
proof -
  have b: "unat n < 2 ^ 32" using unsigned_less[of n, where ?'a = nat] by simp
  have "parse_digits 10 False (CHR ''0'' # show_nat (unat n)) 0 = Inr (unat n)"
    using parse_show_nat[of "unat n" False] b by (simp add: digit_val_def)
  then have p: "ParseInt False (CHR ''0'' # show_nat (unat n)) = Inr (of_nat (unat n))"
    using b by (simp add: ParseInt_def ParseUint_nat_def del: parse_digits.simps of_nat_unat)
  have i: "sint (of_nat (unat n) :: int64) = int (unat n)" using b by (intro sint_of_nat_64) simp
  have "(int (unat n) < -128 \<or> 127 < int (unat n)) \<longleftrightarrow> \<not> unat n \<le> 127" by linarith
  then show ?thesis unfolding ParseInt_8_def p sum.case i by simp
qed

lemma digit_zero: "digit_char 0 = CHR ''0''"
  by code_simp

lemma parse_glued:
  assumes "record_ok r" "record_ok r'" "pr_PieceStyle r = 0"
  shows "ParsePieceMetaRecord (Record_String r @ Record_String r') =
    (if unat (pr_PieceNum r') \<le> 127 then Inr (r\<lparr>pr_PieceStyle := pr_PieceNum r'\<rparr>) else Inl InvalidPieceStyle)"
proof -
  have m: "plain_field (pr_Md5 r')" using assms(2) by (simp add: record_ok_def)
  have z: "show_int (sint (pr_PieceStyle r)) = ''0''"
    using assms(3) digit_zero by (simp add: show_int_def show_nat.simps)
  have "Split (''0'' @ Record_String r') fieldSeparator =
      (CHR ''0'' # show_nat (unat (pr_PieceNum r'))) # tl (Split (Record_String r') fieldSeparator)"
    using Split_Record_String[OF m, of "[]"] by (simp add: fieldSeparator_def)
  then show ?thesis
    using parse_Record_String_append[OF assms(1), of "Record_String r'"] z
    by (simp add: ParseInt_8_leading_zero)
qed

end
