(* ===== verification/Cdn_Disk.thy ===== *)
theory Cdn_Disk
  imports File_Utils Cdn_Records Byte_Units
begin

text \<open>
  The files of a CDN node: the local driver (\<open>cdn/storedriver/local/local_driver.go\<close>,
  \<open>cdn/storedriver/store_util.go\<close>), the keys of a task (\<open>cdn/supervisor/cdn/storage/path_util.go\<close>) and
  the disk storage manager (\<open>cdn/supervisor/cdn/storage/disk/disk.go\<close>). A reader is the bytes it will
  deliver and whether it fails after them. The driver's locks make each call one step, so each call is
  one function on the file system; \<open>encoding/json\<close> is a pair of parameters.
\<close>

section \<open>storedriver\<close>

record Raw =
  raw_Bucket :: string
  raw_Key :: string
  raw_Offset :: int64
  raw_Length :: int64
  raw_Trunc :: bool
  raw_TruncSize :: int64
  raw_Append :: bool

definition mk_raw :: "string \<Rightarrow> string \<Rightarrow> Raw" where
  "mk_raw bucket key =
     \<lparr>raw_Bucket = bucket, raw_Key = key, raw_Offset = 0, raw_Length = 0, raw_Trunc = False,
      raw_TruncSize = 0, raw_Append = False\<rparr>"

definition CheckGetRaw :: "Raw \<Rightarrow> int64 \<Rightarrow> file_error option" where
  "CheckGetRaw raw fileLength =
     (if sint (raw_Offset raw) < 0 then Some NegativeOffset
      else if sint (raw_Length raw) < 0 then Some NegativeLength
      else if sint fileLength < sint (raw_Offset raw) then Some BeyondFile
      else if sint fileLength < sint (raw_Offset raw + raw_Length raw) then Some BeyondFile
      else None)"

definition CheckPutRaw :: "Raw \<Rightarrow> file_error option" where
  "CheckPutRaw raw =
     (if sint (raw_Offset raw) < 0 then Some NegativeOffset
      else if sint (raw_Length raw) < 0 then Some NegativeLength
      else None)"

definition CheckTrunc :: "Raw \<Rightarrow> file_error option" where
  "CheckTrunc raw = (if raw_Trunc raw \<and> sint (raw_TruncSize raw) < 0 then Some NegativeTrunc else None)"

section \<open>local driver\<close>

text \<open>\<open>filepath.Join\<close> of clean elements.\<close>

fun Join_path :: "path list \<Rightarrow> path" where
  "Join_path [] = []"
| "Join_path (e # es) =
     (let rest = Join_path es in if e = [] then rest else if rest = [] then e else e @ ''/'' @ rest)"

definition GetPath :: "path \<Rightarrow> Raw \<Rightarrow> path" where
  "GetPath base raw = Join_path [base, raw_Bucket raw, raw_Key raw]"

definition preparePath :: "os_fail \<Rightarrow> path \<Rightarrow> Raw \<Rightarrow> fs \<Rightarrow> file_error option \<times> fs" where
  "preparePath bad base raw s =
     (case os_MkdirAll bad (Join_path [base, raw_Bucket raw]) s of (e, s') \<Rightarrow> (of_os e, s'))"

definition statPath :: "os_fail \<Rightarrow> path \<Rightarrow> Raw \<Rightarrow> fs \<Rightarrow> os_error + entry" where
  "statPath bad base raw s = os_FileInfo bad (GetPath base raw) s"

text \<open>The size of a directory is not used by any caller.\<close>

definition entry_size :: "entry \<Rightarrow> fs \<Rightarrow> int64" where
  "entry_size e s = (case e of FileAt i \<Rightarrow> of_nat (length (blocks s i)) | _ \<Rightarrow> 0)"

definition window :: "Raw \<Rightarrow> uint8 list \<Rightarrow> uint8 list" where
  "window raw bs =
     (let rest = drop (nat (sint (raw_Offset raw))) bs
      in if sint (raw_Length raw) > 0 then take (nat (sint (raw_Length raw))) rest else rest)"

text \<open>
  \<open>Get\<close> answers with a pipe that a goroutine fills. When that goroutine cannot open or read the file the
  pipe ends early and without an error; when it cannot seek it reads from the start.
\<close>

definition Get_raw :: "os_fail \<Rightarrow> path \<Rightarrow> Raw \<Rightarrow> fs \<Rightarrow> file_error + uint8 list" where
  "Get_raw bad base raw s =
     (case statPath bad base raw s of
        Inl e \<Rightarrow> Inl (Os e)
      | Inr e \<Rightarrow>
          (case CheckGetRaw raw (entry_size e s) of
             Some err \<Rightarrow> Inl err
           | None \<Rightarrow>
               let p = GetPath base raw
               in Inr (case e of
                         FileAt i \<Rightarrow>
                           if bad OpOpen p \<or> bad OpRead p then []
                           else window (if bad OpSeek p then raw\<lparr>raw_Offset := 0\<rparr> else raw) (blocks s i)
                       | _ \<Rightarrow> [])))"

definition GetBytes :: "os_fail \<Rightarrow> path \<Rightarrow> Raw \<Rightarrow> fs \<Rightarrow> file_error + uint8 list" where
  "GetBytes bad base raw s =
     (case statPath bad base raw s of
        Inl e \<Rightarrow> Inl (Os e)
      | Inr e \<Rightarrow>
          (case CheckGetRaw raw (entry_size e s) of
             Some err \<Rightarrow> Inl err
           | None \<Rightarrow>
               let p = GetPath base raw
               in if bad OpOpen p then Inl (Os (OtherError OpOpen))
                  else if bad OpSeek p then Inl (Os (OtherError OpSeek))
                  else case e of
                         FileAt i \<Rightarrow> if bad OpRead p then Inl (Os (OtherError OpRead)) else Inr (window raw (blocks s i))
                       | _ \<Rightarrow> Inl (Os (OtherError OpRead))))"

text \<open>Truncation after opening, then the position of the first write.\<close>

definition truncate_to :: "nat \<Rightarrow> uint8 list \<Rightarrow> uint8 list" where
  "truncate_to n bs = take n bs @ replicate (n - length bs) 0"

definition open_put :: "os_fail \<Rightarrow> path \<Rightarrow> Raw \<Rightarrow> fs \<Rightarrow> (file_error + nat) \<times> fs" where
  "open_put bad p raw s =
     (case OpenFile bad (raw_Trunc raw) p s of
        (Inl e, s1) \<Rightarrow> (Inl e, s1)
      | (Inr i, s1) \<Rightarrow>
          if raw_Trunc raw \<and> (sint (raw_TruncSize raw) < 0 \<or> bad OpWrite p)
          then (Inl (Os (OtherError OpWrite)), s1)
          else
            let s2 = (if raw_Trunc raw
                      then s1\<lparr>blocks := (blocks s1)(i := truncate_to (nat (sint (raw_TruncSize raw))) (blocks s1 i))\<rparr>
                      else s1)
            in if bad OpSeek p then (Inl (Os (OtherError OpSeek)), s2) else (Inr i, s2))"

text \<open>A file opened with \<open>O_APPEND\<close> is written at its end wherever it was positioned.\<close>

definition put_write :: "Raw \<Rightarrow> nat \<Rightarrow> uint8 list \<Rightarrow> fs \<Rightarrow> fs" where
  "put_write raw i bs s =
     fs_write i (if \<not> raw_Trunc raw \<and> raw_Append raw then length (blocks s i) else nat (sint (raw_Offset raw))) bs s"

type_synonym source_reader = "uint8 list \<times> bool" \<comment> \<open>what it delivers, and whether it fails after that\<close>

definition Put :: "os_fail \<Rightarrow> path \<Rightarrow> Raw \<Rightarrow> source_reader option \<Rightarrow> fs \<Rightarrow> file_error option \<times> fs" where
  "Put bad base raw data s =
     (case CheckPutRaw raw of
        Some e \<Rightarrow> (Some e, s)
      | None \<Rightarrow>
          (case preparePath bad base raw s of
             (Some e, s1) \<Rightarrow> (Some e, s1)
           | (None, s1) \<Rightarrow>
               (case data of
                  None \<Rightarrow> (None, s1)
                | Some (bs, fails) \<Rightarrow>
                    let p = GetPath base raw
                    in if CheckTrunc raw \<noteq> None then (CheckTrunc raw, s1)
                       else
                         (case open_put bad p raw s1 of
                            (Inl e, s2) \<Rightarrow> (Some e, s2)
                          | (Inr i, s2) \<Rightarrow>
                              let n = nat (sint (raw_Length raw)); bs' = (if n > 0 then take n bs else bs)
                              in if bad OpWrite p \<and> bs' \<noteq> [] then (Some (Os (OtherError OpWrite)), s2)
                                 else (if n > 0 \<and> length bs < n \<or> n = 0 \<and> fails then Some UnexpectedEOF else None,
                                       put_write raw i bs' s2)))))"

text \<open>\<open>data[:raw.Length]\<close> panics beyond the bytes given.\<close>

definition PutBytes :: "os_fail \<Rightarrow> path \<Rightarrow> Raw \<Rightarrow> uint8 list \<Rightarrow> fs \<Rightarrow> (file_error option \<times> fs) outcome" where
  "PutBytes bad base raw data s =
     (case CheckPutRaw raw of
        Some e \<Rightarrow> Ret (Some e, s)
      | None \<Rightarrow>
          (case preparePath bad base raw s of
             (Some e, s1) \<Rightarrow> Ret (Some e, s1)
           | (None, s1) \<Rightarrow>
               (case open_put bad (GetPath base raw) raw s1 of
                  (Inl e, s2) \<Rightarrow> Ret (Some e, s2)
                | (Inr i, s2) \<Rightarrow>
                    let n = nat (sint (raw_Length raw))
                    in if n > length data then Panic ''slice bounds out of range''
                       else
                         let bs = (if n > 0 then take n data else data)
                         in if bad OpWrite (GetPath base raw) then Ret (Some (Os (OtherError OpWrite)), s2)
                            else Ret (None, put_write raw i bs s2))))"

record StorageInfo =
  si_Path :: path
  si_Size :: int64

definition Stat_raw :: "os_fail \<Rightarrow> path \<Rightarrow> Raw \<Rightarrow> fs \<Rightarrow> os_error + StorageInfo" where
  "Stat_raw bad base raw s =
     (case statPath bad base raw s of
        Inl e \<Rightarrow> Inl e
      | Inr e \<Rightarrow> Inr \<lparr>si_Path = Join_path [raw_Bucket raw, raw_Key raw], si_Size = entry_size e s\<rparr>)"

definition Exits :: "os_fail \<Rightarrow> path \<Rightarrow> Raw \<Rightarrow> fs \<Rightarrow> bool" where
  "Exits bad base raw s = PathExist bad (GetPath base raw) s"

definition Remove_raw :: "os_fail \<Rightarrow> path \<Rightarrow> Raw \<Rightarrow> fs \<Rightarrow> file_error option \<times> fs" where
  "Remove_raw bad base raw s =
     (let p = GetPath base raw
      in case statPath bad base raw s of
           Inl e \<Rightarrow> (Some (Os e), s)
         | Inr e \<Rightarrow>
             if raw_Trunc raw \<or> e \<noteq> Directory
             then (case os_RemoveAll bad p s of (e', s') \<Rightarrow> (of_os e', s'))
             else (case IsEmptyDir bad p s of
                     (True, _) \<Rightarrow> (case os_RemoveAll bad p s of (e', s') \<Rightarrow> (of_os e', s'))
                   | (False, e') \<Rightarrow> (e', s)))"

section \<open>Keys of a task\<close>

definition DownloadHome :: string where "DownloadHome = ''download''"

definition UploadHome :: string where "UploadHome = ''upload''"

definition getParentKey :: "string \<Rightarrow> string" where
  "getParentKey taskID = SubString taskID 0 3"

definition getDownloadKey :: "string \<Rightarrow> string" where
  "getDownloadKey taskID = Join_path [getParentKey taskID, taskID]"

definition getTaskMetadataKey :: "string \<Rightarrow> string" where
  "getTaskMetadataKey taskID = Join_path [getParentKey taskID, taskID @ ''.meta'']"

definition getPieceMetadataKey :: "string \<Rightarrow> string" where
  "getPieceMetadataKey taskID = Join_path [getParentKey taskID, taskID @ ''.piece'']"

definition GetDownloadRaw :: "string \<Rightarrow> Raw" where
  "GetDownloadRaw taskID = mk_raw DownloadHome (getDownloadKey taskID)"

definition GetUploadRaw :: "string \<Rightarrow> Raw" where
  "GetUploadRaw taskID = mk_raw UploadHome (getDownloadKey taskID)"

definition GetTaskMetadataRaw :: "string \<Rightarrow> Raw" where
  "GetTaskMetadataRaw taskID = (mk_raw DownloadHome (getTaskMetadataKey taskID))\<lparr>raw_Trunc := True\<rparr>"

definition GetPieceMetadataRaw :: "string \<Rightarrow> Raw" where
  "GetPieceMetadataRaw taskID = mk_raw DownloadHome (getPieceMetadataKey taskID)"

definition GetAppendPieceMetadataRaw :: "string \<Rightarrow> Raw" where
  "GetAppendPieceMetadataRaw taskID = (mk_raw DownloadHome (getPieceMetadataKey taskID))\<lparr>raw_Append := True\<rparr>"

definition GetParentRaw :: "string \<Rightarrow> Raw" where
  "GetParentRaw taskID = mk_raw DownloadHome (getParentKey taskID)"

definition GetDownloadHomeRaw :: Raw where
  "GetDownloadHomeRaw = mk_raw DownloadHome []"

definition GetUploadHomeRaw :: Raw where
  "GetUploadHomeRaw = mk_raw UploadHome []"

section \<open>Disk storage manager\<close>

record FileMetadata =
  fm_TaskID :: string
  fm_TaskURL :: string
  fm_PieceSize :: int32
  fm_SourceFileLen :: int64
  fm_AccessTime :: int64
  fm_Interval :: int64
  fm_CdnFileLength :: int64
  fm_Digest :: string
  fm_SourceRealDigest :: string
  fm_Tag :: string
  fm_ExpireInfo :: "(string, string) gomap"
  fm_Finish :: bool
  fm_Success :: bool
  fm_TotalPieceCount :: int32
  fm_PieceMd5Sign :: string
  fm_Range :: string
  fm_Filter :: string

datatype disk_error = ErrTaskNotPersisted | DiskFile file_error | DiskRecord record_error | DiskUnmarshal | DiskDelete

text \<open>A string is the bytes of its characters.\<close>

definition bytes_of :: "string \<Rightarrow> uint8 list" where
  "bytes_of s = map (\<lambda>c. of_nat (of_char c)) s"

definition text_of :: "uint8 list \<Rightarrow> string" where
  "text_of bs = map (\<lambda>b. char_of (unat b)) bs"

definition AppendPieceMetadata :: "os_fail \<Rightarrow> path \<Rightarrow> string \<Rightarrow> PieceMetaRecord \<Rightarrow> fs \<Rightarrow> (file_error option \<times> fs) outcome" where
  "AppendPieceMetadata bad base taskID pieceRecord s =
     PutBytes bad base (GetAppendPieceMetadataRaw taskID) (bytes_of (appended_text pieceRecord)) s"

definition ReadPieceMetaRecords :: "os_fail \<Rightarrow> path \<Rightarrow> string \<Rightarrow> fs \<Rightarrow> disk_error + PieceMetaRecord list" where
  "ReadPieceMetaRecords bad base taskID s =
     (case GetBytes bad base (GetPieceMetadataRaw taskID) s of
        Inl e \<Rightarrow> Inl (DiskFile e)
      | Inr readBytes \<Rightarrow>
          (case records_of_text (text_of readBytes) of Inl e \<Rightarrow> Inl (DiskRecord e) | Inr rs \<Rightarrow> Inr rs))"

definition WriteDownloadFile ::
  "os_fail \<Rightarrow> path \<Rightarrow> string \<Rightarrow> int64 \<Rightarrow> int64 \<Rightarrow> source_reader \<Rightarrow> fs \<Rightarrow> file_error option \<times> fs" where
  "WriteDownloadFile bad base taskID offset len data s =
     Put bad base ((GetDownloadRaw taskID)\<lparr>raw_Offset := offset, raw_Length := len\<rparr>) (Some data) s"

definition ReadFileMetadata ::
  "os_fail \<Rightarrow> (uint8 list \<Rightarrow> FileMetadata option) \<Rightarrow> path \<Rightarrow> string \<Rightarrow> fs \<Rightarrow> disk_error + FileMetadata" where
  "ReadFileMetadata bad unmarshal base taskID s =
     (case GetBytes bad base (GetTaskMetadataRaw taskID) s of
        Inl e \<Rightarrow> Inl (DiskFile e)
      | Inr bytes \<Rightarrow> (case unmarshal bytes of None \<Rightarrow> Inl DiskUnmarshal | Some m \<Rightarrow> Inr m))"

definition WriteFileMetadata ::
  "os_fail \<Rightarrow> (FileMetadata \<Rightarrow> uint8 list) \<Rightarrow> path \<Rightarrow> string \<Rightarrow> FileMetadata \<Rightarrow> fs \<Rightarrow> (file_error option \<times> fs) outcome" where
  "WriteFileMetadata bad marshal base taskID metadata s =
     PutBytes bad base (GetTaskMetadataRaw taskID) (marshal metadata) s"

definition WritePieceMetaRecords ::
  "os_fail \<Rightarrow> path \<Rightarrow> string \<Rightarrow> PieceMetaRecord list \<Rightarrow> fs \<Rightarrow> (file_error option \<times> fs) outcome" where
  "WritePieceMetaRecords bad base taskID records s =
     PutBytes bad base ((GetPieceMetadataRaw taskID)\<lparr>raw_Trunc := True, raw_TruncSize := 0\<rparr>)
       (bytes_of (rewritten_text records)) s"

definition ReadPieceMetaBytes :: "os_fail \<Rightarrow> path \<Rightarrow> string \<Rightarrow> fs \<Rightarrow> file_error + uint8 list" where
  "ReadPieceMetaBytes bad base taskID s = GetBytes bad base (GetPieceMetadataRaw taskID) s"

definition ReadDownloadFile :: "os_fail \<Rightarrow> path \<Rightarrow> string \<Rightarrow> fs \<Rightarrow> file_error + uint8 list" where
  "ReadDownloadFile bad base taskID s = Get_raw bad base (GetDownloadRaw taskID) s"

definition StatDownloadFile :: "os_fail \<Rightarrow> path \<Rightarrow> string \<Rightarrow> fs \<Rightarrow> disk_error + StorageInfo" where
  "StatDownloadFile bad base taskID s =
     (case Stat_raw bad base (GetDownloadRaw taskID) s of
        Inl NotExist \<Rightarrow> Inl ErrTaskNotPersisted
      | Inl e \<Rightarrow> Inl (DiskFile (Os e))
      | Inr info \<Rightarrow> Inr info)"

text \<open>Removal of one file of a task, where a missing file is no error.\<close>

definition remove_present :: "os_fail \<Rightarrow> path \<Rightarrow> Raw \<Rightarrow> fs \<Rightarrow> file_error option \<times> fs" where
  "remove_present bad base raw s =
     (case Remove_raw bad base raw s of
        (Some (Os NotExist), s') \<Rightarrow> (None, s')
      | r \<Rightarrow> r)"

fun remove_all_present :: "os_fail \<Rightarrow> path \<Rightarrow> Raw list \<Rightarrow> fs \<Rightarrow> file_error option \<times> fs" where
  "remove_all_present bad base [] s = (None, s)"
| "remove_all_present bad base (raw # raws) s =
     (case remove_present bad base raw s of
        (Some e, s') \<Rightarrow> (Some e, s')
      | (None, s') \<Rightarrow> remove_all_present bad base raws s')"

definition DeleteTask :: "os_fail \<Rightarrow> path \<Rightarrow> string \<Rightarrow> fs \<Rightarrow> file_error option \<times> fs" where
  "DeleteTask bad base taskID s =
     (case remove_all_present bad base
             [GetTaskMetadataRaw taskID, GetPieceMetadataRaw taskID, GetDownloadRaw taskID, GetUploadRaw taskID] s of
        (Some e, s1) \<Rightarrow> (Some e, s1)
      | (None, s1) \<Rightarrow> (None, snd (Remove_raw bad base (GetParentRaw taskID) s1)))"

definition ResetRepo :: "os_fail \<Rightarrow> path \<Rightarrow> string \<Rightarrow> fs \<Rightarrow> disk_error option \<times> fs" where
  "ResetRepo bad base taskID s =
     (case DeleteTask bad base taskID s of
        (Some _, s1) \<Rightarrow> (Some DiskDelete, s1)
      | (None, s1) \<Rightarrow>
          let downloadPath = GetPath base (GetDownloadRaw taskID)
          in (case os_MkdirAll bad (path_Dir downloadPath) s1 of
                (Some e, s2) \<Rightarrow> (Some (DiskFile (Os e)), s2)
              | (None, s2) \<Rightarrow>
                  (case os_Create bad True downloadPath s2 of
                     (Inl e, s3) \<Rightarrow> (Some (DiskFile (Os e)), s3)
                   | (Inr _, s3) \<Rightarrow>
                       (case SymbolicLink bad downloadPath (GetPath base (GetUploadRaw taskID)) s3 of
                          (e, s4) \<Rightarrow> (map_option DiskFile e, s4)))))"

end
