(* ===== verification/Cdn_Disk_Facts.thy ===== *)
theory Cdn_Disk_Facts
  imports Cdn_Disk
begin

text \<open>
  What one call of the local driver does to the files of a task: the file it names gets the bytes, every
  other file keeps its own. Reading and writing the records of the pieces and the metadata of a task
  follow from it.
\<close>

section \<open>Calls that touch one file\<close>

text \<open>
  From \<open>s\<close> to \<open>s'\<close> only the file \<open>p\<close> and directories no longer than \<open>dir\<close> changed.
\<close>

definition only_file :: "path \<Rightarrow> path \<Rightarrow> fs \<Rightarrow> fs \<Rightarrow> bool" where
  "only_file p dir s s' \<longleftrightarrow>
     fs_ok s' \<and> (\<forall>q. q \<noteq> p \<longrightarrow> contents q s' = contents q s) \<and>
     (\<forall>q. length dir < length q \<longrightarrow> plain_path q s \<longrightarrow> plain_path q s')"

lemma only_file_refl: "fs_ok s \<Longrightarrow> only_file p dir s s"
  by (simp add: only_file_def)

lemma only_file_trans: "only_file p dir s s' \<Longrightarrow> only_file p dir s' s'' \<Longrightarrow> only_file p dir s s''"
  by (simp add: only_file_def)

lemma only_file_mkdirs:
  "fs_ok s \<Longrightarrow> \<forall>d \<in> set ds. length d \<le> length dir \<Longrightarrow> only_file p dir s (mkdirs ds s)"
  by (auto simp: only_file_def fs_ok_mkdirs intro!: plain_path_mkdirs)

lemma only_file_block:
  assumes "fs_ok s" "Load (entries s) p = Some (FileAt i)"
  shows "only_file p dir s (s\<lparr>blocks := (blocks s)(i := b)\<rparr>)"
    "contents p (s\<lparr>blocks := (blocks s)(i := b)\<rparr>) = Some b"
proof -
  have "j \<noteq> i" if "q \<noteq> p" "Load (entries s) q = Some (FileAt j)" for q j
    using assms that unfolding fs_ok_def by metis
  then have "contents q (s\<lparr>blocks := (blocks s)(i := b)\<rparr>) = contents q s" if "q \<noteq> p" for q
    using that by (auto simp: contents_def split: option.split entry.split)
  moreover have "plain_path q (s\<lparr>blocks := (blocks s)(i := b)\<rparr>) = plain_path q s" for q
    by (simp add: plain_path_def)
  ultimately show "only_file p dir s (s\<lparr>blocks := (blocks s)(i := b)\<rparr>)"
    using assms(1) by (simp add: only_file_def fs_ok_def)
  show "contents p (s\<lparr>blocks := (blocks s)(i := b)\<rparr>) = Some b" using assms(2) by (simp add: contents_def)
qed

lemma fs_ok_new:
  assumes "fs_ok s" "Load (entries s) p = None"
  defines "s' \<equiv> s\<lparr>entries := Store p (FileAt (next_inode s)) (entries s),
                  blocks := (blocks s)(next_inode s := []), next_inode := next_inode s + 1\<rparr>"
  shows "only_file p dir s s'" "Load (entries s') p = Some (FileAt (next_inode s))" "contents p s' = Some []"
proof -
  have less: "i < next_inode s" if "Load (entries s) q = Some (FileAt i)" for q i
    using assms(1) that by (simp add: fs_ok_def)
  have ne: "Load (entries s) q \<noteq> Some (FileAt (next_inode s))" for q using less[of q "next_inode s"] by auto
  have "fs_ok s'"
    using assms(1) less ne by (auto simp: s'_def fs_ok_def Load_Store less_Suc_eq split: if_splits)
  moreover have "contents q s' = contents q s" if "q \<noteq> p" for q
    using that ne[of q] by (auto simp: s'_def contents_def Load_Store split: option.splits entry.splits)
  moreover have "plain_path q s \<longrightarrow> plain_path q s'" for q
    by (auto simp: s'_def plain_path_def Load_Store)
  ultimately show "only_file p dir s s'" by (simp add: only_file_def)
  show "Load (entries s') p = Some (FileAt (next_inode s))" "contents p s' = Some []"
    by (simp_all add: s'_def contents_def Load_Store)
qed

text \<open>The bytes of a file, or none.\<close>

definition bytes_at :: "path \<Rightarrow> fs \<Rightarrow> uint8 list" where
  "bytes_at p s = (case contents p s of None \<Rightarrow> [] | Some bs \<Rightarrow> bs)"

lemma os_Create_file:
  assumes "fs_ok s" "plain_path p s" "os_Create bad trunc p s = (r, s')"
  shows "only_file p dir s s'"
    and "r = Inr i \<Longrightarrow> Load (entries s') p = Some (FileAt i) \<and>
           contents p s' = Some (if trunc then [] else bytes_at p s)"
proof -
  have lt: "link_target p s = p" using assms(2) contents_plain by blast
  have "only_file p dir s s' \<and> (r = Inr i \<longrightarrow> Load (entries s') p = Some (FileAt i) \<and>
           contents p s' = Some (if trunc then [] else bytes_at p s))"
  proof (cases "bad OpOpen p")
    case True
    then have "s' = s" "r = Inl (OtherError OpOpen)" using assms(3) by (simp_all add: os_Create_def)
    then show ?thesis using assms(1) by (simp add: only_file_refl)
  next
    case ok: False
    show ?thesis
    proof (cases "Load (entries s) p")
      case None
      then have "s' = s\<lparr>entries := Store p (FileAt (next_inode s)) (entries s),
                  blocks := (blocks s)(next_inode s := []), next_inode := next_inode s + 1\<rparr>" "r = Inr (next_inode s)"
        using assms(3) ok lt by (simp_all add: os_Create_def)
      then show ?thesis
        using fs_ok_new(1)[OF assms(1) None, of dir] fs_ok_new(2,3)[OF assms(1) None] None by (simp add: bytes_at_def contents_def)
    next
      case (Some e)
      then obtain j where j: "Load (entries s) p = Some (FileAt j)"
        using assms(2) by (cases e) (simp_all add: plain_path_def)
      then have "s' = (if trunc then s\<lparr>blocks := (blocks s)(j := [])\<rparr> else s)" "r = Inr j"
        using assms(3) ok lt by (simp_all add: os_Create_def)
      then show ?thesis
        using only_file_block(1)[OF assms(1) j, of dir "[]"] only_file_block(2)[OF assms(1) j, of "[]"] only_file_refl[OF assms(1), of p dir] j
        by (simp add: bytes_at_def contents_def)
    qed
  qed
  then show "only_file p dir s s'"
    and "r = Inr i \<Longrightarrow> Load (entries s') p = Some (FileAt i) \<and>
           contents p s' = Some (if trunc then [] else bytes_at p s)" by auto
qed

text \<open>A path inside the directory \<open>dir\<close>.\<close>

definition in_dir :: "path \<Rightarrow> path \<Rightarrow> bool" where
  "in_dir dir p \<longleftrightarrow> path_Dir p = dir \<and> length dir < length p"

lemma short_dirs: "\<forall>d \<in> set (path_dirs dir). length d \<le> length dir"
  using path_dirs_short by blast

lemma os_MkdirAll_file:
  assumes "fs_ok s" "os_MkdirAll bad d s = (e, s')" "length d \<le> length dir" "length dir < length p"
  shows "only_file p dir s s'" "contents p s' = contents p s" "plain_path p s \<Longrightarrow> plain_path p s'"
proof -
  have s': "s' = s \<or> s' = mkdirs (path_dirs d) s" using assms(2) by (auto simp: os_MkdirAll_eq split: if_splits)
  have "\<forall>x \<in> set (path_dirs d). length x \<le> length dir" using short_dirs[of d] assms(3) by (meson le_trans)
  then show o: "only_file p dir s s'" using s' assms(1) only_file_refl only_file_mkdirs by metis
  show "contents p s' = contents p s" using s' by auto
  show "plain_path p s'" if "plain_path p s" using o that assms(4) by (simp add: only_file_def)
qed

lemma OpenFile_file:
  assumes "fs_ok s" "plain_path p s" "in_dir dir p" "OpenFile bad trunc p s = (r, s')"
  shows "only_file p dir s s'"
    and "r = Inr i \<Longrightarrow> Load (entries s') p = Some (FileAt i) \<and>
           contents p s' = Some (if trunc then [] else bytes_at p s)"
proof -
  have d: "path_Dir p = dir" "length dir < length p" using assms(3) by (auto simp: in_dir_def)
  obtain e s1 where m: "(if \<not> PathExist bad p s then os_MkdirAll bad (path_Dir p) s else (None, s)) = (e, s1)"
    by fastforce
  have 1: "only_file p dir s s1" "contents p s1 = contents p s" "plain_path p s1"
    using m d os_MkdirAll_file[OF assms(1), of bad "path_Dir p" e s1 dir p] only_file_refl[OF assms(1)] assms(2)
    by (auto split: if_splits)
  obtain r2 s2 where c: "os_Create bad trunc p s1 = (r2, s2)" by fastforce
  have ok1: "fs_ok s1" using 1(1) by (simp add: only_file_def)
  have res: "r = (case e of Some _ \<Rightarrow> Inl Wrapped | None \<Rightarrow> (case r2 of Inl x \<Rightarrow> Inl (Os x) | Inr i \<Rightarrow> Inr i))"
    "s' = (case e of Some _ \<Rightarrow> s1 | None \<Rightarrow> s2)"
    using assms(4) m c by (auto simp: OpenFile_def Let_def split: option.splits sum.splits)
  show "only_file p dir s s'"
    using res 1(1) os_Create_file(1)[OF ok1 1(3) c, of dir] only_file_trans by (auto split: option.split)
  show "Load (entries s') p = Some (FileAt i) \<and> contents p s' = Some (if trunc then [] else bytes_at p s)"
    if "r = Inr i"
    using that res os_Create_file(2)[OF ok1 1(3) c, of i] 1(2) by (auto simp: bytes_at_def split: option.splits sum.splits)
qed

definition opened_bytes :: "path \<Rightarrow> Raw \<Rightarrow> fs \<Rightarrow> uint8 list" where
  "opened_bytes p raw s = (if raw_Trunc raw then replicate (nat (sint (raw_TruncSize raw))) 0 else bytes_at p s)"

lemma open_put_file:
  assumes "fs_ok s" "plain_path p s" "in_dir dir p" "open_put bad p raw s = (r, s')"
  shows "only_file p dir s s'"
    and "r = Inr i \<Longrightarrow> Load (entries s') p = Some (FileAt i) \<and> contents p s' = Some (opened_bytes p raw s)"
proof -
  obtain r1 s1 where o: "OpenFile bad (raw_Trunc raw) p s = (r1, s1)" by fastforce
  note f = OpenFile_file[OF assms(1-3) o]
  show "only_file p dir s s'"
  proof (cases r1)
    case (Inr j)
    then have L: "Load (entries s1) p = Some (FileAt j)" "fs_ok s1" using f by (auto simp: only_file_def)
    have "s' = s1 \<or> s' = s1\<lparr>blocks := (blocks s1)(j := truncate_to (nat (sint (raw_TruncSize raw))) (blocks s1 j))\<rparr>"
      using assms(4) o Inr by (auto simp: open_put_def Let_def split: if_splits)
    then show ?thesis using f(1) only_file_trans only_file_block(1)[OF L(2,1)] by metis
  qed (use assms(4) o f in \<open>auto simp: open_put_def\<close>)
  show "Load (entries s') p = Some (FileAt i) \<and> contents p s' = Some (opened_bytes p raw s)" if "r = Inr i"
  proof (cases r1)
    case (Inr j)
    then have L: "Load (entries s1) p = Some (FileAt j)" "fs_ok s1"
      "contents p s1 = Some (if raw_Trunc raw then [] else bytes_at p s)" using f by (auto simp: only_file_def)
    then show ?thesis
      using assms(4) o Inr that
      by (auto simp: open_put_def Let_def contents_def opened_bytes_def truncate_to_def split: if_splits)
  qed (use assms(4) o that in \<open>auto simp: open_put_def\<close>)
qed

text \<open>The bytes after a put: at the end for an append, else at the offset.\<close>

definition put_bytes :: "Raw \<Rightarrow> uint8 list \<Rightarrow> uint8 list \<Rightarrow> uint8 list" where
  "put_bytes raw bs old =
     write_at (if \<not> raw_Trunc raw \<and> raw_Append raw then length old else nat (sint (raw_Offset raw))) bs old"

lemma put_write_file:
  assumes "fs_ok s" "Load (entries s) p = Some (FileAt i)" "contents p s = Some old"
  shows "only_file p dir s (put_write raw i bs s)" "contents p (put_write raw i bs s) = Some (put_bytes raw bs old)"
proof -
  have old: "blocks s i = old" using assms(2,3) by (simp add: contents_def)
  show "only_file p dir s (put_write raw i bs s)"
    unfolding put_write_def fs_write_def by (rule only_file_block(1)[OF assms(1,2)])
  show "contents p (put_write raw i bs s) = Some (put_bytes raw bs old)"
    unfolding put_write_def fs_write_def
    using only_file_block(2)[OF assms(1,2)] by (simp add: put_bytes_def old)
qed

lemma preparePath_file:
  assumes "fs_ok s" "preparePath bad base raw s = (e, s')"
    "length (Join_path [base, raw_Bucket raw]) \<le> length dir" "length dir < length p"
  shows "only_file p dir s s'" "contents p s' = contents p s" "plain_path p s \<Longrightarrow> plain_path p s'"
  using os_MkdirAll_file[OF assms(1) _ assms(3,4), of bad] assms(2)
  by (auto simp: preparePath_def split: prod.splits)

lemma PutBytes_file:
  assumes "fs_ok s" "plain_path (GetPath base raw) s" "in_dir dir (GetPath base raw)"
    "length (Join_path [base, raw_Bucket raw]) \<le> length dir" "raw_Length raw = 0"
    "PutBytes bad base raw data s = Ret (e, s')"
  shows "only_file (GetPath base raw) dir s s'"
    and "e = None \<Longrightarrow> contents (GetPath base raw) s' = Some (put_bytes raw data (opened_bytes (GetPath base raw) raw s))"
proof -
  let ?p = "GetPath base raw"
  obtain e1 s1 where p: "preparePath bad base raw s = (e1, s1)" by fastforce
  have len: "length dir < length ?p" using assms(3) by (simp add: in_dir_def)
  note p1 = preparePath_file[OF assms(1) p assms(4) len]
  have ok1: "fs_ok s1" "plain_path ?p s1" using p1 assms(2) by (auto simp: only_file_def)
  obtain r s2 where o: "open_put bad ?p raw s1 = (r, s2)" by fastforce
  note o1 = open_put_file[OF ok1 assms(3) o]
  have same: "opened_bytes ?p raw s1 = opened_bytes ?p raw s" using p1(2) by (simp add: opened_bytes_def bytes_at_def)
  have only2: "only_file ?p dir s s2" using p1(1) o1(1) only_file_trans by blast
  have "only_file ?p dir s s' \<and> (e = None \<longrightarrow> contents ?p s' = Some (put_bytes raw data (opened_bytes ?p raw s)))"
  proof (cases "CheckPutRaw raw = None \<and> e1 = None \<and> (\<exists>i. r = Inr i)")
    case True
    then obtain i where i: "r = Inr i" by blast
    have f: "fs_ok s2" "Load (entries s2) ?p = Some (FileAt i)" "contents ?p s2 = Some (opened_bytes ?p raw s)"
      using o1 i same by (auto simp: only_file_def)
    have "(e, s') = (Some (Os (OtherError OpWrite)), s2) \<or> (e, s') = (None, put_write raw i data s2)"
      using assms(5,6) True p o i by (auto simp: PutBytes_def Let_def split: if_splits)
    then show ?thesis using put_write_file[OF f, where raw = raw and bs = data] only2 only_file_trans by blast
  next
    case False
    then consider (raw) x where "CheckPutRaw raw = Some x" | (prep) x where "CheckPutRaw raw = None" "e1 = Some x"
      | (opn) x where "CheckPutRaw raw = None" "e1 = None" "r = Inl x"
      by (cases "CheckPutRaw raw"; cases e1; cases r) auto
    then have "\<exists>x. PutBytes bad base raw data s \<in> {Ret (Some x, s), Ret (Some x, s1), Ret (Some x, s2)}"
      by cases (use p o in \<open>auto simp: PutBytes_def\<close>)
    then have "\<exists>x. (e, s') = (Some x, s) \<or> (e, s') = (Some x, s1) \<or> (e, s') = (Some x, s2)" using assms(6) by auto
    then show ?thesis using p1(1) only2 only_file_refl[OF assms(1)] by auto
  qed
  then show "only_file ?p dir s s'"
    and "e = None \<Longrightarrow> contents ?p s' = Some (put_bytes raw data (opened_bytes ?p raw s))" by auto
qed

lemma PutBytes_returns: "raw_Length raw = 0 \<Longrightarrow> \<exists>e s'. PutBytes bad base raw data s = Ret (e, s')"
  by (auto simp: PutBytes_def Let_def split: option.split sum.split prod.split)

lemma Put_file:
  assumes "fs_ok s" "plain_path (GetPath base raw) s" "in_dir dir (GetPath base raw)"
    "length (Join_path [base, raw_Bucket raw]) \<le> length dir" "Put bad base raw (Some (bs, fails)) s = (e, s')"
  shows "only_file (GetPath base raw) dir s s'"
    and "e = None \<Longrightarrow> 0 < sint (raw_Length raw) \<Longrightarrow>
      nat (sint (raw_Length raw)) \<le> length bs \<and>
      contents (GetPath base raw) s' =
        Some (put_bytes raw (take (nat (sint (raw_Length raw))) bs) (opened_bytes (GetPath base raw) raw s))"
proof -
  let ?p = "GetPath base raw" and ?n = "nat (sint (raw_Length raw))"
  obtain e1 s1 where p: "preparePath bad base raw s = (e1, s1)" by fastforce
  have len: "length dir < length ?p" using assms(3) by (simp add: in_dir_def)
  note p1 = preparePath_file[OF assms(1) p assms(4) len]
  have ok1: "fs_ok s1" "plain_path ?p s1" using p1 assms(2) by (auto simp: only_file_def)
  obtain r s2 where o: "open_put bad ?p raw s1 = (r, s2)" by fastforce
  note o1 = open_put_file[OF ok1 assms(3) o]
  have same: "opened_bytes ?p raw s1 = opened_bytes ?p raw s" using p1(2) by (simp add: opened_bytes_def bytes_at_def)
  have only2: "only_file ?p dir s s2" using p1(1) o1(1) only_file_trans by blast
  have "only_file ?p dir s s' \<and> (e = None \<longrightarrow> 0 < ?n \<longrightarrow> ?n \<le> length bs \<and>
      contents ?p s' = Some (put_bytes raw (take ?n bs) (opened_bytes ?p raw s)))"
  proof (cases "CheckPutRaw raw = None \<and> e1 = None \<and> CheckTrunc raw = None \<and> (\<exists>i. r = Inr i)")
    case True
    then obtain i where i: "r = Inr i" by blast
    have f: "fs_ok s2" "Load (entries s2) ?p = Some (FileAt i)" "contents ?p s2 = Some (opened_bytes ?p raw s)"
      using o1 i same by (auto simp: only_file_def)
    define bs' where "bs' = (if ?n > 0 then take ?n bs else bs)"
    have "(e, s') = (Some (Os (OtherError OpWrite)), s2) \<or>
        s' = put_write raw i bs' s2 \<and> (e = None \<longrightarrow> 0 < ?n \<longrightarrow> ?n \<le> length bs)"
      using assms(5) True p o i by (auto simp: Put_def Let_def bs'_def split: if_splits)
    then show ?thesis
      using put_write_file[OF f, where raw = raw and bs = bs'] only2 only_file_trans
      by (auto simp: bs'_def)
  next
    case False
    then consider (raw) x where "CheckPutRaw raw = Some x" | (prep) x where "CheckPutRaw raw = None" "e1 = Some x"
      | (trunc) x where "CheckPutRaw raw = None" "e1 = None" "CheckTrunc raw = Some x"
      | (opn) x where "CheckPutRaw raw = None" "e1 = None" "CheckTrunc raw = None" "r = Inl x"
      by (cases "CheckPutRaw raw"; cases e1; cases "CheckTrunc raw"; cases r) auto
    then have "\<exists>x. Put bad base raw (Some (bs, fails)) s \<in> {(Some x, s), (Some x, s1), (Some x, s2)}"
      by cases (use p o in \<open>auto simp: Put_def\<close>)
    then have "\<exists>x. (e, s') = (Some x, s) \<or> (e, s') = (Some x, s1) \<or> (e, s') = (Some x, s2)" using assms(5) by auto
    then show ?thesis using p1(1) only2 only_file_refl[OF assms(1)] by auto
  qed
  then show "only_file ?p dir s s'"
    and "e = None \<Longrightarrow> 0 < sint (raw_Length raw) \<Longrightarrow> ?n \<le> length bs \<and>
      contents ?p s' = Some (put_bytes raw (take ?n bs) (opened_bytes ?p raw s))" by auto
qed

section \<open>Reading\<close>

definition readable :: "os_fail \<Rightarrow> path \<Rightarrow> bool" where
  "readable bad p \<longleftrightarrow> \<not> bad OpStat p \<and> \<not> bad OpOpen p \<and> \<not> bad OpSeek p \<and> \<not> bad OpRead p"

lemma contents_SomeD:
  assumes "contents p s = Some bs"
  shows "\<exists>i. Load (entries s) p = Some (FileAt i) \<and> blocks s i = bs \<and> link_target p s = p"
  using assms by (auto simp: contents_def link_target_def split: option.splits entry.splits)

lemma read_whole:
  assumes "contents (GetPath base raw) s = Some bs" "readable bad (GetPath base raw)" "length bs < 2 ^ 63"
    "raw_Offset raw = 0" "raw_Length raw = 0"
  shows "GetBytes bad base raw s = Inr bs" "Get_raw bad base raw s = Inr bs"
    "Stat_raw bad base raw s =
       Inr \<lparr>si_Path = Join_path [raw_Bucket raw, raw_Key raw], si_Size = of_nat (length bs)\<rparr>"
proof -
  obtain i where i: "Load (entries s) (GetPath base raw) = Some (FileAt i)" "blocks s i = bs"
    "link_target (GetPath base raw) s = GetPath base raw"
    using contents_SomeD[OF assms(1)] by blast
  have st: "statPath bad base raw s = Inr (FileAt i)" using assms(2) i by (simp add: statPath_def os_FileInfo_def readable_def)
  have "sint (of_nat (length bs) :: int64) = int (length bs)" using assms(3) by (rule sint_of_nat_64)
  then have ch: "CheckGetRaw raw (entry_size (FileAt i) s) = None"
    using assms(4,5) i(2) by (simp add: CheckGetRaw_def entry_size_def)
  show "GetBytes bad base raw s = Inr bs"
    using st ch assms(2,4,5) i(2) by (simp add: GetBytes_def readable_def window_def)
  show "Get_raw bad base raw s = Inr bs"
    using st ch assms(2,4,5) i(2) by (simp add: Get_raw_def readable_def window_def)
  show "Stat_raw bad base raw s =
       Inr \<lparr>si_Path = Join_path [raw_Bucket raw, raw_Key raw], si_Size = of_nat (length bs)\<rparr>"
    using st i(2) by (simp add: Stat_raw_def entry_size_def)
qed

section \<open>The files of a task\<close>

definition task_dir :: "path \<Rightarrow> string \<Rightarrow> path" where
  "task_dir base taskID = Join_path [base, DownloadHome, getParentKey taskID]"

definition id_ok :: "string \<Rightarrow> bool" where
  "id_ok taskID \<longleftrightarrow> taskID \<noteq> [] \<and> CHR ''/'' \<notin> set taskID"

abbreviation data_path :: "path \<Rightarrow> string \<Rightarrow> path" where
  "data_path base taskID \<equiv> task_dir base taskID @ CHR ''/'' # taskID"

abbreviation meta_path :: "path \<Rightarrow> string \<Rightarrow> path" where
  "meta_path base taskID \<equiv> task_dir base taskID @ CHR ''/'' # taskID @ ''.meta''"

abbreviation piece_path :: "path \<Rightarrow> string \<Rightarrow> path" where
  "piece_path base taskID \<equiv> task_dir base taskID @ CHR ''/'' # taskID @ ''.piece''"

lemma Join_path_name: "b \<noteq> [] \<Longrightarrow> n \<noteq> [] \<Longrightarrow> Join_path [a, b, Join_path [d, n]] = Join_path [a, b, d] @ CHR ''/'' # n"
  by (auto simp: Let_def)

lemma bucket_prefix: "length (Join_path [base, DownloadHome]) \<le> length (task_dir base taskID)"
  by (auto simp: task_dir_def Let_def DownloadHome_def)

lemma path_Dir_name: "CHR ''/'' \<notin> set n \<Longrightarrow> path_Dir (d @ CHR ''/'' # n) = d"
proof -
  assume a: "CHR ''/'' \<notin> set n"
  have "dropWhile (\<lambda>c. c \<noteq> CHR ''/'') (rev n @ CHR ''/'' # rev d) = CHR ''/'' # rev d"
    using a by (subst dropWhile_append2) auto
  then show ?thesis by (simp add: path_Dir_def path_Split_def TrimSuffix_def HasSuffix_def)
qed

lemma in_dir_name: "CHR ''/'' \<notin> set n \<Longrightarrow> in_dir d (d @ CHR ''/'' # n)"
  by (simp add: in_dir_def path_Dir_name)

lemma task_paths:
  assumes "id_ok taskID"
  shows "GetPath base (GetDownloadRaw taskID) = data_path base taskID"
    "GetPath base (GetTaskMetadataRaw taskID) = meta_path base taskID"
    "GetPath base (GetPieceMetadataRaw taskID) = piece_path base taskID"
    "GetPath base (GetAppendPieceMetadataRaw taskID) = piece_path base taskID"
  using assms Join_path_name[of DownloadHome]
  by (simp_all add: GetPath_def GetDownloadRaw_def GetTaskMetadataRaw_def GetPieceMetadataRaw_def
      GetAppendPieceMetadataRaw_def mk_raw_def getDownloadKey_def getTaskMetadataKey_def getPieceMetadataKey_def
      task_dir_def DownloadHome_def id_ok_def del: Join_path.simps)

lemma task_in_dir:
  assumes "id_ok taskID"
  shows "in_dir (task_dir base taskID) (data_path base taskID)"
    "in_dir (task_dir base taskID) (meta_path base taskID)"
    "in_dir (task_dir base taskID) (piece_path base taskID)"
  using assms by (auto simp: id_ok_def intro!: in_dir_name)

text \<open>The three files of a task are files or absent.\<close>

definition task_ok :: "path \<Rightarrow> string \<Rightarrow> fs \<Rightarrow> bool" where
  "task_ok base taskID s \<longleftrightarrow>
     fs_ok s \<and> plain_path (data_path base taskID) s \<and> plain_path (meta_path base taskID) s \<and>
     plain_path (piece_path base taskID) s"

lemma only_file_task:
  assumes "only_file p (task_dir base taskID) s s'" "task_ok base taskID s"
  shows "task_ok base taskID s'"
  using assms by (simp add: only_file_def task_ok_def)

lemma bucket_of_raws [simp]:
  "raw_Bucket (GetDownloadRaw t) = DownloadHome" "raw_Bucket (GetTaskMetadataRaw t) = DownloadHome"
  "raw_Bucket (GetPieceMetadataRaw t) = DownloadHome" "raw_Bucket (GetAppendPieceMetadataRaw t) = DownloadHome"
  by (simp_all add: GetDownloadRaw_def GetTaskMetadataRaw_def GetPieceMetadataRaw_def GetAppendPieceMetadataRaw_def mk_raw_def)

lemma fields_of_raws [simp]:
  "raw_Length (GetTaskMetadataRaw t) = 0" "raw_Offset (GetTaskMetadataRaw t) = 0" "raw_TruncSize (GetTaskMetadataRaw t) = 0"
  "raw_Length (GetPieceMetadataRaw t) = 0" "raw_Offset (GetPieceMetadataRaw t) = 0" "raw_TruncSize (GetPieceMetadataRaw t) = 0"
  "raw_Length (GetAppendPieceMetadataRaw t) = 0" "raw_Offset (GetAppendPieceMetadataRaw t) = 0"
  "raw_TruncSize (GetAppendPieceMetadataRaw t) = 0"
  by (simp_all add: GetTaskMetadataRaw_def GetPieceMetadataRaw_def GetAppendPieceMetadataRaw_def mk_raw_def)

lemma GetPath_update [simp]:
  "GetPath base (raw\<lparr>raw_Trunc := b\<rparr>) = GetPath base raw" "GetPath base (raw\<lparr>raw_TruncSize := n\<rparr>) = GetPath base raw"
  "GetPath base (raw\<lparr>raw_Offset := n\<rparr>) = GetPath base raw" "GetPath base (raw\<lparr>raw_Length := n\<rparr>) = GetPath base raw"
  by (simp_all add: GetPath_def)

lemma write_at_end: "write_at (length old) bs old = old @ bs"
  by (simp add: write_at_def)

lemma write_at_start: "write_at 0 bs [] = bs"
  by (simp add: write_at_def)

lemma text_of_bytes [simp]: "text_of (bytes_of s) = s"
proof -
  have "char_of (unat (of_nat (of_char c) :: uint8)) = c" for c
    using of_char_mod_256[of c, where ?'a = nat] by (simp add: unsigned_of_nat take_bit_eq_mod)
  then show ?thesis by (simp add: text_of_def bytes_of_def comp_def)
qed

lemma bytes_of_append [simp]: "bytes_of (s @ t) = bytes_of s @ bytes_of t"
  by (simp add: bytes_of_def)

lemma length_bytes_of [simp]: "length (bytes_of s) = length s"
  by (simp add: bytes_of_def)

text \<open>What the files of a task are after a call: the three contents.\<close>

definition task_files :: "path \<Rightarrow> string \<Rightarrow> fs \<Rightarrow> uint8 list option \<times> uint8 list option \<times> uint8 list option" where
  "task_files base taskID s =
     (contents (data_path base taskID) s, contents (meta_path base taskID) s, contents (piece_path base taskID) s)"

lemma AppendPieceMetadata_task:
  assumes "id_ok taskID" "task_ok base taskID s" "task_files base taskID s = (d, m, p)"
    "AppendPieceMetadata bad base taskID r s = Ret (e, s')"
  shows "task_ok base taskID s' \<and> (\<exists>p'. task_files base taskID s' = (d, m, p')) \<and>
    (e = None \<longrightarrow> task_files base taskID s' = (d, m, Some ((case p of None \<Rightarrow> [] | Some bs \<Rightarrow> bs) @ bytes_of (appended_text r))))"
proof -
  let ?raw = "GetAppendPieceMetadataRaw taskID"
  have path: "GetPath base ?raw = piece_path base taskID" using assms(1) by (rule task_paths)
  have f: "fs_ok s" "plain_path (GetPath base ?raw) s" "in_dir (task_dir base taskID) (GetPath base ?raw)"
    "length (Join_path [base, raw_Bucket ?raw]) \<le> length (task_dir base taskID)" "raw_Length ?raw = 0"
    using assms(1,2) path task_in_dir bucket_prefix[of base taskID]
    by (auto simp: task_ok_def GetAppendPieceMetadataRaw_def mk_raw_def simp del: Join_path.simps)
  note put = PutBytes_file[OF f assms(4)[unfolded AppendPieceMetadata_def]]
  have "put_bytes ?raw bs old = old @ bs" for bs old
    by (simp add: put_bytes_def GetAppendPieceMetadataRaw_def mk_raw_def write_at_end)
  moreover have "opened_bytes (GetPath base ?raw) ?raw s = (case p of None \<Rightarrow> [] | Some bs \<Rightarrow> bs)"
    unfolding path using assms(3)
    by (simp add: opened_bytes_def bytes_at_def task_files_def GetAppendPieceMetadataRaw_def mk_raw_def)
  ultimately show ?thesis
    using put assms(2,3) only_file_task path
    by (auto simp: only_file_def task_files_def)
qed

lemma WritePieceMetaRecords_task:
  assumes "id_ok taskID" "task_ok base taskID s" "task_files base taskID s = (d, m, p)"
    "WritePieceMetaRecords bad base taskID rs s = Ret (e, s')"
  shows "task_ok base taskID s' \<and> (\<exists>p'. task_files base taskID s' = (d, m, p')) \<and>
    (e = None \<longrightarrow> task_files base taskID s' = (d, m, Some (bytes_of (rewritten_text rs))))"
proof -
  let ?raw = "(GetPieceMetadataRaw taskID)\<lparr>raw_Trunc := True, raw_TruncSize := 0\<rparr>"
  have path: "GetPath base ?raw = piece_path base taskID" using assms(1) task_paths(3) by simp
  have f: "fs_ok s" "plain_path (GetPath base ?raw) s" "in_dir (task_dir base taskID) (GetPath base ?raw)"
    "length (Join_path [base, raw_Bucket ?raw]) \<le> length (task_dir base taskID)" "raw_Length ?raw = 0"
    using assms(1,2) path task_in_dir bucket_prefix[of base taskID]
    by (auto simp: task_ok_def GetPieceMetadataRaw_def mk_raw_def simp del: Join_path.simps)
  note put = PutBytes_file[OF f assms(4)[unfolded WritePieceMetaRecords_def]]
  have "put_bytes ?raw bs (opened_bytes (GetPath base ?raw) ?raw s) = bs" for bs
    by (simp add: put_bytes_def opened_bytes_def GetPieceMetadataRaw_def mk_raw_def write_at_start)
  then show ?thesis
    using put assms(2,3) only_file_task path by (auto simp: only_file_def task_files_def)
qed

lemma WriteFileMetadata_task:
  assumes "id_ok taskID" "task_ok base taskID s" "task_files base taskID s = (d, m, p)"
    "WriteFileMetadata bad marshal base taskID md s = Ret (e, s')"
  shows "task_ok base taskID s' \<and> (\<exists>m'. task_files base taskID s' = (d, m', p)) \<and>
    (e = None \<longrightarrow> task_files base taskID s' = (d, Some (marshal md), p))"
proof -
  let ?raw = "GetTaskMetadataRaw taskID"
  have path: "GetPath base ?raw = meta_path base taskID" using assms(1) by (rule task_paths)
  have f: "fs_ok s" "plain_path (GetPath base ?raw) s" "in_dir (task_dir base taskID) (GetPath base ?raw)"
    "length (Join_path [base, raw_Bucket ?raw]) \<le> length (task_dir base taskID)" "raw_Length ?raw = 0"
    using assms(1,2) path task_in_dir bucket_prefix[of base taskID]
    by (auto simp: task_ok_def GetTaskMetadataRaw_def mk_raw_def simp del: Join_path.simps)
  note put = PutBytes_file[OF f assms(4)[unfolded WriteFileMetadata_def]]
  have "put_bytes ?raw bs (opened_bytes (GetPath base ?raw) ?raw s) = bs" for bs
    by (simp add: put_bytes_def opened_bytes_def GetTaskMetadataRaw_def mk_raw_def write_at_start)
  then show ?thesis
    using put assms(2,3) only_file_task path by (auto simp: only_file_def task_files_def)
qed

lemma WriteDownloadFile_task:
  assumes "id_ok taskID" "task_ok base taskID s" "task_files base taskID s = (d, m, p)"
    "WriteDownloadFile bad base taskID offset len (bs, fails) s = (e, s')"
  shows "task_ok base taskID s' \<and> (\<exists>d'. task_files base taskID s' = (d', m, p)) \<and>
    (e = None \<longrightarrow> 0 < sint len \<longrightarrow> nat (sint len) \<le> length bs \<and>
      task_files base taskID s' =
        (Some (write_at (nat (sint offset)) (take (nat (sint len)) bs) (case d of None \<Rightarrow> [] | Some old \<Rightarrow> old)), m, p))"
proof -
  let ?raw = "(GetDownloadRaw taskID)\<lparr>raw_Offset := offset, raw_Length := len\<rparr>"
  have path: "GetPath base ?raw = data_path base taskID" using assms(1) task_paths(1) by simp
  have f: "fs_ok s" "plain_path (GetPath base ?raw) s" "in_dir (task_dir base taskID) (GetPath base ?raw)"
    "length (Join_path [base, raw_Bucket ?raw]) \<le> length (task_dir base taskID)"
    using assms(1,2) path task_in_dir bucket_prefix[of base taskID]
    by (auto simp: task_ok_def GetDownloadRaw_def mk_raw_def simp del: Join_path.simps)
  note put = Put_file[OF f assms(4)[unfolded WriteDownloadFile_def]]
  have "put_bytes ?raw x old = write_at (nat (sint offset)) x old" for x old
    by (simp add: put_bytes_def GetDownloadRaw_def mk_raw_def)
  moreover have "opened_bytes (GetPath base ?raw) ?raw s = (case d of None \<Rightarrow> [] | Some bs \<Rightarrow> bs)"
    unfolding path using assms(3)
    by (simp add: opened_bytes_def bytes_at_def task_files_def GetDownloadRaw_def mk_raw_def)
  ultimately show ?thesis
    using put assms(2,3) only_file_task path by (auto simp: only_file_def task_files_def)
qed

lemma ReadPieceMetaRecords_task:
  assumes "id_ok taskID" "task_files base taskID s = (d, m, Some (bytes_of t))"
    "readable bad (piece_path base taskID)" "length t < 2 ^ 63"
  shows "ReadPieceMetaRecords bad base taskID s =
    (case records_of_text t of Inl e \<Rightarrow> Inl (DiskRecord e) | Inr rs \<Rightarrow> Inr rs)"
  using read_whole(1)[of base "GetPieceMetadataRaw taskID" s "bytes_of t" bad] assms task_paths(3)[OF assms(1), of base]
  by (simp add: ReadPieceMetaRecords_def task_files_def GetPieceMetadataRaw_def mk_raw_def)

lemma ReadFileMetadata_task:
  assumes "id_ok taskID" "task_files base taskID s = (d, Some bs, p)"
    "readable bad (meta_path base taskID)" "length bs < 2 ^ 63"
  shows "ReadFileMetadata bad unmarshal base taskID s =
    (case unmarshal bs of None \<Rightarrow> Inl DiskUnmarshal | Some md \<Rightarrow> Inr md)"
  using read_whole(1)[of base "GetTaskMetadataRaw taskID" s bs bad] assms task_paths(2)[OF assms(1), of base]
  by (simp add: ReadFileMetadata_def task_files_def GetTaskMetadataRaw_def mk_raw_def)

lemma ReadDownloadFile_task:
  assumes "id_ok taskID" "task_files base taskID s = (Some bs, m, p)"
    "readable bad (data_path base taskID)" "length bs < 2 ^ 63"
  shows "ReadDownloadFile bad base taskID s = Inr bs"
    "\<exists>info. StatDownloadFile bad base taskID s = Inr info \<and> si_Size info = of_nat (length bs)"
  using read_whole(2,3)[of base "GetDownloadRaw taskID" s bs bad] assms task_paths(1)[OF assms(1), of base]
  by (simp_all add: ReadDownloadFile_def StatDownloadFile_def task_files_def GetDownloadRaw_def mk_raw_def)

section \<open>Calls that succeed\<close>

definition no_fail :: "os_fail \<Rightarrow> bool" where
  "no_fail bad \<longleftrightarrow> (\<forall>op p. \<not> bad op p)"

lemma no_fail_readable: "no_fail bad \<Longrightarrow> readable bad p"
  by (simp add: no_fail_def readable_def)

lemma open_put_ok:
  assumes "no_fail bad" "fs_ok s" "plain_path p s" "in_dir dir p" "0 \<le> sint (raw_TruncSize raw)"
  shows "\<exists>i s'. open_put bad p raw s = (Inr i, s')"
proof -
  obtain s1 where m: "(if \<not> PathExist bad p s then os_MkdirAll bad (path_Dir p) s else (None, s)) = (None, s1)"
    using assms(1) by (cases "PathExist bad p s") (auto simp: os_MkdirAll_eq no_fail_def)
  have "plain_path p s1"
    using m assms os_MkdirAll_file(3)[OF assms(2), of bad "path_Dir p" None s1 dir p]
    by (auto simp: in_dir_def split: if_splits)
  then have "link_target p s1 = p" "plain_path p s1" using contents_plain by auto
  then obtain i s2 where "os_Create bad (raw_Trunc raw) p s1 = (Inr i, s2)"
    using assms(1) by (auto simp: os_Create_def no_fail_def plain_path_def split: option.splits entry.splits)
  then have "OpenFile bad (raw_Trunc raw) p s = (Inr i, s2)" using m by (simp add: OpenFile_def)
  then show ?thesis using assms(1,5) by (simp add: open_put_def no_fail_def)
qed

lemma PutBytes_ok:
  assumes "no_fail bad" "fs_ok s" "plain_path (GetPath base raw) s" "in_dir dir (GetPath base raw)"
    "length (Join_path [base, raw_Bucket raw]) \<le> length dir" "raw_Length raw = 0" "raw_Offset raw = 0" "raw_TruncSize raw = 0"
  shows "\<exists>s'. PutBytes bad base raw data s = Ret (None, s')"
proof -
  obtain s1 where p: "preparePath bad base raw s = (None, s1)"
    using assms(1) by (auto simp: preparePath_def os_MkdirAll_eq no_fail_def of_os_def)
  have "length dir < length (GetPath base raw)" using assms(4) by (simp add: in_dir_def)
  then have 1: "fs_ok s1" "plain_path (GetPath base raw) s1"
    using preparePath_file[OF assms(2) p assms(5)] assms(3) by (auto simp: only_file_def)
  obtain i s2 where "open_put bad (GetPath base raw) raw s1 = (Inr i, s2)"
    using open_put_ok[OF assms(1) 1 assms(4), of raw] assms(8) by auto
  then show ?thesis using p assms(1,6,7) by (simp add: PutBytes_def CheckPutRaw_def no_fail_def)
qed

section \<open>The records of the pieces\<close>

text \<open>Records appended one after the other, up to the first error.\<close>

fun append_all :: "os_fail \<Rightarrow> path \<Rightarrow> string \<Rightarrow> PieceMetaRecord list \<Rightarrow> fs \<Rightarrow> (file_error option \<times> fs) outcome" where
  "append_all bad base taskID [] s = Ret (None, s)"
| "append_all bad base taskID (r # rs) s =
     obind (AppendPieceMetadata bad base taskID r s) (\<lambda>(e, s').
       if e \<noteq> None then Ret (e, s') else append_all bad base taskID rs s')"

lemma append_all_task:
  assumes "id_ok taskID" "task_ok base taskID s" "task_files base taskID s = (d, m, Some (bytes_of t))"
    "append_all bad base taskID rs s = Ret (None, s')"
  shows "task_ok base taskID s' \<and> task_files base taskID s' = (d, m, Some (bytes_of (t @ concat (map appended_text rs))))"
  using assms(2-4)
proof (induction rs arbitrary: s t)
  case (Cons r rs)
  from Cons.prems(3) obtain s1 where a: "AppendPieceMetadata bad base taskID r s = Ret (None, s1)"
    "append_all bad base taskID rs s1 = Ret (None, s')"
    by (auto simp: obind_eq_Ret split: if_splits)
  have "task_ok base taskID s1" "task_files base taskID s1 = (d, m, Some (bytes_of (t @ appended_text r)))"
    using AppendPieceMetadata_task[OF assms(1) Cons.prems(1,2) a(1)] by auto
  from Cons.IH[OF this a(2)] show ?case by simp
qed simp

lemma append_all_fresh:
  assumes "id_ok taskID" "task_ok base taskID s" "task_files base taskID s = (d, m, None)" "rs \<noteq> []"
    "append_all bad base taskID rs s = Ret (None, s')"
  shows "task_ok base taskID s' \<and> task_files base taskID s' = (d, m, Some (bytes_of (concat (map appended_text rs))))"
proof -
  obtain r rs' where rs: "rs = r # rs'" using assms(4) by (cases rs) auto
  from assms(5) obtain s1 where a: "AppendPieceMetadata bad base taskID r s = Ret (None, s1)"
    "append_all bad base taskID rs' s1 = Ret (None, s')"
    by (auto simp: rs obind_eq_Ret split: if_splits)
  have "task_ok base taskID s1" "task_files base taskID s1 = (d, m, Some (bytes_of (appended_text r)))"
    using AppendPieceMetadata_task[OF assms(1-3) a(1)] by auto
  from append_all_task[OF assms(1) this a(2)] show ?thesis by (simp add: rs)
qed

lemma AppendPieceMetadata_ok:
  assumes "no_fail bad" "id_ok taskID" "task_ok base taskID s"
  shows "\<exists>s'. AppendPieceMetadata bad base taskID r s = Ret (None, s')"
  unfolding AppendPieceMetadata_def
  using assms task_in_dir[OF assms(2), of base] task_paths[OF assms(2), of base] bucket_prefix[of base taskID]
  by (intro PutBytes_ok[where dir = "task_dir base taskID"])
    (auto simp: task_ok_def GetAppendPieceMetadataRaw_def mk_raw_def simp del: Join_path.simps)

lemma WritePieceMetaRecords_ok:
  assumes "no_fail bad" "id_ok taskID" "task_ok base taskID s"
  shows "\<exists>s'. WritePieceMetaRecords bad base taskID rs s = Ret (None, s')"
  unfolding WritePieceMetaRecords_def
  using assms task_in_dir[OF assms(2), of base] task_paths[OF assms(2), of base] bucket_prefix[of base taskID]
  by (intro PutBytes_ok[where dir = "task_dir base taskID"])
    (auto simp: task_ok_def simp del: Join_path.simps)

lemma append_all_ok:
  assumes "no_fail bad" "id_ok taskID" "task_ok base taskID s"
  shows "\<exists>s'. append_all bad base taskID rs s = Ret (None, s')"
  using assms(3)
proof (induction rs arbitrary: s)
  case (Cons r rs)
  obtain s1 where a: "AppendPieceMetadata bad base taskID r s = Ret (None, s1)"
    using AppendPieceMetadata_ok[OF assms(1,2) Cons.prems] by blast
  have "task_ok base taskID s1"
    using AppendPieceMetadata_task[OF assms(2) Cons.prems _ a] by (cases "task_files base taskID s") auto
  from Cons.IH[OF this] show ?case using a by simp
qed simp

text \<open>
  C32. The records of the pieces survive the disk: records appended to the file of a task whose record file
  does not exist yet, each call of \<open>AppendPieceMetadata\<close> reporting success, are what
  \<open>ReadPieceMetaRecords\<close> reads, in the order of the calls; the other files of the task are as before.
\<close>

theorem piece_records_read_back:
  assumes "id_ok taskID" "task_ok base taskID s" "task_files base taskID s = (d, m, None)"
    and "\<forall>r \<in> set rs. record_ok r" "rs \<noteq> []" "length (concat (map appended_text rs)) < 2 ^ 63"
    and "append_all bad base taskID rs s = Ret (None, s')" "readable bad (piece_path base taskID)"
  shows "ReadPieceMetaRecords bad base taskID s' = Inr rs \<and>
    contents (data_path base taskID) s' = d \<and> contents (meta_path base taskID) s' = m"
proof -
  have f: "task_files base taskID s' = (d, m, Some (bytes_of (concat (map appended_text rs))))"
    using append_all_fresh[OF assms(1-3,5,7)] by simp
  show ?thesis
    using ReadPieceMetaRecords_task[OF assms(1) f assms(8,6)] records_of_appended[OF assms(5,4)] f
    by (simp add: task_files_def)
qed

text \<open>
  C39. A rewritten record file swallows the next record: \<open>WritePieceMetaRecords\<close> ends the file without a
  newline, so the first record appended after it lands on the last line. Up to piece number 127 the two
  are read as one record, the earlier piece with the later number as its style, and the appended piece is
  lost; beyond it the whole file is unreadable.
\<close>

theorem rewritten_records_swallow_next:
  assumes "id_ok taskID" "task_ok base taskID s" "\<forall>x \<in> set (rs @ r # r' # rs'). record_ok x" "pr_PieceStyle r = 0"
    and "WritePieceMetaRecords bad base taskID (rs @ [r]) s = Ret (None, s1)"
    and "append_all bad base taskID (r' # rs') s1 = Ret (None, s2)" "readable bad (piece_path base taskID)"
    and "length (rewritten_text (rs @ [r]) @ concat (map appended_text (r' # rs'))) < 2 ^ 63"
  shows "ReadPieceMetaRecords bad base taskID s2 =
    (if unat (pr_PieceNum r') \<le> 127 then Inr (rs @ r\<lparr>pr_PieceStyle := pr_PieceNum r'\<rparr> # rs')
     else Inl (DiskRecord InvalidPieceStyle))"
proof -
  obtain d m p where v: "task_files base taskID s = (d, m, p)" by (cases "task_files base taskID s")
  have w: "task_ok base taskID s1" "task_files base taskID s1 = (d, m, Some (bytes_of (rewritten_text (rs @ [r]))))"
    using WritePieceMetaRecords_task[OF assms(1,2) v assms(5)] by auto
  have "task_files base taskID s2 =
      (d, m, Some (bytes_of (rewritten_text (rs @ [r]) @ concat (map appended_text (r' # rs')))))"
    using append_all_task[OF assms(1) w assms(6)] by blast
  from ReadPieceMetaRecords_task[OF assms(1) this assms(7,8)] show ?thesis
    using records_of_glued[OF assms(3)] parse_glued[of r r'] assms(3,4) by simp
qed

section \<open>A small store\<close>

definition empty_fs :: fs where
  "empty_fs = \<lparr>entries = [], blocks = (\<lambda>_. []), next_inode = 0\<rparr>"

definition demo_record :: "nat \<Rightarrow> PieceMetaRecord" where
  "demo_record n =
     \<lparr>pr_PieceNum = of_nat n, pr_PieceLen = 4, pr_Md5 = ''0a'',
      pr_Range = Some \<lparr>StartIndex = of_nat (4 * n), EndIndex = of_nat (4 * n) + 3\<rparr>,
      pr_OriginRange = Some \<lparr>StartIndex = of_nat (4 * n), EndIndex = of_nat (4 * n) + 3\<rparr>, pr_PieceStyle = 0\<rparr>"

lemma empty_fs_task: "task_ok base taskID empty_fs" "task_files base taskID empty_fs = (None, None, None)"
  by (simp_all add: task_ok_def fs_ok_def plain_path_def empty_fs_def task_files_def contents_def)

lemma demo_record_ok: "record_ok (demo_record 0)" "record_ok (demo_record 1)"
  by (simp_all add: record_ok_def demo_record_def fieldSeparator_def IsSpace_def)

lemma demo_text_length:
  "length (concat (map appended_text [demo_record 1, demo_record 0])) = 34"
  "length (rewritten_text ([] @ [demo_record 0]) @ concat (map appended_text [demo_record 1])) = 33"
  by code_simp+

lemma no_fail_never: "no_fail (\<lambda>_ _. False)"
  by (simp add: no_fail_def)

theorem piece_records_read_back_witness:
  "\<exists>s'. append_all (\<lambda>_ _. False) ''/d'' ''task1'' [demo_record 1, demo_record 0] empty_fs = Ret (None, s') \<and>
        ReadPieceMetaRecords (\<lambda>_ _. False) ''/d'' ''task1'' s' = Inr [demo_record 1, demo_record 0]"
proof -
  have i: "id_ok ''task1''" by (simp add: id_ok_def)
  obtain s' where a: "append_all (\<lambda>_ _. False) ''/d'' ''task1'' [demo_record 1, demo_record 0] empty_fs = Ret (None, s')"
    using append_all_ok[OF no_fail_never i empty_fs_task(1)] by blast
  have "ReadPieceMetaRecords (\<lambda>_ _. False) ''/d'' ''task1'' s' = Inr [demo_record 1, demo_record 0]"
    using piece_records_read_back[OF i empty_fs_task _ _ _ a no_fail_readable[OF no_fail_never]]
      demo_record_ok demo_text_length(1) by simp
  with a show ?thesis by blast
qed

theorem rewritten_records_swallow_next_witness:
  "\<exists>s1 s2. WritePieceMetaRecords (\<lambda>_ _. False) ''/d'' ''task1'' [demo_record 0] empty_fs = Ret (None, s1) \<and>
     append_all (\<lambda>_ _. False) ''/d'' ''task1'' [demo_record 1] s1 = Ret (None, s2) \<and>
     ReadPieceMetaRecords (\<lambda>_ _. False) ''/d'' ''task1'' s2 = Inr [(demo_record 0)\<lparr>pr_PieceStyle := 1\<rparr>]"
proof -
  have i: "id_ok ''task1''" by (simp add: id_ok_def)
  obtain s1 where w: "WritePieceMetaRecords (\<lambda>_ _. False) ''/d'' ''task1'' ([] @ [demo_record 0]) empty_fs = Ret (None, s1)"
    using WritePieceMetaRecords_ok[OF no_fail_never i empty_fs_task(1)] by blast
  have "task_ok ''/d'' ''task1'' s1"
    using WritePieceMetaRecords_task[OF i empty_fs_task w] by blast
  then obtain s2 where a: "append_all (\<lambda>_ _. False) ''/d'' ''task1'' [demo_record 1] s1 = Ret (None, s2)"
    using append_all_ok[OF no_fail_never i] by blast
  have "pr_PieceStyle (demo_record 0) = 0" "pr_PieceNum (demo_record 1) = 1" by (simp_all add: demo_record_def)
  then have "ReadPieceMetaRecords (\<lambda>_ _. False) ''/d'' ''task1'' s2 = Inr [(demo_record 0)\<lparr>pr_PieceStyle := 1\<rparr>]"
    using rewritten_records_swallow_next[OF i empty_fs_task(1) _ _ w a no_fail_readable[OF no_fail_never]]
      demo_record_ok demo_text_length(2) by simp
  with w a show ?thesis by auto
qed

end
