(* ===== verification/Cdn_Tasks.thy ===== *)
theory Cdn_Tasks
  imports Ranges Ids "HOL-Library.Signed_Division"
begin

text \<open>
  The seed tasks of a CDN node: \<open>cdn/supervisor/task/task.go\<close>, \<open>manager.go\<close> and \<open>manager_util.go\<close>, and the
  piece size of \<open>internal/util/util.go\<close>. Tasks are objects on a heap, because \<open>AddOrUpdate\<close> works on the
  task that was registered first and on the one that is being registered; the map of pieces of a task
  is an object too, because a clone shares it. The parsing of URLs and the request for the content
  length are parameters.
\<close>

section \<open>Piece size\<close>

definition go_div :: "int64 \<Rightarrow> int64 \<Rightarrow> int64" where
  "go_div a b = of_int (sint a sdiv sint b)"

definition DefaultPieceSize :: int where "DefaultPieceSize = 4 * 1024 * 1024"

definition DefaultPieceSizeLimit :: int where "DefaultPieceSizeLimit = 15 * 1024 * 1024"

definition ComputePieceSize :: "int64 \<Rightarrow> uint32" where
  "ComputePieceSize len =
     (if sint len \<le> 200 * 1024 * 1024 then of_int DefaultPieceSize
      else
        let gapCount = go_div len (100 * 1024 * 1024);
            mpSize = (gapCount - 2) * 1024 * 1024 + of_int DefaultPieceSize
        in if sint mpSize > DefaultPieceSizeLimit then of_int DefaultPieceSizeLimit
           else of_int (sint mpSize))"

section \<open>task.go\<close>

record seed_PieceInfo =
  pi_PieceNum :: uint32
  pi_PieceMd5 :: string
  pi_PieceRange :: "Range option"
  pi_OriginRange :: "Range option"
  pi_PieceLen :: uint32
  pi_PieceStyle :: int32

type_synonym seed_ref = nat
type_synonym pieces_ref = nat
type_synonym seed_pieces = "(uint32, seed_PieceInfo) gomap"

text \<open>No code writes to the header map of a task except \<open>Clone\<close>, which writes what is there.\<close>

record SeedTask =
  sd_ID :: string
  sd_RawURL :: string
  sd_TaskURL :: string
  sd_SourceFileLength :: int64
  sd_CdnFileLength :: int64
  sd_PieceSize :: int32
  sd_CdnStatus :: string
  sd_TotalPieceCount :: int32
  sd_SourceRealDigest :: string
  sd_PieceMd5Sign :: string
  sd_Digest :: string
  sd_Tag :: string
  sd_Range :: string
  sd_Filter :: string
  sd_Header :: "(string, string) gomap option"
  sd_Pieces :: pieces_ref

record seed_heap =
  seeds :: "seed_ref \<Rightarrow> SeedTask"
  next_seed :: seed_ref
  piece_maps :: "pieces_ref \<Rightarrow> seed_pieces"
  next_pieces :: pieces_ref

definition StatusWaiting :: string where "StatusWaiting = ''WAITING''"

definition StatusRunning :: string where "StatusRunning = ''RUNNING''"

definition StatusFailed :: string where "StatusFailed = ''FAILED''"

definition StatusSuccess :: string where "StatusSuccess = ''SUCCESS''"

definition StatusSourceError :: string where "StatusSourceError = ''SOURCE_ERROR''"

definition UnknownSourceFileLen :: int64 where "UnknownSourceFileLen = -2"

definition UnknownTotalPieceCount :: int32 where "UnknownTotalPieceCount = -1"

text \<open>The fields of \<open>base.UrlMeta\<close> the constructor reads.\<close>

record seed_meta =
  sm_Digest :: string
  sm_Tag :: string
  sm_Range :: string
  sm_Filter :: string
  sm_Header :: "(string, string) gomap option"

definition NewSeedTask :: "'u net_url \<Rightarrow> string \<Rightarrow> string \<Rightarrow> seed_meta option \<Rightarrow> seed_heap \<Rightarrow> seed_ref \<times> seed_heap" where
  "NewSeedTask lib taskID rawURL urlMeta h =
     (let m = (case urlMeta of Some m \<Rightarrow> m
               | None \<Rightarrow> \<lparr>sm_Digest = [], sm_Tag = [], sm_Range = [], sm_Filter = [], sm_Header = None\<rparr>);
          t = \<lparr>sd_ID = taskID, sd_RawURL = rawURL,
               sd_TaskURL = FilterURLParam lib rawURL (Split (sm_Filter m) CHR ''&''),
               sd_SourceFileLength = UnknownSourceFileLen, sd_CdnFileLength = 0, sd_PieceSize = 0,
               sd_CdnStatus = StatusWaiting, sd_TotalPieceCount = UnknownTotalPieceCount,
               sd_SourceRealDigest = [], sd_PieceMd5Sign = [], sd_Digest = sm_Digest m, sd_Tag = sm_Tag m,
               sd_Range = sm_Range m, sd_Filter = sm_Filter m, sd_Header = sm_Header m, sd_Pieces = next_pieces h\<rparr>
      in (next_seed h,
          h\<lparr>seeds := (seeds h)(next_seed h := t), next_seed := next_seed h + 1,
            piece_maps := (piece_maps h)(next_pieces h := []), next_pieces := next_pieces h + 1\<rparr>))"

text \<open>The copy of the struct copies the reference to the map, so the loop over the pieces writes each piece to itself.\<close>

definition Clone :: "seed_ref \<Rightarrow> seed_heap \<Rightarrow> seed_ref \<times> seed_heap" where
  "Clone t h =
     (let c = seeds h t; m = piece_maps h (sd_Pieces c)
      in (next_seed h,
          h\<lparr>seeds := (seeds h)(next_seed h := c), next_seed := next_seed h + 1,
            piece_maps := (piece_maps h)(sd_Pieces c := fold (\<lambda>(k, p) m. Store k p m) m m)\<rparr>))"

definition seed_IsSuccess :: "SeedTask \<Rightarrow> bool" where
  "seed_IsSuccess t \<longleftrightarrow> sd_CdnStatus t = StatusSuccess"

definition IsFrozen :: "SeedTask \<Rightarrow> bool" where
  "IsFrozen t \<longleftrightarrow>
     sd_CdnStatus t = StatusFailed \<or> sd_CdnStatus t = StatusWaiting \<or> sd_CdnStatus t = StatusSourceError"

definition IsWait :: "SeedTask \<Rightarrow> bool" where
  "IsWait t \<longleftrightarrow> sd_CdnStatus t = StatusWaiting"

definition IsError :: "SeedTask \<Rightarrow> bool" where
  "IsError t \<longleftrightarrow> sd_CdnStatus t = StatusFailed \<or> sd_CdnStatus t = StatusSourceError"

definition seed_IsDone :: "SeedTask \<Rightarrow> bool" where
  "seed_IsDone t \<longleftrightarrow>
     sd_CdnStatus t = StatusFailed \<or> sd_CdnStatus t = StatusSuccess \<or> sd_CdnStatus t = StatusSourceError"

definition UpdateStatus :: "string \<Rightarrow> SeedTask \<Rightarrow> SeedTask" where
  "UpdateStatus cdnStatus t = t\<lparr>sd_CdnStatus := cdnStatus\<rparr>"

definition UpdateTaskInfo :: "string \<Rightarrow> string \<Rightarrow> string \<Rightarrow> int64 \<Rightarrow> int64 \<Rightarrow> SeedTask \<Rightarrow> SeedTask" where
  "UpdateTaskInfo cdnStatus realDigest pieceMd5Sign sourceFileLength cdnFileLength t =
     t\<lparr>sd_CdnStatus := cdnStatus, sd_PieceMd5Sign := pieceMd5Sign, sd_SourceRealDigest := realDigest,
       sd_SourceFileLength := sourceFileLength, sd_CdnFileLength := cdnFileLength\<rparr>"

definition upd_seed :: "seed_ref \<Rightarrow> (SeedTask \<Rightarrow> SeedTask) \<Rightarrow> seed_heap \<Rightarrow> seed_heap" where
  "upd_seed t f h = h\<lparr>seeds := (seeds h)(t := f (seeds h t))\<rparr>"

definition StartTrigger :: "seed_ref \<Rightarrow> seed_heap \<Rightarrow> seed_heap" where
  "StartTrigger t h =
     (upd_seed t (\<lambda>x. x\<lparr>sd_CdnStatus := StatusRunning, sd_Pieces := next_pieces h\<rparr>) h)
       \<lparr>piece_maps := (piece_maps h)(next_pieces h := []), next_pieces := next_pieces h + 1\<rparr>"

definition pieces_of :: "seed_ref \<Rightarrow> seed_heap \<Rightarrow> seed_pieces" where
  "pieces_of t h = piece_maps h (sd_Pieces (seeds h t))"

section \<open>manager.go\<close>

datatype seed_task_error =
  errTaskNotFound | errURLUnreachable | errTaskIDConflict | errBadURL | errNotReachable | errSource
| errNilUpdate | errNoStatus

text \<open>The keys of a \<open>sync.Map\<close> are values of any type; the code uses strings and one pointer.\<close>

datatype any_key = KString string | KTask seed_ref

record seed_manager =
  tm_FailAccessInterval :: time
  tm_ExpireTime :: time
  taskStore :: "(string, seed_ref) gomap"
  accessTimeMap :: "(string, time) gomap"
  taskURLUnreachableStore :: "(any_key, time) gomap"
  tm_heap :: seed_heap

definition NewTaskManager :: "time \<Rightarrow> time \<Rightarrow> seed_heap \<Rightarrow> seed_manager" where
  "NewTaskManager failAccessInterval expireTime h =
     \<lparr>tm_FailAccessInterval = failAccessInterval, tm_ExpireTime = expireTime, taskStore = [], accessTimeMap = [],
      taskURLUnreachableStore = [], tm_heap = h\<rparr>"

abbreviation seed_at :: "seed_manager \<Rightarrow> seed_ref \<Rightarrow> SeedTask" where
  "seed_at tm t \<equiv> seeds (tm_heap tm) t"

definition tm_upd :: "seed_ref \<Rightarrow> (SeedTask \<Rightarrow> SeedTask) \<Rightarrow> seed_manager \<Rightarrow> seed_manager" where
  "tm_upd t f tm = tm\<lparr>tm_heap := upd_seed t f (tm_heap tm)\<rparr>"

definition tm_touch :: "time \<Rightarrow> string \<Rightarrow> seed_manager \<Rightarrow> seed_manager" where
  "tm_touch now taskID tm = tm\<lparr>accessTimeMap := Store taskID now (accessTimeMap tm)\<rparr>"

definition getTask :: "string \<Rightarrow> seed_manager \<Rightarrow> seed_ref option" where
  "getTask taskID tm = Load (taskStore tm) taskID"

definition deleteTask :: "string \<Rightarrow> seed_manager \<Rightarrow> seed_manager" where
  "deleteTask taskID tm =
     tm\<lparr>accessTimeMap := Delete taskID (accessTimeMap tm),
        taskURLUnreachableStore := Delete (KString taskID) (taskURLUnreachableStore tm),
        taskStore := Delete taskID (taskStore tm)\<rparr>"

definition getTaskAccessTime :: "string \<Rightarrow> seed_manager \<Rightarrow> time option" where
  "getTaskAccessTime taskID tm = Load (accessTimeMap tm) taskID"

definition getTaskUnreachableTime :: "string \<Rightarrow> seed_manager \<Rightarrow> time option" where
  "getTaskUnreachableTime taskID tm = Load (taskURLUnreachableStore tm) (KString taskID)"

definition IsSame :: "seed_manager \<Rightarrow> seed_ref \<Rightarrow> seed_ref \<Rightarrow> bool" where
  "IsSame tm t1 t2 =
     (let task1 = seed_at tm t1; task2 = seed_at tm t2
      in if t1 = t2 then True
         else if sd_ID task1 \<noteq> sd_ID task2 then False
         else if sd_TaskURL task1 \<noteq> sd_TaskURL task2 then False
         else if sd_Range task1 \<noteq> sd_Range task2 then False
         else if sd_Tag task1 \<noteq> sd_Tag task2 then False
         else if sd_Digest task1 \<noteq> sd_Digest task2 then False
         else if sd_Filter task1 \<noteq> sd_Filter task2 then False
         else True)"

text \<open>
  What the manager calls of \<open>pkg/source\<close>: whether the URL parses, and the content length for a URL and
  request headers; an error tells whether the resource was not reachable.
\<close>

record source_lib =
  url_ok :: "string \<Rightarrow> bool"
  content_length :: "string \<Rightarrow> (string \<times> string) list \<Rightarrow> bool + int64"

text \<open>
  \<open>AddOrUpdate\<close> in its parts. Under the read lock the task is looked up or stored: an answer, or the task
  whose length is to be found.
\<close>

type_synonym add_result = "seed_ref option \<times> seed_task_error option"

definition load_or_store :: "seed_ref \<Rightarrow> seed_manager \<Rightarrow> (add_result + seed_ref) \<times> seed_manager" where
  "load_or_store registerTask tm =
     (case LoadOrStore (sd_ID (seed_at tm registerTask)) registerTask (taskStore tm) of
        ((seedTask, loaded), store) \<Rightarrow>
          let tm' = tm\<lparr>taskStore := store\<rparr>
          in if loaded \<and> \<not> IsSame tm' seedTask registerTask then (Inl (None, Some errTaskIDConflict), tm')
             else if sd_SourceFileLength (seed_at tm' seedTask) \<noteq> UnknownSourceFileLen
             then (Inl (Some seedTask, None), tm')
             else (Inr seedTask, tm'))"

definition register_seed :: "time \<Rightarrow> seed_ref \<Rightarrow> seed_manager \<Rightarrow> (add_result + seed_ref) \<times> seed_manager" where
  "register_seed now registerTask tm =
     (let taskID = sd_ID (seed_at tm registerTask)
      in case getTaskUnreachableTime taskID tm of
           Some unreachableTime \<Rightarrow>
             if now - unreachableTime < tm_FailAccessInterval tm then (Inl (None, Some errURLUnreachable), tm)
             else load_or_store registerTask
                    (tm\<lparr>taskURLUnreachableStore := Delete (KString taskID) (taskURLUnreachableStore tm)\<rparr>)
         | None \<Rightarrow> load_or_store registerTask tm)"

text \<open>Under the write lock the length is asked for, unless another caller has found it meanwhile.\<close>

definition length_headers :: "SeedTask \<Rightarrow> (string \<times> string) list" where
  "length_headers t =
     (case sd_Header t of None \<Rightarrow> [] | Some m \<Rightarrow> m) @ (if IsBlank (sd_Range t) then [] else [(''Range'', sd_Range t)])"

definition set_length :: "seed_ref \<Rightarrow> seed_ref \<Rightarrow> int64 \<Rightarrow> seed_manager \<Rightarrow> seed_manager" where
  "set_length registerTask seedTask sourceFileLength tm =
     (let tm1 = tm_upd seedTask (\<lambda>t. t\<lparr>sd_SourceFileLength := sourceFileLength\<rparr>) tm;
          tm2 = (if sd_Header (seed_at tm1 registerTask) \<noteq> None
                 then tm_upd seedTask (\<lambda>t. t\<lparr>sd_Header := sd_Header (seed_at tm1 registerTask)\<rparr>) tm1 else tm1);
          len = sd_SourceFileLength (seed_at tm2 registerTask);
          pieceSize = ComputePieceSize len;
          tm3 = tm_upd seedTask (\<lambda>t. t\<lparr>sd_PieceSize := pieceSize\<rparr>) tm2
      in if sint sourceFileLength > 0
         then tm_upd seedTask
                (\<lambda>t. t\<lparr>sd_TotalPieceCount :=
                      of_int (sint (go_div (len + (of_nat (unat pieceSize) - 1)) (of_nat (unat pieceSize))))\<rparr>) tm3
         else tm3)"

definition fetch_length :: "source_lib \<Rightarrow> time \<Rightarrow> seed_ref \<Rightarrow> seed_ref \<Rightarrow> seed_manager \<Rightarrow> add_result \<times> seed_manager" where
  "fetch_length lib now registerTask seedTask tm =
     (if sd_SourceFileLength (seed_at tm seedTask) \<noteq> UnknownSourceFileLen then ((Some seedTask, None), tm)
      else
        let reg = seed_at tm registerTask
        in if \<not> url_ok lib (sd_RawURL reg) then ((None, Some errBadURL), tm)
           else case content_length lib (sd_RawURL reg) (length_headers reg) of
                  Inl notReachable \<Rightarrow>
                    ((Some seedTask, Some (if notReachable then errNotReachable else errSource)),
                     if notReachable
                     then tm\<lparr>taskURLUnreachableStore := Store (KTask registerTask) now (taskURLUnreachableStore tm)\<rparr>
                     else tm)
                | Inr sourceFileLength \<Rightarrow> ((Some seedTask, None), set_length registerTask seedTask sourceFileLength tm))"

definition AddOrUpdate :: "source_lib \<Rightarrow> time \<Rightarrow> seed_ref \<Rightarrow> seed_manager \<Rightarrow> add_result \<times> seed_manager" where
  "AddOrUpdate lib now registerTask tm =
     (let (res, tm') = (case register_seed now registerTask tm of
                          (Inl r, tm1) \<Rightarrow> (r, tm1)
                        | (Inr seedTask, tm1) \<Rightarrow> fetch_length lib now registerTask seedTask tm1)
      in (res, if snd res \<noteq> None then tm_touch now (sd_ID (seed_at tm' registerTask)) tm' else tm'))"

definition tm_Get :: "time \<Rightarrow> string \<Rightarrow> seed_manager \<Rightarrow> (seed_task_error + seed_ref) \<times> seed_manager" where
  "tm_Get now taskID tm =
     (case getTask taskID tm of
        Some t \<Rightarrow> (Inr t, tm_touch now taskID tm)
      | None \<Rightarrow> (Inl errTaskNotFound, tm))"

definition updateTask :: "string \<Rightarrow> SeedTask option \<Rightarrow> seed_manager \<Rightarrow> seed_task_error option \<times> seed_manager" where
  "updateTask taskID updateTaskInfo tm =
     (case updateTaskInfo of
        None \<Rightarrow> (Some errNilUpdate, tm)
      | Some u \<Rightarrow>
          if IsBlank (sd_CdnStatus u) then (Some errNoStatus, tm)
          else
            case getTask taskID tm of
              None \<Rightarrow> (Some errTaskNotFound, tm)
            | Some t \<Rightarrow>
                if \<not> seed_IsSuccess u
                then if seed_IsSuccess (seed_at tm t) then (None, tm)
                     else (None, tm_upd t (\<lambda>x. x\<lparr>sd_CdnStatus := sd_CdnStatus u\<rparr>) tm)
                else
                  (None, tm_upd t (\<lambda>x.
                     let x1 = (if sint (sd_CdnFileLength u) > 0 then x\<lparr>sd_CdnFileLength := sd_CdnFileLength u\<rparr> else x);
                         x2 = (if \<not> IsBlank (sd_SourceRealDigest u)
                               then x1\<lparr>sd_SourceRealDigest := sd_SourceRealDigest u\<rparr> else x1);
                         x3 = (if \<not> IsBlank (sd_PieceMd5Sign u) then x2\<lparr>sd_PieceMd5Sign := sd_PieceMd5Sign u\<rparr> else x2);
                         x4 = (if sint (sd_SourceFileLength u) \<ge> 0
                               then x3\<lparr>sd_TotalPieceCount := sd_TotalPieceCount u,
                                       sd_SourceFileLength := sd_SourceFileLength u\<rparr> else x3)
                     in x4\<lparr>sd_CdnStatus := sd_CdnStatus u\<rparr>) tm))"

definition tm_Update :: "time \<Rightarrow> string \<Rightarrow> SeedTask option \<Rightarrow> seed_manager \<Rightarrow> seed_task_error option \<times> seed_manager" where
  "tm_Update now taskID taskInfo tm =
     (case updateTask taskID taskInfo tm of
        (Some e, tm') \<Rightarrow> (Some e, tm')
      | (None, tm') \<Rightarrow> (None, tm_touch now taskID tm'))"

definition tm_UpdateProgress :: "time \<Rightarrow> string \<Rightarrow> seed_PieceInfo \<Rightarrow> seed_manager \<Rightarrow> seed_task_error option \<times> seed_manager" where
  "tm_UpdateProgress now taskID info tm =
     (case getTask taskID tm of
        None \<Rightarrow> (Some errTaskNotFound, tm)
      | Some t \<Rightarrow>
          let h = tm_heap tm; m = sd_Pieces (seeds h t)
          in (None, tm_touch now taskID
                      (tm\<lparr>tm_heap := h\<lparr>piece_maps := (piece_maps h)(m := Store (pi_PieceNum info) info (piece_maps h m))\<rparr>\<rparr>)))"

definition tm_GetProgress :: "time \<Rightarrow> string \<Rightarrow> seed_manager \<Rightarrow> (seed_task_error + pieces_ref) \<times> seed_manager" where
  "tm_GetProgress now taskID tm =
     (case getTask taskID tm of
        None \<Rightarrow> (Inl errTaskNotFound, tm)
      | Some t \<Rightarrow> (Inr (sd_Pieces (seed_at tm t)), tm_touch now taskID tm))"

definition tm_Exist :: "string \<Rightarrow> seed_manager \<Rightarrow> seed_ref option" where
  "tm_Exist taskID tm = getTask taskID tm"

definition tm_Delete :: "string \<Rightarrow> seed_manager \<Rightarrow> seed_manager" where
  "tm_Delete taskID tm = deleteTask taskID tm"

text \<open>The range visits each key once, with the access time stored for it.\<close>

definition tm_GC :: "time \<Rightarrow> seed_manager \<Rightarrow> seed_manager" where
  "tm_GC now tm =
     fold (\<lambda>(taskID, atime) tm. if now - atime < tm_ExpireTime tm then tm else deleteTask taskID tm)
       (accessTimeMap tm) tm"

end
