(* ===== verification/Cdn_Task_Facts.thy ===== *)
theory Cdn_Task_Facts
  imports Cdn_Tasks
begin

text \<open>
  What the manager of seed tasks guarantees: piece sizes and counts, what a registration remembers, what
  the collector takes, and that success is final.
\<close>

section \<open>Piece sizes and counts\<close>










text \<open>The number of pieces as \<open>set_length\<close> computes it from a length and a size.\<close>

definition piece_count :: "int64 \<Rightarrow> uint32 \<Rightarrow> int32" where
  "piece_count len pieceSize =
     of_int (sint (go_div (len + (of_nat (unat pieceSize) - 1)) (of_nat (unat pieceSize))))"



section \<open>Registration\<close>

lemma tm_upd_simps [simp]:
  "taskStore (tm_upd t f tm) = taskStore tm" "accessTimeMap (tm_upd t f tm) = accessTimeMap tm"
  "taskURLUnreachableStore (tm_upd t f tm) = taskURLUnreachableStore tm"
  "tm_ExpireTime (tm_upd t f tm) = tm_ExpireTime tm"
  "seed_at (tm_upd t f tm) u = (if u = t then f (seed_at tm t) else seed_at tm u)"
  by (simp_all add: tm_upd_def upd_seed_def)

lemma tm_touch_simps [simp]:
  "taskStore (tm_touch now k tm) = taskStore tm" "tm_heap (tm_touch now k tm) = tm_heap tm"
  "taskURLUnreachableStore (tm_touch now k tm) = taskURLUnreachableStore tm"
  "accessTimeMap (tm_touch now k tm) = Store k now (accessTimeMap tm)"
  "tm_ExpireTime (tm_touch now k tm) = tm_ExpireTime tm"
  by (simp_all add: tm_touch_def)

lemma set_length_simps [simp]:
  "taskStore (set_length r t n tm) = taskStore tm" "accessTimeMap (set_length r t n tm) = accessTimeMap tm"
  "taskURLUnreachableStore (set_length r t n tm) = taskURLUnreachableStore tm"
  "u \<noteq> t \<Longrightarrow> seed_at (set_length r t n tm) u = seed_at tm u"
  "sd_ID (seed_at (set_length r t n tm) u) = sd_ID (seed_at tm u)"
  "sd_CdnStatus (seed_at (set_length r t n tm) u) = sd_CdnStatus (seed_at tm u)"
  by (simp_all add: set_length_def Let_def)

lemma set_length_task:
  "sd_SourceFileLength (seed_at (set_length r t n tm) t) = n"
  "sd_PieceSize (seed_at (set_length r t n tm) t) =
     ComputePieceSize (if r = t then n else sd_SourceFileLength (seed_at tm r))"
  "0 < sint n \<Longrightarrow> sd_TotalPieceCount (seed_at (set_length r t n tm) t) =
     piece_count (if r = t then n else sd_SourceFileLength (seed_at tm r))
       (ComputePieceSize (if r = t then n else sd_SourceFileLength (seed_at tm r)))"
  by (simp_all add: set_length_def Let_def piece_count_def)

lemma register_seed_new:
  assumes "getTaskUnreachableTime (sd_ID (seed_at tm r)) tm = None" "Load (taskStore tm) (sd_ID (seed_at tm r)) = None"
    "sd_SourceFileLength (seed_at tm r) = UnknownSourceFileLen"
  shows "register_seed now r tm = (Inr r, tm\<lparr>taskStore := Store (sd_ID (seed_at tm r)) r (taskStore tm)\<rparr>)"
  using assms by (simp add: register_seed_def load_or_store_def LoadOrStore_def)

lemma IsSame_store [simp]: "IsSame (tm\<lparr>taskStore := x\<rparr>) t r = IsSame tm t r"
  by (simp add: IsSame_def)

lemma register_seed_known:
  assumes "getTaskUnreachableTime (sd_ID (seed_at tm r)) tm = None" "Load (taskStore tm) (sd_ID (seed_at tm r)) = Some t"
    "IsSame tm t r" "sd_SourceFileLength (seed_at tm t) = UnknownSourceFileLen"
  shows "register_seed now r tm = (Inr t, tm)"
  using assms by (simp add: register_seed_def load_or_store_def LoadOrStore_def)


text \<open>
  A registration that is repeated after a failure to reach the source gives the task no pieces: the first
  call stores the task and fails, the second call, with a task object of its own, finds the length but
  computes piece size and count from the unknown length of its own object. The task then has the
  length of the source, the smallest piece size and zero pieces.
\<close>

theorem repeated_registration_no_pieces:
  assumes "getTaskUnreachableTime (sd_ID (seed_at tm a)) tm = None" "Load (taskStore tm) (sd_ID (seed_at tm a)) = None"
    "a \<noteq> b" "IsSame tm a b" "sd_SourceFileLength (seed_at tm a) = UnknownSourceFileLen"
    "sd_SourceFileLength (seed_at tm b) = UnknownSourceFileLen"
    "url_ok lib (sd_RawURL (seed_at tm a))" "url_ok lib' (sd_RawURL (seed_at tm b))"
    "content_length lib (sd_RawURL (seed_at tm a)) (length_headers (seed_at tm a)) = Inl True"
    "content_length lib' (sd_RawURL (seed_at tm b)) (length_headers (seed_at tm b)) = Inr n" "0 < sint n"
  shows "\<exists>tm1 tm2. AddOrUpdate lib now a tm = ((Some a, Some errNotReachable), tm1) \<and>
    AddOrUpdate lib' now' b tm1 = ((Some a, None), tm2) \<and>
    sd_SourceFileLength (seed_at tm2 a) = n \<and> sint (sd_PieceSize (seed_at tm2 a)) = 4 * 1024 * 1024 \<and>
    sd_TotalPieceCount (seed_at tm2 a) = 0"
proof -
  let ?id = "sd_ID (seed_at tm a)"
  define tm1 where "tm1 = tm_touch now ?id (tm\<lparr>taskStore := Store ?id a (taskStore tm),
      taskURLUnreachableStore := Store (KTask a) now (taskURLUnreachableStore tm)\<rparr>)"
  have id: "sd_ID (seed_at tm b) = ?id" using assms(3,4) by (simp add: IsSame_def Let_def split: if_splits)
  have 1: "AddOrUpdate lib now a tm = ((Some a, Some errNotReachable), tm1)"
    using assms register_seed_new[OF assms(1,2,5), of now] by (simp add: AddOrUpdate_def fetch_length_def tm1_def)
  have heap: "tm_heap tm1 = tm_heap tm" by (simp add: tm1_def)
  have "register_seed now' b tm1 = (Inr a, tm1)"
    using assms heap id
    by (intro register_seed_known)
      (auto simp: tm1_def getTaskUnreachableTime_def Load_Store IsSame_def)
  then have 2: "AddOrUpdate lib' now' b tm1 = ((Some a, None), set_length b a n tm1)"
    using assms heap by (simp add: AddOrUpdate_def fetch_length_def)
  have s: "ComputePieceSize UnknownSourceFileLen = 4 * 1024 * 1024" "piece_count UnknownSourceFileLen (4 * 1024 * 1024) = 0"
    by (simp_all add: ComputePieceSize_def UnknownSourceFileLen_def DefaultPieceSize_def piece_count_def go_div_def
        signed_divide_int_def)
  have "sd_SourceFileLength (seed_at (set_length b a n tm1) a) = n"
    "sint (sd_PieceSize (seed_at (set_length b a n tm1) a)) = 4 * 1024 * 1024"
    "sd_TotalPieceCount (seed_at (set_length b a n tm1) a) = 0"
    using assms(3,6,11) heap s by (simp_all add: set_length_task)
  then show ?thesis using 1 2 by blast
qed

section \<open>All calls in any order\<close>

text \<open>
  The steps of the manager: a new task object, the two sections of \<open>AddOrUpdate\<close> and its deferred access
  time, every other call, a collection, and \<open>StartTrigger\<close>, which the service calls on a frozen task.
\<close>

inductive tm_step :: "seed_manager \<Rightarrow> seed_manager \<Rightarrow> bool" where
  new: "tm_step tm (tm\<lparr>tm_heap := snd (NewSeedTask (lib :: string net_url) taskID rawURL urlMeta (tm_heap tm))\<rparr>)"
| register: "tm_step tm (snd (register_seed now r tm))"
| fetch: "tm_step tm (snd (fetch_length lib now r t tm))"
| access: "tm_step tm (tm_touch now taskID tm)"
| get: "tm_step tm (snd (tm_Get now taskID tm))"
| update: "tm_step tm (snd (tm_Update now taskID info tm))"
| progress: "tm_step tm (snd (tm_UpdateProgress now taskID piece tm))"
| get_progress: "tm_step tm (snd (tm_GetProgress now taskID tm))"
| delete: "tm_step tm (tm_Delete taskID tm)"
| collect: "tm_step tm (tm_GC now tm)"
| trigger: "IsFrozen (seed_at tm t) \<Longrightarrow> tm_step tm (tm\<lparr>tm_heap := StartTrigger t (tm_heap tm)\<rparr>)"

lemma deleteTask_simps [simp]:
  "tm_heap (deleteTask k tm) = tm_heap tm" "tm_ExpireTime (deleteTask k tm) = tm_ExpireTime tm"
  "taskStore (deleteTask k tm) = Delete k (taskStore tm)" "accessTimeMap (deleteTask k tm) = Delete k (accessTimeMap tm)"
  "taskURLUnreachableStore (deleteTask k tm) = Delete (KString k) (taskURLUnreachableStore tm)"
  by (simp_all add: deleteTask_def)

definition gc_visit :: "time \<Rightarrow> string \<times> time \<Rightarrow> seed_manager \<Rightarrow> seed_manager" where
  "gc_visit now = (\<lambda>(taskID, atime) tm. if now - atime < tm_ExpireTime tm then tm else deleteTask taskID tm)"

lemma tm_GC_fold: "tm_GC now tm = fold (gc_visit now) (accessTimeMap tm) tm"
  by (simp add: tm_GC_def gc_visit_def)

lemma gc_fold_heap: "tm_heap (fold (gc_visit now) xs tm) = tm_heap tm"
  by (induction xs arbitrary: tm) (auto simp: gc_visit_def split: prod.splits)

text \<open>No task identifier is among the unreachable ones.\<close>

definition no_unreachable :: "seed_manager \<Rightarrow> bool" where
  "no_unreachable tm \<longleftrightarrow> (\<forall>k. Load (taskURLUnreachableStore tm) (KString k) = None)"

lemma no_unreachable_Delete: "no_unreachable tm \<Longrightarrow> no_unreachable (deleteTask k tm)"
  by (simp add: no_unreachable_def Load_Delete)

lemma gc_fold_unreachable: "no_unreachable tm \<Longrightarrow> no_unreachable (fold (gc_visit now) xs tm)"
  by (induction xs arbitrary: tm) (auto simp: gc_visit_def no_unreachable_Delete split: prod.splits)

lemma no_unreachable_frame:
  "no_unreachable (tm\<lparr>taskStore := x\<rparr>) = no_unreachable tm" "no_unreachable (tm\<lparr>tm_heap := h\<rparr>) = no_unreachable tm"
  "no_unreachable (tm_touch now k tm) = no_unreachable tm" "no_unreachable (tm_upd t f tm) = no_unreachable tm"
  "no_unreachable (set_length r t n tm) = no_unreachable tm"
  by (simp_all add: no_unreachable_def)

lemma register_seed_unreachable: "no_unreachable tm \<Longrightarrow> no_unreachable (snd (register_seed now r tm))"
  by (auto simp: register_seed_def load_or_store_def getTaskUnreachableTime_def no_unreachable_frame Let_def
      no_unreachable_def[of tm] LoadOrStore_def split: option.split prod.split)

lemma fetch_length_unreachable: "no_unreachable tm \<Longrightarrow> no_unreachable (snd (fetch_length lib now r t tm))"
  by (auto simp: fetch_length_def no_unreachable_frame Let_def split: sum.split)
    (simp add: no_unreachable_def Load_Store)

lemma updateTask_unreachable: "no_unreachable tm \<Longrightarrow> no_unreachable (snd (updateTask k u tm))"
  by (auto simp: updateTask_def no_unreachable_frame split: option.split)

lemma tm_step_unreachable:
  assumes "tm_step tm tm'" "no_unreachable tm"
  shows "no_unreachable tm'"
  using assms
proof cases
  case (update now taskID info)
  then show ?thesis
    using updateTask_unreachable[OF assms(2), of taskID info]
    by (auto simp: tm_Update_def no_unreachable_frame split: prod.split option.split)
qed (auto simp: register_seed_unreachable fetch_length_unreachable no_unreachable_frame tm_Get_def tm_UpdateProgress_def
      tm_GetProgress_def tm_Delete_def no_unreachable_Delete tm_GC_fold gc_fold_unreachable Let_def split: option.split)

text \<open>
  The manager never refuses a registration because the source was unreachable a moment ago: whatever calls
  it has served, \<open>AddOrUpdate\<close> does not return \<open>errURLUnreachable\<close>. The time of the failure is stored under the
  task object and looked up under its identifier, so the interval configured for such failures has no effect.
\<close>

theorem unreachable_source_not_remembered:
  assumes "tm_step\<^sup>*\<^sup>* (NewTaskManager failAccessInterval expireTime h) tm"
  shows "snd (fst (AddOrUpdate lib now r tm)) \<noteq> Some errURLUnreachable"
proof -
  have "no_unreachable tm"
    using assms by (induction rule: rtranclp_induct)
      (auto simp: NewTaskManager_def no_unreachable_def Load_Nil intro: tm_step_unreachable[unfolded no_unreachable_def, rule_format])
  then have "getTaskUnreachableTime k tm = None" for k by (simp add: no_unreachable_def getTaskUnreachableTime_def)
  then show ?thesis
    by (auto simp: AddOrUpdate_def register_seed_def load_or_store_def fetch_length_def Let_def
        split: prod.splits sum.splits if_splits)
qed

section \<open>Collection\<close>

lemma gc_fold_Load:
  assumes "distinct (map fst xs)"
  shows "Load (taskStore (fold (gc_visit now) xs tm)) k =
    (case Load xs k of Some a \<Rightarrow> if now - a < tm_ExpireTime tm then Load (taskStore tm) k else None
     | None \<Rightarrow> Load (taskStore tm) k)"
  using assms
proof (induction xs arbitrary: tm)
  case (Cons x xs)
  obtain j a where x: "x = (j, a)" by fastforce
  have e: "tm_ExpireTime (gc_visit now x tm) = tm_ExpireTime tm" by (simp add: x gc_visit_def)
  have "j \<notin> fst ` set xs" using Cons.prems by (simp add: x)
  then have "Load xs j = None" by (simp add: Load_None_iff)
  then show ?case
    using Cons.IH[of "gc_visit now x tm"] Cons.prems
    by (auto simp: e Load_Cons x gc_visit_def Load_Delete split: option.split)
qed (simp add: Load_Nil)

text \<open>
  C38. The collector of seed tasks takes exactly the tasks whose last access is older than the expiry, and a
  successful registration of a task that has no access time gives it none: such a task is kept by every
  later collection, however late, until some call asks for it.
\<close>

theorem registered_task_never_collected:
  assumes "wf_map (accessTimeMap tm)" "AddOrUpdate lib now r tm = ((Some t, None), tm')"
    and "Load (accessTimeMap tm) taskID = None"
  shows "Load (taskStore (tm_GC late tm')) k =
      (case Load (accessTimeMap tm') k of
         Some a \<Rightarrow> if late - a < tm_ExpireTime tm' then Load (taskStore tm') k else None
       | None \<Rightarrow> Load (taskStore tm') k) \<and>
    tm_Exist taskID (tm_GC late tm') = tm_Exist taskID tm'"
proof -
  have "accessTimeMap tm' = accessTimeMap tm"
    using assms(2)
    by (auto simp: AddOrUpdate_def register_seed_def load_or_store_def fetch_length_def Let_def
        split: prod.splits sum.splits if_splits option.splits)
  then show ?thesis
    using assms(1,3) gc_fold_Load[of "accessTimeMap tm'" late tm'] by (simp add: tm_GC_fold tm_Exist_def getTask_def)
qed

section \<open>Success is final\<close>

lemma updateTask_success:
  assumes "seed_IsSuccess (seed_at tm t)"
  shows "seed_IsSuccess (seed_at (snd (updateTask k u tm)) t)"
  using assms by (auto simp: updateTask_def seed_IsSuccess_def Let_def split: option.split)

lemma StartTrigger_other: "t \<noteq> u \<Longrightarrow> seeds (StartTrigger u h) t = seeds h t"
  by (simp add: StartTrigger_def upd_seed_def)

lemma success_not_frozen: "seed_IsSuccess x \<Longrightarrow> \<not> IsFrozen x"
  by (simp add: seed_IsSuccess_def IsFrozen_def StatusSuccess_def StatusFailed_def StatusWaiting_def StatusSourceError_def)

lemma register_seed_heap: "tm_heap (snd (register_seed now r tm)) = tm_heap tm"
  by (auto simp: register_seed_def load_or_store_def Let_def split: option.split prod.split)

lemma fetch_length_status: "sd_CdnStatus (seed_at (snd (fetch_length lib now r u tm)) t) = sd_CdnStatus (seed_at tm t)"
  by (auto simp: fetch_length_def Let_def split: sum.split)

lemma next_seed_kept:
  "next_seed (tm_heap (tm_upd t f tm)) = next_seed (tm_heap tm)"
  "next_seed (tm_heap (set_length r t n tm)) = next_seed (tm_heap tm)"
  "next_seed (StartTrigger t h) = next_seed h"
  by (simp_all add: tm_upd_def upd_seed_def set_length_def Let_def StartTrigger_def)

lemma fetch_length_next: "next_seed (tm_heap (snd (fetch_length lib now r u tm))) = next_seed (tm_heap tm)"
  by (auto simp: fetch_length_def Let_def next_seed_kept split: sum.split)

lemma updateTask_next: "next_seed (tm_heap (snd (updateTask k u tm))) = next_seed (tm_heap tm)"
  by (auto simp: updateTask_def next_seed_kept split: option.split)

lemma tm_step_success:
  assumes "tm_step tm tm'" "t < next_seed (tm_heap tm)" "seed_IsSuccess (seed_at tm t)"
  shows "seed_IsSuccess (seed_at tm' t) \<and> t < next_seed (tm_heap tm')"
  using assms(1)
proof cases
  case (update now taskID info)
  then show ?thesis
    using updateTask_success[OF assms(3), of taskID info] updateTask_next[of taskID info tm] assms(2)
    by (auto simp: tm_Update_def split: prod.splits option.splits)
next
  case (trigger u)
  then have "t \<noteq> u" using success_not_frozen[OF assms(3)] by auto
  then show ?thesis using trigger assms(2,3) by (simp add: StartTrigger_other next_seed_kept)
qed (use assms(2,3) in \<open>auto simp: NewSeedTask_def Let_def register_seed_heap fetch_length_status fetch_length_next
      seed_IsSuccess_def tm_Get_def tm_UpdateProgress_def tm_GetProgress_def tm_Delete_def tm_GC_fold gc_fold_heap
      split: option.split\<close>)

text \<open>
  C35. Success is final: once a seed task is successful, no sequence of calls, of collections and of triggers
  by the service takes that status back; in particular a late failure report leaves it successful.
\<close>

theorem seed_success_final:
  assumes "tm_step\<^sup>*\<^sup>* tm tm'" "t < next_seed (tm_heap tm)" "seed_IsSuccess (seed_at tm t)"
  shows "seed_IsSuccess (seed_at tm' t) \<and> \<not> IsFrozen (seed_at tm' t)"
proof -
  have "seed_IsSuccess (seed_at tm' t) \<and> t < next_seed (tm_heap tm')"
    using assms(1) by (induction rule: rtranclp_induct) (use assms(2,3) tm_step_success in blast)+
  then show ?thesis using success_not_frozen by blast
qed

section \<open>A small manager\<close>

definition demo_url :: "string net_url" where
  "demo_url = \<lparr>url_Parse = (\<lambda>s. Some s), url_Query = (\<lambda>_. []), url_with_query = (\<lambda>u _. u),
               url_Scheme = (\<lambda>_. ''http''), url_Host = (\<lambda>_. ''h'')\<rparr>"

definition demo_source :: "(bool + int64) \<Rightarrow> source_lib" where
  "demo_source answer = \<lparr>url_ok = (\<lambda>_. True), content_length = (\<lambda>_ _. answer)\<rparr>"

definition no_seed :: SeedTask where
  "no_seed = \<lparr>sd_ID = [], sd_RawURL = [], sd_TaskURL = [], sd_SourceFileLength = 0, sd_CdnFileLength = 0, sd_PieceSize = 0,
     sd_CdnStatus = [], sd_TotalPieceCount = 0, sd_SourceRealDigest = [], sd_PieceMd5Sign = [], sd_Digest = [],
     sd_Tag = [], sd_Range = [], sd_Filter = [], sd_Header = None, sd_Pieces = 0\<rparr>"

definition demo_seed_heap :: seed_heap where
  "demo_seed_heap =
     snd (NewSeedTask demo_url ''t'' ''http://h/a'' None
       (snd (NewSeedTask demo_url ''t'' ''http://h/a'' None
          \<lparr>seeds = (\<lambda>_. no_seed), next_seed = 0, piece_maps = (\<lambda>_. []), next_pieces = 0\<rparr>)))"

definition demo_tasks :: seed_manager where
  "demo_tasks = NewTaskManager 10 10 demo_seed_heap"

lemma demo_tasks_facts:
  "sd_ID (seed_at demo_tasks 0) = ''t''" "sd_ID (seed_at demo_tasks 1) = ''t''"
  "sd_SourceFileLength (seed_at demo_tasks 0) = UnknownSourceFileLen"
  "sd_SourceFileLength (seed_at demo_tasks 1) = UnknownSourceFileLen"
  "IsSame demo_tasks 0 1" "next_seed (tm_heap demo_tasks) = 2" "taskStore demo_tasks = []"
  "taskURLUnreachableStore demo_tasks = []" "accessTimeMap demo_tasks = []"
  by (simp_all add: demo_tasks_def NewTaskManager_def demo_seed_heap_def NewSeedTask_def Let_def IsSame_def)

lemma demo_source_simps [simp]: "url_ok (demo_source x) u" "content_length (demo_source x) u hs = x"
  by (simp_all add: demo_source_def)


theorem repeated_registration_no_pieces_witness:
  "\<exists>tm1 tm2. AddOrUpdate (demo_source (Inl True)) 1 0 demo_tasks = ((Some 0, Some errNotReachable), tm1) \<and>
     AddOrUpdate (demo_source (Inr 5000000)) 2 1 tm1 = ((Some 0, None), tm2) \<and>
     sd_SourceFileLength (seed_at tm2 0) = 5000000 \<and> sd_TotalPieceCount (seed_at tm2 0) = 0"
  using repeated_registration_no_pieces[of demo_tasks 0 1 "demo_source (Inl True)" "demo_source (Inr 5000000)" 5000000 1 2]
    demo_tasks_facts(4,5) unfolding One_nat_def
  by (auto simp: demo_tasks_facts getTaskUnreachableTime_def Load_Nil)

theorem unreachable_source_not_remembered_witness:
  "snd (fst (AddOrUpdate (demo_source (Inl True)) 2 1 (tm_touch 1 ''t'' demo_tasks))) \<noteq> Some errURLUnreachable"
  using unreachable_source_not_remembered[of 10 10 demo_seed_heap "tm_touch 1 ''t'' demo_tasks" "demo_source (Inl True)" 2 1]
    r_into_rtranclp[of tm_step, OF tm_step.access[of demo_tasks 1 "''t''"]]
  by (simp add: demo_tasks_def)

theorem registered_task_never_collected_witness:
  "\<exists>tm'. AddOrUpdate (demo_source (Inr 5000000)) 1 0 demo_tasks = ((Some 0, None), tm') \<and>
     tm_Exist ''t'' (tm_GC 1000000 tm') = Some 0"
proof -
  obtain tm' where a: "AddOrUpdate (demo_source (Inr 5000000)) 1 0 demo_tasks = ((Some 0, None), tm')" "taskStore tm' = [(''t'', 0)]"
    using register_seed_new[of demo_tasks 0 1]
    by (auto simp: AddOrUpdate_def fetch_length_def demo_tasks_facts getTaskUnreachableTime_def Load_Nil Store_def)
  then show ?thesis
    using registered_task_never_collected[OF _ a(1), of "''t''" 1000000 "''t''"]
    by (auto simp: demo_tasks_facts Load_Nil tm_Exist_def getTask_def Load_Cons)
qed

theorem seed_success_final_witness:
  "\<exists>tm. seed_IsSuccess (seed_at tm 0) \<and> taskStore tm = [(''t'', 0)] \<and>
     seed_IsSuccess (seed_at (snd (tm_Update 2 ''t'' (Some (no_seed\<lparr>sd_CdnStatus := StatusFailed\<rparr>)) tm)) 0)"
proof -
  define tm where "tm = tm_upd 0 (\<lambda>t. t\<lparr>sd_CdnStatus := StatusSuccess\<rparr>) (demo_tasks\<lparr>taskStore := [(''t'', 0)]\<rparr>)"
  have "seed_IsSuccess (seed_at tm 0)" "0 < next_seed (tm_heap tm)" "taskStore tm = [(''t'', 0)]"
    by (simp_all add: tm_def seed_IsSuccess_def next_seed_kept demo_tasks_facts)
  then show ?thesis
    using seed_success_final[OF r_into_rtranclp[of tm_step, OF tm_step.update[of tm 2 "''t''"
          "Some (no_seed\<lparr>sd_CdnStatus := StatusFailed\<rparr>)"]], of 0] by blast
qed

end
