(* ===== verification/Cdn_Progress.thy ===== *)
theory Cdn_Progress
  imports Cdn_Task_Facts "HOL-Library.Multiset"
begin

text \<open>
  How the progress of a seed task reaches those who watch it: \<open>cdn/supervisor/progress/progress.go\<close> and
  \<open>manager.go\<close>. A channel is the list of all pieces sent on it; that it holds 100 of them only delays the
  sender, who holds the lock of the subscriber meanwhile. The goroutine of a subscriber and the calls of
  the publisher interleave, so they are a step relation; a manager call is atomic, because the manager
  holds the lock of the task.
\<close>

section \<open>Subscribers\<close>

text \<open>
  Where \<open>readLoop\<close> is: at the \<open>select\<close>; with the lock before the test for pieces; with the lock between that test
  and the entry into the list of waiters of the condition; waiting; woken; returned.
\<close>

datatype reader_pc = Select | Locked | Parking | Parked | Woken | Stopped

record subscriber =
  sub_taskID :: string
  sub_pieces :: seed_pieces
  sub_chan :: "seed_PieceInfo list"
  sub_closed :: bool
  sub_done :: bool
  sub_ctx :: bool
  sub_once :: bool
  sub_pc :: reader_pc

definition newProgressSubscriber :: "string \<Rightarrow> seed_pieces \<Rightarrow> subscriber" where
  "newProgressSubscriber taskID taskPieces =
     \<lparr>sub_taskID = taskID, sub_pieces = fold (\<lambda>(u, info) m. Store u info m) taskPieces [], sub_chan = [], sub_closed = False,
      sub_done = False, sub_ctx = False, sub_once = False, sub_pc = Select\<rparr>"

text \<open>The pieces of a map in the order of their numbers.\<close>

definition in_order :: "seed_pieces \<Rightarrow> seed_PieceInfo list" where
  "in_order m = map (\<lambda>n. the (Load m n)) (sort (map fst m))"

definition sendPieces :: "subscriber \<Rightarrow> subscriber" where
  "sendPieces sub = sub\<lparr>sub_chan := sub_chan sub @ in_order (sub_pieces sub), sub_pieces := []\<rparr>"

text \<open>\<open>cond.Signal\<close> wakes the goroutine that waits, if it waits.\<close>

definition Signal :: "subscriber \<Rightarrow> subscriber" where
  "Signal sub = (if sub_pc sub = Parked then sub\<lparr>sub_pc := Woken\<rparr> else sub)"

definition Notify_store :: "seed_PieceInfo \<Rightarrow> subscriber \<Rightarrow> subscriber" where
  "Notify_store seedPiece sub = sub\<lparr>sub_pieces := Store (pi_PieceNum seedPiece) seedPiece (sub_pieces sub)\<rparr>"

definition sub_Notify :: "seed_PieceInfo \<Rightarrow> subscriber \<Rightarrow> subscriber" where
  "sub_Notify seedPiece sub = Signal (Notify_store seedPiece sub)"

definition Close_sub :: "subscriber \<Rightarrow> subscriber" where
  "Close_sub sub =
     (if sub_once sub then sub
      else (Signal (sub\<lparr>sub_once := True, sub_closed := True\<rparr>))\<lparr>sub_done := True\<rparr>)"

section \<open>The goroutine of a subscriber and its publisher\<close>

text \<open>
  The publisher is between calls, before the signal of \<open>Notify\<close>, before the signal of \<open>Close\<close>, before \<open>close(sub.done)\<close>,
  or has closed the subscriber. The history is what the subscriber was told, the first pieces included.
\<close>

datatype publisher_pc = PubIdle | PubSignal | PubClosing | PubSignalled | PubGone

record progress =
  pg_sub :: subscriber
  pg_pub :: publisher_pc
  pg_hist :: "seed_PieceInfo list"

definition reader_locked :: "subscriber \<Rightarrow> bool" where
  "reader_locked sub \<longleftrightarrow> sub_pc sub = Locked \<or> sub_pc sub = Parking"

definition at_pc :: "reader_pc \<Rightarrow> progress \<Rightarrow> progress" where
  "at_pc pc s = s\<lparr>pg_sub := (pg_sub s)\<lparr>sub_pc := pc\<rparr>\<rparr>"

inductive progress_step :: "progress \<Rightarrow> progress \<Rightarrow> bool" where
  select_ctx: "sub_pc (pg_sub s) = Select \<Longrightarrow> sub_ctx (pg_sub s) \<Longrightarrow> progress_step s (at_pc Stopped s)"
| select_done: "sub_pc (pg_sub s) = Select \<Longrightarrow> sub_done (pg_sub s) \<Longrightarrow> sub_pieces (pg_sub s) = [] \<Longrightarrow>
     progress_step s (at_pc Stopped s)"
| select_rest: "sub_pc (pg_sub s) = Select \<Longrightarrow> sub_done (pg_sub s) \<Longrightarrow> sub_pieces (pg_sub s) \<noteq> [] \<Longrightarrow>
     progress_step s (s\<lparr>pg_sub := sendPieces (pg_sub s)\<rparr>)"
| select_default: "sub_pc (pg_sub s) = Select \<Longrightarrow> \<not> sub_ctx (pg_sub s) \<Longrightarrow> \<not> sub_done (pg_sub s) \<Longrightarrow>
     progress_step s (at_pc Locked s)"
| must_wait: "sub_pc (pg_sub s) = Locked \<Longrightarrow> sub_pieces (pg_sub s) = [] \<Longrightarrow> \<not> sub_closed (pg_sub s) \<Longrightarrow>
     progress_step s (at_pc Parking s)"
| send: "sub_pc (pg_sub s) = Locked \<Longrightarrow> sub_pieces (pg_sub s) \<noteq> [] \<or> sub_closed (pg_sub s) \<Longrightarrow>
     progress_step s (at_pc Select (s\<lparr>pg_sub := sendPieces (pg_sub s)\<rparr>))"
| park: "sub_pc (pg_sub s) = Parking \<Longrightarrow> progress_step s (at_pc Parked s)"
| wake: "sub_pc (pg_sub s) = Woken \<Longrightarrow> progress_step s (at_pc Locked s)"
| notify: "pg_pub s = PubIdle \<Longrightarrow> \<not> reader_locked (pg_sub s) \<Longrightarrow>
     progress_step s (s\<lparr>pg_sub := Notify_store p (pg_sub s), pg_pub := PubSignal, pg_hist := pg_hist s @ [p]\<rparr>)"
| notify_signal: "pg_pub s = PubSignal \<Longrightarrow> progress_step s (s\<lparr>pg_sub := Signal (pg_sub s), pg_pub := PubIdle\<rparr>)"
| close: "pg_pub s = PubIdle \<Longrightarrow>
     progress_step s (s\<lparr>pg_sub := (pg_sub s)\<lparr>sub_once := True, sub_closed := True\<rparr>, pg_pub := PubClosing\<rparr>)"
| close_signal: "pg_pub s = PubClosing \<Longrightarrow> progress_step s (s\<lparr>pg_sub := Signal (pg_sub s), pg_pub := PubSignalled\<rparr>)"
| close_done: "pg_pub s = PubSignalled \<Longrightarrow>
     progress_step s (s\<lparr>pg_sub := (pg_sub s)\<lparr>sub_done := True\<rparr>, pg_pub := PubGone\<rparr>)"
| cancel: "progress_step s (s\<lparr>pg_sub := (pg_sub s)\<lparr>sub_ctx := True\<rparr>\<rparr>)"

definition watch_start :: "string \<Rightarrow> seed_pieces \<Rightarrow> progress" where
  "watch_start taskID m = \<lparr>pg_sub = newProgressSubscriber taskID m, pg_pub = PubIdle, pg_hist = map snd m\<rparr>"

section \<open>Delivery\<close>

text \<open>Pieces are filed under their numbers.\<close>

definition filed :: "seed_pieces \<Rightarrow> bool" where
  "filed m \<longleftrightarrow> wf_map m \<and> (\<forall>(k, p) \<in> set m. pi_PieceNum p = k)"

lemma set_Store_subset: "set (Store k v m) \<subseteq> insert (k, v) (set m)"
  unfolding Store_def by (induction m) auto

lemma filed_Store: "filed m \<Longrightarrow> filed (Store (pi_PieceNum p) p m)"
  using set_Store_subset[of "pi_PieceNum p" p m] by (auto simp: filed_def)

lemma fold_Store_append:
  "distinct (map fst (acc @ m)) \<Longrightarrow> fold (\<lambda>(u, info) m. Store u info m) m acc = acc @ m"
proof (induction m arbitrary: acc)
  case (Cons x m)
  obtain u info where x: "x = (u, info)" by fastforce
  have "u \<notin> fst ` set acc" using Cons.prems by (auto simp: x)
  then have "Store u info acc = acc @ [x]" by (simp add: set_Store_fresh x)
  then show ?case using Cons.IH[of "acc @ [x]"] Cons.prems by (simp add: x)
qed simp

lemma fold_Store_copy: "wf_map m \<Longrightarrow> fold (\<lambda>(u, info) m. Store u info m) m [] = m"
  using fold_Store_append[of "[]" m] by simp

lemma mset_in_order:
  assumes "wf_map m"
  shows "mset (in_order m) = mset (map snd m)"
proof -
  have l: "map (\<lambda>n. the (Load m n)) (map fst m) = map snd m"
    using assms by (auto simp: Load_Some_iff intro!: map_cong)
      (metis Load_Some_iff option.sel prod.collapse)
  have "mset (in_order m) = mset (map (\<lambda>n. the (Load m n)) (map fst m))"
    unfolding in_order_def by (simp only: mset_map mset_sort)
  then show ?thesis unfolding l .
qed

lemma sub_ops_sel [simp]:
  "sub_pieces (sendPieces sub) = []" "sub_chan (sendPieces sub) = sub_chan sub @ in_order (sub_pieces sub)"
  "sub_done (sendPieces sub) = sub_done sub" "sub_closed (sendPieces sub) = sub_closed sub"
  "sub_pc (sendPieces sub) = sub_pc sub" "sub_ctx (sendPieces sub) = sub_ctx sub"
  "sub_pieces (Signal sub) = sub_pieces sub" "sub_chan (Signal sub) = sub_chan sub"
  "sub_done (Signal sub) = sub_done sub" "sub_closed (Signal sub) = sub_closed sub" "sub_ctx (Signal sub) = sub_ctx sub"
  "sub_pc (Signal sub) = (if sub_pc sub = Parked then Woken else sub_pc sub)"
  "sub_pieces (Notify_store p sub) = Store (pi_PieceNum p) p (sub_pieces sub)" "sub_chan (Notify_store p sub) = sub_chan sub"
  "sub_done (Notify_store p sub) = sub_done sub" "sub_closed (Notify_store p sub) = sub_closed sub"
  "sub_pc (Notify_store p sub) = sub_pc sub" "sub_ctx (Notify_store p sub) = sub_ctx sub"
  by (simp_all add: sendPieces_def Signal_def Notify_store_def)

lemma at_pc_sel [simp]:
  "pg_sub (at_pc pc s) = (pg_sub s)\<lparr>sub_pc := pc\<rparr>" "pg_pub (at_pc pc s) = pg_pub s" "pg_hist (at_pc pc s) = pg_hist s"
  by (simp_all add: at_pc_def)

definition told :: "progress \<Rightarrow> bool" where
  "told s \<longleftrightarrow> filed (sub_pieces (pg_sub s)) \<and>
     (distinct (map pi_PieceNum (pg_hist s)) \<longrightarrow>
       mset (sub_chan (pg_sub s)) + mset (map snd (sub_pieces (pg_sub s))) = mset (pg_hist s))"

definition flags :: "progress \<Rightarrow> bool" where
  "flags s \<longleftrightarrow> (sub_done (pg_sub s) \<longleftrightarrow> pg_pub s = PubGone) \<and>
     (sub_closed (pg_sub s) \<longleftrightarrow> pg_pub s \<in> {PubClosing, PubSignalled, PubGone}) \<and>
     (sub_pc (pg_sub s) = Stopped \<and> \<not> sub_ctx (pg_sub s) \<longrightarrow> sub_done (pg_sub s) \<and> sub_pieces (pg_sub s) = [])"

lemma told_notify:
  assumes "told s"
  shows "told (s\<lparr>pg_sub := Notify_store p (pg_sub s), pg_pub := b, pg_hist := pg_hist s @ [p]\<rparr>)"
proof -
  let ?m = "sub_pieces (pg_sub s)"
  have f: "filed ?m" using assms by (simp add: told_def)
  have "mset (sub_chan (pg_sub s)) + mset (map snd (Store (pi_PieceNum p) p ?m)) = mset (pg_hist s @ [p])"
    if d: "distinct (map pi_PieceNum (pg_hist s @ [p]))"
  proof -
    have e: "mset (sub_chan (pg_sub s)) + mset (map snd ?m) = mset (pg_hist s)" using assms d by (simp add: told_def)
    have "pi_PieceNum p \<notin> fst ` set ?m"
    proof
      assume "pi_PieceNum p \<in> fst ` set ?m"
      then obtain q where q: "(pi_PieceNum p, q) \<in> set ?m" by force
      then have "pi_PieceNum q = pi_PieceNum p" using f by (auto simp: filed_def)
      moreover have "q \<in> set (pg_hist s)"
        using q arg_cong[OF e, of set_mset] by (auto simp: image_iff) (metis Un_iff image_eqI snd_conv)
      ultimately show False using d by (auto simp: image_iff)
    qed
    then show ?thesis using e by (simp add: set_Store_fresh)
  qed
  then show ?thesis using f by (simp add: told_def filed_Store)
qed

lemma told_send: "told s \<Longrightarrow> told (s\<lparr>pg_sub := sendPieces (pg_sub s)\<rparr>)"
  by (auto simp: told_def filed_def mset_in_order)

lemma told_frame:
  assumes "told s" "sub_pieces (pg_sub s') = sub_pieces (pg_sub s)" "sub_chan (pg_sub s') = sub_chan (pg_sub s)" "pg_hist s' = pg_hist s"
  shows "told s'"
  using assms by (simp add: told_def)

lemma told_step: "progress_step s s' \<Longrightarrow> told s \<Longrightarrow> told s'"
proof (induction rule: progress_step.induct)
  case (select_rest s)
  then show ?case by (intro told_send)
next
  case (send s)
  then show ?case using told_send[of s] told_frame by fastforce
next
  case (notify s p)
  then show ?case by (intro told_notify)
qed (auto elim!: told_frame)

lemma flags_step: "progress_step s s' \<Longrightarrow> flags s \<Longrightarrow> flags s'"
  by (induction rule: progress_step.induct) (auto simp: flags_def reader_locked_def split: if_splits)

lemma progress_start:
  assumes "filed m"
  shows "told (watch_start taskID m)" "flags (watch_start taskID m)"
  using assms
  by (auto simp: told_def flags_def watch_start_def newProgressSubscriber_def filed_def fold_Store_copy)

text \<open>
  C33. A watcher gets every piece exactly once: when the goroutine of a subscriber has returned and its context
  was not cancelled, what it sent on the channel is what the task had when the watch began together
  with all pieces published since, each piece once, under every interleaving of the goroutine with the
  publisher, if no piece number was published twice.
\<close>

theorem progress_delivers_all:
  assumes "filed m" "progress_step\<^sup>*\<^sup>* (watch_start taskID m) s" "sub_pc (pg_sub s) = Stopped" "\<not> sub_ctx (pg_sub s)"
    and "distinct (map pi_PieceNum (pg_hist s))"
  shows "mset (sub_chan (pg_sub s)) = mset (pg_hist s)"
proof -
  have "told s \<and> flags s"
    using assms(2) by (induction rule: rtranclp_induct) (use progress_start[OF assms(1)] told_step flags_step in blast)+
  then show ?thesis using assms(3-5) by (auto simp: told_def flags_def)
qed

section \<open>A lost wake-up\<close>

definition stuck :: "progress \<Rightarrow> bool" where
  "stuck s \<longleftrightarrow> sub_pc (pg_sub s) = Parked \<and> pg_pub s = PubGone"

lemma stuck_step: "progress_step s s' \<Longrightarrow> stuck s \<Longrightarrow> stuck s'"
  by (induction rule: progress_step.induct) (auto simp: stuck_def)

lemma stuck_forever: "progress_step\<^sup>*\<^sup>* s s' \<Longrightarrow> stuck s \<Longrightarrow> stuck s'"
  by (induction rule: rtranclp_induct) (auto intro: stuck_step)

lemma lost_wakeup_run:
  assumes "pg_pub s = PubIdle" "sub_pc (pg_sub s) = Parking"
  shows "\<exists>s'. progress_step\<^sup>*\<^sup>* s s' \<and> stuck s' \<and> sub_pieces (pg_sub s') = sub_pieces (pg_sub s)"
proof -
  define s1 where "s1 = s\<lparr>pg_sub := (pg_sub s)\<lparr>sub_once := True, sub_closed := True\<rparr>, pg_pub := PubClosing\<rparr>"
  define s2 where "s2 = s1\<lparr>pg_sub := Signal (pg_sub s1), pg_pub := PubSignalled\<rparr>"
  define s3 where "s3 = s2\<lparr>pg_sub := (pg_sub s2)\<lparr>sub_done := True\<rparr>, pg_pub := PubGone\<rparr>"
  have 1: "progress_step s s1" unfolding s1_def by (rule progress_step.close) fact
  have 2: "progress_step s1 s2" unfolding s2_def by (rule progress_step.close_signal) (simp add: s1_def)
  have 3: "progress_step s2 s3" unfolding s3_def by (rule progress_step.close_done) (simp add: s2_def)
  have 4: "progress_step s3 (at_pc Parked s3)"
    by (rule progress_step.park) (simp add: s3_def s2_def s1_def assms(2))
  have "progress_step\<^sup>*\<^sup>* s (at_pc Parked s3)"
    by (rule converse_rtranclp_into_rtranclp[OF 1 converse_rtranclp_into_rtranclp[OF 2
          converse_rtranclp_into_rtranclp[OF 3 r_into_rtranclp[of progress_step, OF 4]]]])
  moreover have "stuck (at_pc Parked s3)" "sub_pieces (pg_sub (at_pc Parked s3)) = sub_pieces (pg_sub s)"
    by (simp_all add: stuck_def s3_def s2_def s1_def)
  ultimately show ?thesis by blast
qed

lemma reach_parking: "\<exists>s. progress_step\<^sup>*\<^sup>* (watch_start taskID m) s \<and> pg_pub s = PubIdle \<and> sub_pc (pg_sub s) = Parking"
proof -
  define s0 where "s0 = watch_start taskID m"
  define s1 where "s1 = at_pc Locked s0"
  define s2 where "s2 = (if sub_pieces (pg_sub s1) = [] then s1 else at_pc Locked (at_pc Select (s1\<lparr>pg_sub := sendPieces (pg_sub s1)\<rparr>)))"
  have a: "sub_pc (pg_sub s0) = Select" "\<not> sub_ctx (pg_sub s0)" "\<not> sub_done (pg_sub s0)" "\<not> sub_closed (pg_sub s0)" "pg_pub s0 = PubIdle"
    by (simp_all add: s0_def watch_start_def newProgressSubscriber_def)
  have 1: "progress_step s0 s1" unfolding s1_def by (rule progress_step.select_default) (use a in simp_all)
  have 2: "progress_step\<^sup>*\<^sup>* s1 s2"
  proof (cases "sub_pieces (pg_sub s1) = []")
    case False
    let ?t = "at_pc Select (s1\<lparr>pg_sub := sendPieces (pg_sub s1)\<rparr>)"
    have "progress_step s1 ?t" by (rule progress_step.send) (use False in \<open>simp_all add: s1_def\<close>)
    moreover have "progress_step ?t (at_pc Locked ?t)"
      by (rule progress_step.select_default) (use a in \<open>simp_all add: s1_def\<close>)
    ultimately show ?thesis using False by (simp add: s2_def converse_rtranclp_into_rtranclp)
  qed (simp add: s2_def)
  have 3: "progress_step s2 (at_pc Parking s2)"
    by (rule progress_step.must_wait) (use a in \<open>simp_all add: s2_def s1_def\<close>)
  have "progress_step\<^sup>*\<^sup>* s0 (at_pc Parking s2)" using 1 2 3 by (meson converse_rtranclp_into_rtranclp rtranclp.rtrancl_into_rtrancl)
  moreover have "pg_pub (at_pc Parking s2) = PubIdle" "sub_pc (pg_sub (at_pc Parking s2)) = Parking"
    using a by (simp_all add: s2_def s1_def)
  ultimately show ?thesis unfolding s0_def by blast
qed

text \<open>
  C37. A watcher can wait for ever: \<open>Close\<close> sets the flag and signals without the lock of the condition, so both can
  fall between the test of the flag and the entry into the list of waiters. Whatever the task had when the
  watch began, a state can be reached in which the subscriber is closed and its goroutine waits, and after which
  nothing wakes it: the channel is never closed, not even when the context is cancelled.
\<close>

theorem subscriber_lost_wakeup:
  "\<exists>s. progress_step\<^sup>*\<^sup>* (watch_start taskID m) s \<and> pg_pub s = PubGone \<and>
     (\<forall>s'. progress_step\<^sup>*\<^sup>* s s' \<longrightarrow> sub_pc (pg_sub s') = Parked)"
proof -
  obtain s where s: "progress_step\<^sup>*\<^sup>* (watch_start taskID m) s" "pg_pub s = PubIdle" "sub_pc (pg_sub s) = Parking"
    using reach_parking by blast
  obtain s' where "progress_step\<^sup>*\<^sup>* s s'" "stuck s'" using lost_wakeup_run[OF s(2,3)] by blast
  moreover have "\<forall>s''. progress_step\<^sup>*\<^sup>* s' s'' \<longrightarrow> sub_pc (pg_sub s'') = Parked"
    using stuck_forever \<open>stuck s'\<close> stuck_def by blast
  ultimately show ?thesis using s(1) stuck_def by (meson rtranclp_trans)
qed

section \<open>The manager of progress\<close>

record progress_manager =
  pm_tasks :: seed_manager
  seedTaskSubjects :: "(string, nat list) gomap"
  pm_subs :: "nat \<Rightarrow> subscriber"
  pm_next :: nat

definition upd_sub :: "nat \<Rightarrow> (subscriber \<Rightarrow> subscriber) \<Rightarrow> progress_manager \<Rightarrow> progress_manager" where
  "upd_sub i f pm = pm\<lparr>pm_subs := (pm_subs pm)(i := f (pm_subs pm i))\<rparr>"

datatype watch = Replay "seed_PieceInfo list" | Subscribed nat

definition WatchSeedProgress ::
  "time \<Rightarrow> string \<Rightarrow> progress_manager \<Rightarrow> (seed_task_error + watch) \<times> progress_manager" where
  "WatchSeedProgress now taskID pm =
     (case tm_Get now taskID (pm_tasks pm) of
        (Inl e, tm) \<Rightarrow> (Inl e, pm\<lparr>pm_tasks := tm\<rparr>)
      | (Inr t, tm) \<Rightarrow>
          if seed_IsDone (seed_at tm t)
          then (Inr (Replay (in_order (pieces_of t (tm_heap tm)))), pm\<lparr>pm_tasks := tm\<rparr>)
          else
            let observer = pm_next pm;
                publisher = (case Load (seedTaskSubjects pm) taskID of None \<Rightarrow> [] | Some l \<Rightarrow> l)
            in (Inr (Subscribed observer),
                pm\<lparr>pm_tasks := tm,
                   pm_subs := (pm_subs pm)(observer := newProgressSubscriber (sd_ID (seed_at tm t)) (pieces_of t (tm_heap tm))),
                   pm_next := observer + 1,
                   seedTaskSubjects := Store taskID (publisher @ [observer]) (seedTaskSubjects pm)\<rparr>))"

definition NotifySubscribers :: "seed_PieceInfo \<Rightarrow> nat list \<Rightarrow> progress_manager \<Rightarrow> progress_manager" where
  "NotifySubscribers seedPiece subscribers pm = fold (\<lambda>i. upd_sub i (sub_Notify seedPiece)) subscribers pm"

definition PublishPiece :: "time \<Rightarrow> string \<Rightarrow> seed_PieceInfo \<Rightarrow> progress_manager \<Rightarrow> seed_task_error option \<times> progress_manager" where
  "PublishPiece now taskID record pm =
     (let pm1 = (case Load (seedTaskSubjects pm) taskID of
                   Some progressPublisher \<Rightarrow> NotifySubscribers record progressPublisher pm
                 | None \<Rightarrow> pm)
      in case tm_UpdateProgress now taskID record (pm_tasks pm1) of
           (e, tm) \<Rightarrow> (e, pm1\<lparr>pm_tasks := tm\<rparr>))"

text \<open>The list of a publisher is dropped after its subscribers are removed, so only their closing is visible.\<close>

definition RemoveAllSubscribers :: "nat list \<Rightarrow> progress_manager \<Rightarrow> progress_manager" where
  "RemoveAllSubscribers subscribers pm = fold (\<lambda>i. upd_sub i Close_sub) subscribers pm"

definition PublishTask ::
  "time \<Rightarrow> string \<Rightarrow> SeedTask option \<Rightarrow> progress_manager \<Rightarrow> seed_task_error option \<times> progress_manager" where
  "PublishTask now taskID seedTask pm =
     (case tm_Update now taskID seedTask (pm_tasks pm) of
        (Some e, tm) \<Rightarrow> (Some e, pm\<lparr>pm_tasks := tm\<rparr>)
      | (None, tm) \<Rightarrow>
          (None,
           let pm1 = pm\<lparr>pm_tasks := tm\<rparr>
           in case Load (seedTaskSubjects pm1) taskID of
                Some progressPublisher \<Rightarrow>
                  let pm2 = RemoveAllSubscribers progressPublisher pm1
                  in pm2\<lparr>seedTaskSubjects := Delete taskID (seedTaskSubjects pm2)\<rparr>
              | None \<Rightarrow> pm1))"

section \<open>Watchers are closed\<close>

inductive pm_step :: "progress_manager \<Rightarrow> progress_manager \<Rightarrow> bool" where
  tasks: "tm_step (pm_tasks pm) tm \<Longrightarrow> pm_step pm (pm\<lparr>pm_tasks := tm\<rparr>)"
| watch: "pm_step pm (snd (WatchSeedProgress now taskID pm))"
| piece: "pm_step pm (snd (PublishPiece now taskID record pm))"
| publish: "pm_step pm (snd (PublishTask now taskID info pm))"

lemma fold_upd_sub:
  "pm_next (fold (\<lambda>i. upd_sub i f) l pm) = pm_next pm" "seedTaskSubjects (fold (\<lambda>i. upd_sub i f) l pm) = seedTaskSubjects pm"
  "pm_tasks (fold (\<lambda>i. upd_sub i f) l pm) = pm_tasks pm"
  by (induction l arbitrary: pm) (auto simp: upd_sub_def)

lemma fold_upd_sub_other: "i \<notin> set l \<Longrightarrow> pm_subs (fold (\<lambda>i. upd_sub i f) l pm) i = pm_subs pm i"
  by (induction l arbitrary: pm) (auto simp: upd_sub_def)

lemma fold_upd_sub_keeps:
  assumes "\<And>x. P x \<Longrightarrow> P (f x)" "P (pm_subs pm i)"
  shows "P (pm_subs (fold (\<lambda>i. upd_sub i f) l pm) i)"
  using assms(2)
proof (induction l arbitrary: pm)
  case (Cons j l)
  have "P (pm_subs (upd_sub j f pm) i)" using Cons.prems assms(1) by (auto simp: upd_sub_def)
  then show ?case using Cons.IH[of "upd_sub j f pm"] by simp
qed simp

text \<open>A subscriber with its flags in step: closed at most once, and then done.\<close>

definition flags_in_step :: "subscriber \<Rightarrow> bool" where
  "flags_in_step sub \<longleftrightarrow> (sub_once sub \<longrightarrow> sub_done sub)"

lemma flags_in_step_Close: "flags_in_step sub \<Longrightarrow> sub_done (Close_sub sub) \<and> flags_in_step (Close_sub sub)"
  by (auto simp: flags_in_step_def Close_sub_def)

lemma flags_in_step_Notify: "flags_in_step (sub_Notify p sub) = flags_in_step sub" "sub_done (sub_Notify p sub) = sub_done sub"
  by (simp_all add: flags_in_step_def sub_Notify_def Signal_def Notify_store_def)

lemma RemoveAll_done:
  assumes "i \<in> set l" "flags_in_step (pm_subs pm i)"
  shows "sub_done (pm_subs (RemoveAllSubscribers l pm) i)"
  using assms unfolding RemoveAllSubscribers_def
proof (induction l arbitrary: pm)
  case (Cons j l)
  show ?case
  proof (cases "j = i")
    case True
    then have "sub_done (pm_subs (upd_sub i Close_sub pm) i) \<and> flags_in_step (pm_subs (upd_sub i Close_sub pm) i)"
      using Cons.prems(2) flags_in_step_Close by (simp add: upd_sub_def)
    then show ?thesis
      using True fold_upd_sub_keeps[where P = "\<lambda>x. sub_done x \<and> flags_in_step x" and f = Close_sub] flags_in_step_Close by simp
  next
    case False
    then show ?thesis using Cons.prems Cons.IH[of "upd_sub j Close_sub pm"] by (auto simp: upd_sub_def)
  qed
qed simp

text \<open>Subscriber \<open>i\<close> is closed, or on the list of the publisher of the task it watches.\<close>

definition watched :: "nat \<Rightarrow> string \<Rightarrow> progress_manager \<Rightarrow> bool" where
  "watched i taskID pm \<longleftrightarrow> i < pm_next pm \<and> flags_in_step (pm_subs pm i) \<and>
     (sub_done (pm_subs pm i) \<or> (\<exists>l. Load (seedTaskSubjects pm) taskID = Some l \<and> i \<in> set l))"

lemma watched_tasks: "watched i k (pm\<lparr>pm_tasks := tm\<rparr>) = watched i k pm"
  by (simp add: watched_def)

lemma watched_WatchSeedProgress:
  assumes "watched i k pm"
  shows "watched i k (snd (WatchSeedProgress now taskID pm))"
  using assms
  by (auto simp: WatchSeedProgress_def Let_def watched_def split: prod.split sum.split option.split)

lemma watched_PublishPiece:
  assumes "watched i k pm"
  shows "watched i k (snd (PublishPiece now taskID p pm))"
proof -
  have "watched i k (NotifySubscribers p l pm)" for l
  proof -
    have "flags_in_step (pm_subs (NotifySubscribers p l pm) i)"
      using assms unfolding NotifySubscribers_def watched_def
      by (intro fold_upd_sub_keeps[where P = flags_in_step]) (auto simp: flags_in_step_Notify)
    moreover have "sub_done (pm_subs (NotifySubscribers p l pm) i)" if "sub_done (pm_subs pm i)"
      using that unfolding NotifySubscribers_def
      by (intro fold_upd_sub_keeps[where P = sub_done]) (auto simp: flags_in_step_Notify)
    ultimately show ?thesis using assms by (auto simp: watched_def NotifySubscribers_def fold_upd_sub)
  qed
  then show ?thesis using assms by (auto simp: PublishPiece_def Let_def watched_tasks split: prod.split option.split)
qed

lemma watched_PublishTask:
  assumes "watched i k pm"
  shows "watched i k (snd (PublishTask now taskID info pm))"
proof -
  have "watched i k ((RemoveAllSubscribers l pm')\<lparr>seedTaskSubjects := Delete taskID (seedTaskSubjects (RemoveAllSubscribers l pm'))\<rparr>)"
    if w: "watched i k pm'" and l: "Load (seedTaskSubjects pm') taskID = Some l" for l pm'
  proof -
    let ?pm = "RemoveAllSubscribers l pm'"
    have f: "flags_in_step (pm_subs ?pm i)"
      using w unfolding RemoveAllSubscribers_def watched_def
      by (intro fold_upd_sub_keeps[where P = flags_in_step]) (auto simp: flags_in_step_Close)
    have d: "sub_done (pm_subs ?pm i)" if "sub_done (pm_subs pm' i)"
      using that w unfolding RemoveAllSubscribers_def watched_def
      by (intro fold_upd_sub_keeps[where P = "sub_done"]) (auto simp: Close_sub_def Signal_def)
    have c: "sub_done (pm_subs ?pm i)" if "i \<in> set l" using RemoveAll_done that w by (simp add: watched_def)
    show ?thesis
      using w l f d c by (auto simp: watched_def RemoveAllSubscribers_def fold_upd_sub split: if_splits)
  qed
  then show ?thesis
    using assms by (auto simp: PublishTask_def Let_def watched_tasks split: prod.split option.split)
qed

lemma watched_step: "pm_step pm pm' \<Longrightarrow> watched i k pm \<Longrightarrow> watched i k pm'"
  by (induction rule: pm_step.induct)
    (simp_all only: watched_tasks watched_WatchSeedProgress watched_PublishPiece watched_PublishTask)

text \<open>
  C36. A watcher is closed when the result of its task is published: whatever the manager does between the call of
  \<open>WatchSeedProgress\<close> that made the subscriber and a call of \<open>PublishTask\<close> for the same task, that call closes it
  and forgets the publisher when it succeeds. When it fails, because the task has been collected or has no
  status, it closes nobody.
\<close>

theorem publish_closes_watchers:
  assumes "WatchSeedProgress now taskID pm0 = (Inr (Subscribed i), pm1)" "pm_step\<^sup>*\<^sup>* pm1 pm2"
    and "PublishTask now' taskID info pm2 = (e, pm3)"
  shows "case e of
      None \<Rightarrow> sub_done (pm_subs pm3 i) \<and> Load (seedTaskSubjects pm3) taskID = None
    | Some _ \<Rightarrow> pm_subs pm3 = pm_subs pm2 \<and> seedTaskSubjects pm3 = seedTaskSubjects pm2"
proof -
  have "watched i taskID pm1"
    using assms(1)
    by (auto simp: WatchSeedProgress_def Let_def watched_def newProgressSubscriber_def flags_in_step_def
        split: prod.splits sum.splits if_splits option.splits)
  with assms(2) have w: "watched i taskID pm2" by (induction rule: rtranclp_induct) (auto intro: watched_step)
  show ?thesis
  proof (cases e)
    case None
    have "Load (seedTaskSubjects pm3) taskID = None"
      using assms(3) None by (auto simp: PublishTask_def Let_def RemoveAllSubscribers_def fold_upd_sub split: prod.splits option.splits)
    moreover have "watched i taskID pm3" using watched_PublishTask[OF w, of now' taskID info] assms(3) by simp
    ultimately show ?thesis using None by (auto simp: watched_def)
  next
    case (Some x)
    then show ?thesis using assms(3) by (auto simp: PublishTask_def split: prod.splits option.splits)
  qed
qed

section \<open>A small progress manager\<close>

definition demo_piece :: seed_PieceInfo where
  "demo_piece = \<lparr>pi_PieceNum = 0, pi_PieceMd5 = ''0a'', pi_PieceRange = None, pi_OriginRange = None, pi_PieceLen = 4, pi_PieceStyle = 0\<rparr>"

definition demo_progress :: progress_manager where
  "demo_progress = \<lparr>pm_tasks = demo_tasks\<lparr>taskStore := [(''t'', 0)]\<rparr>, seedTaskSubjects = [],
     pm_subs = (\<lambda>_. newProgressSubscriber [] []), pm_next = 0\<rparr>"

theorem progress_delivers_all_witness:
  "\<exists>s. progress_step\<^sup>*\<^sup>* (watch_start ''t'' [(0, demo_piece)]) s \<and> sub_pc (pg_sub s) = Stopped \<and> sub_chan (pg_sub s) = [demo_piece]"
proof -
  let ?s0 = "watch_start ''t'' [(0, demo_piece)]"
  define s1 where "s1 = ?s0\<lparr>pg_sub := (pg_sub ?s0)\<lparr>sub_once := True, sub_closed := True\<rparr>, pg_pub := PubClosing\<rparr>"
  define s2 where "s2 = s1\<lparr>pg_sub := Signal (pg_sub s1), pg_pub := PubSignalled\<rparr>"
  define s3 where "s3 = s2\<lparr>pg_sub := (pg_sub s2)\<lparr>sub_done := True\<rparr>, pg_pub := PubGone\<rparr>"
  define s4 where "s4 = s3\<lparr>pg_sub := sendPieces (pg_sub s3)\<rparr>"
  note defs = s4_def s3_def s2_def s1_def watch_start_def newProgressSubscriber_def
  have 1: "progress_step ?s0 s1" unfolding s1_def by (rule progress_step.close) (simp add: watch_start_def)
  have 2: "progress_step s1 s2" unfolding s2_def by (rule progress_step.close_signal) (simp add: s1_def)
  have 3: "progress_step s2 s3" unfolding s3_def by (rule progress_step.close_done) (simp add: s2_def)
  have 4: "progress_step s3 s4" unfolding s4_def
    by (rule progress_step.select_rest) (simp_all add: defs Store_def)
  have 5: "progress_step s4 (at_pc Stopped s4)"
    by (rule progress_step.select_done) (simp_all add: defs)
  have r: "progress_step\<^sup>*\<^sup>* ?s0 (at_pc Stopped s4)"
    using 1 2 3 4 5 by (meson converse_rtranclp_into_rtranclp rtranclp.rtrancl_refl)
  have "filed [(0, demo_piece)]" by (simp add: filed_def demo_piece_def)
  then have "mset (sub_chan (pg_sub (at_pc Stopped s4))) = mset (pg_hist (at_pc Stopped s4))"
    by (rule progress_delivers_all[OF _ r]) (simp_all add: defs)
  then have "sub_chan (pg_sub (at_pc Stopped s4)) = [demo_piece]" by (simp add: defs)
  moreover have "sub_pc (pg_sub (at_pc Stopped s4)) = Stopped" by simp
  ultimately show ?thesis using r by blast
qed

theorem subscriber_lost_wakeup_witness:
  "\<exists>s. progress_step\<^sup>*\<^sup>* (watch_start ''t'' [(0, demo_piece)]) s \<and> pg_pub s = PubGone \<and> sub_pc (pg_sub s) = Parked"
  using subscriber_lost_wakeup[of "''t''" "[(0, demo_piece)]"] by blast

theorem publish_closes_watchers_witness:
  "\<exists>pm1 pm3. WatchSeedProgress 1 ''t'' demo_progress = (Inr (Subscribed 0), pm1) \<and>
     PublishTask 2 ''t'' (Some (no_seed\<lparr>sd_CdnStatus := StatusSuccess\<rparr>)) pm1 = (None, pm3) \<and> sub_done (pm_subs pm3 0)"
proof -
  obtain pm1 where a: "WatchSeedProgress 1 ''t'' demo_progress = (Inr (Subscribed 0), pm1)"
    "taskStore (pm_tasks pm1) = [(''t'', 0)]"
    by (auto simp: WatchSeedProgress_def demo_progress_def tm_Get_def getTask_def tm_touch_def seed_IsDone_def Let_def
        demo_tasks_def NewTaskManager_def demo_seed_heap_def NewSeedTask_def StatusWaiting_def StatusFailed_def
        StatusSuccess_def StatusSourceError_def)
  obtain pm3 where b: "PublishTask 2 ''t'' (Some (no_seed\<lparr>sd_CdnStatus := StatusSuccess\<rparr>)) pm1 = (None, pm3)"
    using a(2) by (auto simp: PublishTask_def tm_Update_def updateTask_def getTask_def seed_IsSuccess_def StatusSuccess_def IsSpace_def)
  show ?thesis using publish_closes_watchers[OF a(1) rtranclp.rtrancl_refl b] a(1) b by auto
qed

end
