(* ===== verification/Cdn_Cache.thy ===== *)
theory Cdn_Cache
  imports Cdn_Disk_Facts Cdn_Progress
begin

text \<open>
  How a CDN node fills and reuses its cache: \<open>cdn/supervisor/cdn/metadata_manager.go\<close>, \<open>cache_detector.go\<close>,
  \<open>reporter.go\<close>, \<open>cache_writer.go\<close>, \<open>downloader.go\<close> and \<open>manager.go\<close>. The source site, the JSON encoding and the hash
  functions are parameters; a stream is the bytes it delivers and whether it fails after them. The order in
  which the writing goroutines get on is a schedule, so that every interleaving is one value of it.
\<close>

section \<open>Environment\<close>

record cdn_env =
  ce_bad :: os_fail
  ce_base :: path
  ce_marshal :: "FileMetadata \<Rightarrow> uint8 list"
  ce_unmarshal :: "uint8 list \<Rightarrow> FileMetadata option"
  ce_md5 :: hash
  ce_sha256 :: hash
  ce_url_ok :: "string \<Rightarrow> bool"
  ce_expired :: "string \<Rightarrow> (string \<times> string) list \<Rightarrow> string \<Rightarrow> string \<Rightarrow> bool"
  ce_supports_range :: "string \<Rightarrow> (string \<times> string) list \<Rightarrow> bool option"
  ce_download :: "string \<Rightarrow> (string \<times> string) list \<Rightarrow> (source_reader \<times> string \<times> string) option"

datatype cache_error =
  ErrStat disk_error | ErrReadMeta disk_error | ErrInconsistent | ErrRequest | ErrExpired | ErrRangeCheck | ErrNoRange
| ErrNotSuccess | ErrReadRecords disk_error | ErrPieceCount | ErrMd5Sign | ErrFileSize | ErrReadData file_error
| ErrWriteRecords file_error | ErrReset disk_error | ErrWriteMeta file_error | ErrPublish seed_task_error
| ErrBreakRange | ErrDownload | ErrReadSource | ErrWritePiece file_error | ErrAppendMeta file_error | ErrCancelled
| ErrDigestMismatch | ErrLengthMismatch | ErrCountMismatch

definition LastModified :: string where "LastModified = ''X-Dragonfly-Last-Modified''"

definition ETag :: string where "ETag = ''X-Dragonfly-ETag''"

definition RangeHeader :: string where "RangeHeader = ''X-Dragonfly-Range''"

section \<open>metadata\_manager.go\<close>

definition file_metadata_of :: "int64 \<Rightarrow> SeedTask \<Rightarrow> FileMetadata" where
  "file_metadata_of millis t =
     \<lparr>fm_TaskID = sd_ID t, fm_TaskURL = sd_TaskURL t, fm_PieceSize = sd_PieceSize t, fm_SourceFileLen = sd_SourceFileLength t,
      fm_AccessTime = millis, fm_Interval = 0, fm_CdnFileLength = sd_CdnFileLength t, fm_Digest = sd_Digest t,
      fm_SourceRealDigest = [], fm_Tag = sd_Tag t, fm_ExpireInfo = [], fm_Finish = False, fm_Success = False,
      fm_TotalPieceCount = sd_TotalPieceCount t, fm_PieceMd5Sign = [], fm_Range = sd_Range t, fm_Filter = sd_Filter t\<rparr>"

definition writeFileMetadataByTask ::
  "cdn_env \<Rightarrow> int64 \<Rightarrow> SeedTask \<Rightarrow> fs \<Rightarrow> ((cache_error + FileMetadata) \<times> fs) outcome" where
  "writeFileMetadataByTask env millis t s =
     (let metadata = file_metadata_of millis t
      in obind (WriteFileMetadata (ce_bad env) (ce_marshal env) (ce_base env) (sd_ID t) metadata s) (\<lambda>(e, s').
           Ret (case e of Some x \<Rightarrow> Inl (ErrWriteMeta x) | None \<Rightarrow> Inr metadata, s')))"

definition readFileMetadata :: "cdn_env \<Rightarrow> string \<Rightarrow> fs \<Rightarrow> disk_error + FileMetadata" where
  "readFileMetadata env taskID s = ReadFileMetadata (ce_bad env) (ce_unmarshal env) (ce_base env) taskID s"

text \<open>The three updates read the metadata, change it and write it back.\<close>

definition change_metadata ::
  "cdn_env \<Rightarrow> string \<Rightarrow> (FileMetadata \<Rightarrow> FileMetadata) \<Rightarrow> fs \<Rightarrow> (cache_error option \<times> fs) outcome" where
  "change_metadata env taskID f s =
     (case readFileMetadata env taskID s of
        Inl e \<Rightarrow> Ret (Some (ErrReadMeta e), s)
      | Inr m \<Rightarrow>
          obind (WriteFileMetadata (ce_bad env) (ce_marshal env) (ce_base env) taskID (f m) s) (\<lambda>(e, s').
            Ret (map_option ErrWriteMeta e, s')))"

definition access_metadata :: "int64 \<Rightarrow> FileMetadata \<Rightarrow> FileMetadata" where
  "access_metadata accessTime m =
     (let interval = accessTime - fm_AccessTime m
      in m\<lparr>fm_Interval := (if sint interval \<le> 0 then 0 else interval), fm_AccessTime := accessTime\<rparr>)"

definition updateAccessTime :: "cdn_env \<Rightarrow> string \<Rightarrow> int64 \<Rightarrow> fs \<Rightarrow> (cache_error option \<times> fs) outcome" where
  "updateAccessTime env taskID accessTime s = change_metadata env taskID (access_metadata accessTime) s"

definition updateExpireInfo :: "cdn_env \<Rightarrow> string \<Rightarrow> (string, string) gomap \<Rightarrow> fs \<Rightarrow> (cache_error option \<times> fs) outcome" where
  "updateExpireInfo env taskID expireInfo s = change_metadata env taskID (\<lambda>m. m\<lparr>fm_ExpireInfo := expireInfo\<rparr>) s"

definition result_metadata :: "FileMetadata \<Rightarrow> FileMetadata \<Rightarrow> FileMetadata" where
  "result_metadata metadata origin =
     (let m = origin\<lparr>fm_Finish := fm_Finish metadata, fm_Success := fm_Success metadata\<rparr>
      in if fm_Success m
         then let m1 = m\<lparr>fm_CdnFileLength := fm_CdnFileLength metadata, fm_SourceFileLen := fm_SourceFileLen metadata\<rparr>;
                  m2 = (if sint (fm_TotalPieceCount metadata) > 0
                        then m1\<lparr>fm_TotalPieceCount := fm_TotalPieceCount metadata\<rparr> else m1);
                  m3 = (if \<not> IsBlank (fm_SourceRealDigest metadata)
                        then m2\<lparr>fm_SourceRealDigest := fm_SourceRealDigest metadata\<rparr> else m2)
              in if \<not> IsBlank (fm_PieceMd5Sign metadata) then m3\<lparr>fm_PieceMd5Sign := fm_PieceMd5Sign metadata\<rparr> else m3
         else m)"

definition updateStatusAndResult :: "cdn_env \<Rightarrow> string \<Rightarrow> FileMetadata \<Rightarrow> fs \<Rightarrow> (cache_error option \<times> fs) outcome" where
  "updateStatusAndResult env taskID metadata s = change_metadata env taskID (result_metadata metadata) s"

text \<open>\<open>sort.Slice\<close> by piece number; records of one task have different numbers.\<close>

definition sort_records :: "PieceMetaRecord list \<Rightarrow> PieceMetaRecord list" where
  "sort_records rs = sort_key pr_PieceNum rs"

definition readPieceMetaRecords :: "cdn_env \<Rightarrow> string \<Rightarrow> fs \<Rightarrow> disk_error + PieceMetaRecord list" where
  "readPieceMetaRecords env taskID s =
     (case ReadPieceMetaRecords (ce_bad env) (ce_base env) taskID s of Inl e \<Rightarrow> Inl e | Inr rs \<Rightarrow> Inr (sort_records rs))"

definition getPieceMd5Sign :: "cdn_env \<Rightarrow> string \<Rightarrow> fs \<Rightarrow> disk_error + string \<times> PieceMetaRecord list" where
  "getPieceMd5Sign env taskID s =
     (case ReadPieceMetaRecords (ce_bad env) (ce_base env) taskID s of
        Inl e \<Rightarrow> Inl e
      | Inr rs \<Rightarrow> let pieceMetaRecords = sort_records rs
                   in Inr (Sha256 (ce_sha256 env) (map pr_Md5 pieceMetaRecords), pieceMetaRecords))"

section \<open>cache\_detector.go\<close>

record cacheResult =
  cr_BreakPoint :: int64
  cr_PieceMetaRecords :: "PieceMetaRecord list"
  cr_FileMetadata :: FileMetadata

definition checkMetadata :: "SeedTask \<Rightarrow> FileMetadata \<Rightarrow> bool" where
  "checkMetadata t m =
     (if fm_TaskID m \<noteq> sd_ID t then False
      else if fm_TaskURL m \<noteq> sd_TaskURL t then False
      else if fm_PieceSize m \<noteq> sd_PieceSize t then False
      else if sd_Range t \<noteq> fm_Range m then False
      else if sd_Digest t \<noteq> fm_Digest m then False
      else if sd_Tag t \<noteq> fm_Tag m then False
      else if sd_Filter t \<noteq> fm_Filter m then False
      else True)"

text \<open>
  The digest of a file as it is fed: the bytes so far, or no hash function for an unknown algorithm, which
  panics when it is written to. A short read has no error to wrap, and wrapping no error gives none.
\<close>

type_synonym digest_state = "(algorithm \<times> string) option"

definition digest_write :: "string \<Rightarrow> digest_state \<Rightarrow> digest_state" where
  "digest_write x d = map_option (\<lambda>(a, c). (a, c @ x)) d"

definition checkPieceContent ::
  "hash \<Rightarrow> PieceMetaRecord \<Rightarrow> uint8 list \<Rightarrow> digest_state \<Rightarrow> (bool \<times> uint8 list \<times> digest_state) outcome" where
  "checkPieceContent md5 r reader fileDigest =
     (let n = unat (pr_PieceLen r); content = take n reader; rest = drop n reader
      in if fileDigest = None \<and> content \<noteq> [] then Panic ''nil pointer dereference''
         else
           let fileDigest' = digest_write (text_of content) fileDigest
           in if length content \<noteq> n then Ret (True, rest, fileDigest')
              else Ret (ToHashString (md5 (text_of content)) = pr_Md5 r, rest, fileDigest'))"

fun detect_pieces ::
  "hash \<Rightarrow> nat \<Rightarrow> PieceMetaRecord list \<Rightarrow> uint8 list \<Rightarrow> digest_state \<Rightarrow> int64 \<Rightarrow> PieceMetaRecord list \<Rightarrow>
   (int64 \<times> PieceMetaRecord list \<times> digest_state) outcome" where
  "detect_pieces md5 index [] reader fileDigest breakPoint acc = Ret (breakPoint, acc, fileDigest)"
| "detect_pieces md5 index (r # rs) reader fileDigest breakPoint acc =
     (if of_nat index \<noteq> pr_PieceNum r then Ret (breakPoint, acc, fileDigest)
      else obind (checkPieceContent md5 r reader fileDigest) (\<lambda>(ok, rest, fileDigest').
        if \<not> ok then Ret (breakPoint, acc, fileDigest')
        else case pr_OriginRange r of
               None \<Rightarrow> Panic ''nil pointer dereference''
             | Some rg \<Rightarrow>
                 detect_pieces md5 (index + 1) rs rest fileDigest' (EndIndex rg + 1) (acc @ [r])))"

definition detectByReadMetaFile :: "cdn_env \<Rightarrow> string \<Rightarrow> FileMetadata \<Rightarrow> fs \<Rightarrow> cache_error + cacheResult" where
  "detectByReadMetaFile env taskID fileMetadata s =
     (if \<not> fm_Success fileMetadata then Inl ErrNotSuccess
      else case getPieceMd5Sign env taskID s of
             Inl e \<Rightarrow> Inl (ErrReadRecords e)
           | Inr (md5Sign, pieceMetaRecords) \<Rightarrow>
               if sint (fm_TotalPieceCount fileMetadata) > 0 \<and>
                  int (length pieceMetaRecords) \<noteq> sint (fm_TotalPieceCount fileMetadata) then Inl ErrPieceCount
               else if fm_PieceMd5Sign fileMetadata \<noteq> [] \<and> md5Sign \<noteq> fm_PieceMd5Sign fileMetadata then Inl ErrMd5Sign
               else case StatDownloadFile (ce_bad env) (ce_base env) taskID s of
                      Inl e \<Rightarrow> Inl (ErrStat e)
                    | Inr storageInfo \<Rightarrow>
                        if fm_CdnFileLength fileMetadata \<noteq> si_Size storageInfo then Inl ErrFileSize
                        else Inr \<lparr>cr_BreakPoint = -1, cr_PieceMetaRecords = pieceMetaRecords, cr_FileMetadata = fileMetadata\<rparr>)"

definition detectByReadFile ::
  "cdn_env \<Rightarrow> string \<Rightarrow> FileMetadata \<Rightarrow> digest_state \<Rightarrow> fs \<Rightarrow> ((cache_error + cacheResult) \<times> digest_state \<times> fs) outcome" where
  "detectByReadFile env taskID metadata fileDigest s =
     (case ReadDownloadFile (ce_bad env) (ce_base env) taskID s of
        Inl e \<Rightarrow> Ret (Inl (ErrReadData e), fileDigest, s)
      | Inr reader \<Rightarrow>
          (case readPieceMetaRecords env taskID s of
             Inl e \<Rightarrow> Ret (Inl (ErrReadRecords e), fileDigest, s)
           | Inr tempRecords \<Rightarrow>
               obind (detect_pieces (ce_md5 env) 0 (sort_records tempRecords) reader fileDigest 0 [])
                 (\<lambda>(breakPoint, pieceMetaRecords, fileDigest').
                   let result = \<lparr>cr_BreakPoint = breakPoint, cr_PieceMetaRecords = pieceMetaRecords, cr_FileMetadata = metadata\<rparr>
                   in if length tempRecords \<noteq> length pieceMetaRecords
                      then obind (WritePieceMetaRecords (ce_bad env) (ce_base env) taskID pieceMetaRecords s) (\<lambda>(e, s').
                             Ret (case e of Some x \<Rightarrow> Inl (ErrWriteRecords x) | None \<Rightarrow> Inr result, fileDigest', s'))
                      else Ret (Inr result, fileDigest', s))))"

definition doDetect ::
  "cdn_env \<Rightarrow> SeedTask \<Rightarrow> digest_state \<Rightarrow> fs \<Rightarrow> ((cache_error + cacheResult) \<times> digest_state \<times> fs) outcome" where
  "doDetect env t fileDigest s =
     (let headers = (case sd_Header t of None \<Rightarrow> [] | Some m \<Rightarrow> m)
      in case StatDownloadFile (ce_bad env) (ce_base env) (sd_ID t) s of
           Inl e \<Rightarrow> Ret (Inl (ErrStat e), fileDigest, s)
         | Inr _ \<Rightarrow>
             (case readFileMetadata env (sd_ID t) s of
                Inl e \<Rightarrow> Ret (Inl (ErrReadMeta e), fileDigest, s)
              | Inr m \<Rightarrow>
                  if \<not> checkMetadata t m then Ret (Inl ErrInconsistent, fileDigest, s)
                  else if \<not> ce_url_ok env (sd_RawURL t) then Ret (Inl ErrRequest, fileDigest, s)
                  else if ce_expired env (sd_RawURL t) headers
                            (case Load (fm_ExpireInfo m) LastModified of None \<Rightarrow> [] | Some v \<Rightarrow> v)
                            (case Load (fm_ExpireInfo m) ETag of None \<Rightarrow> [] | Some v \<Rightarrow> v)
                  then Ret (Inl ErrExpired, fileDigest, s)
                  else if fm_Finish m then Ret (detectByReadMetaFile env (sd_ID t) m s, fileDigest, s)
                  else case ce_supports_range env (sd_RawURL t) (headers @ [(RangeHeader, ''0-0'')]) of
                         None \<Rightarrow> Ret (Inl ErrRangeCheck, fileDigest, s)
                       | Some supportRange \<Rightarrow>
                           if \<not> supportRange then Ret (Inl ErrNoRange, fileDigest, s)
                           else detectByReadFile env (sd_ID t) m fileDigest s))"

definition resetCache :: "cdn_env \<Rightarrow> int64 \<Rightarrow> SeedTask \<Rightarrow> fs \<Rightarrow> ((cache_error + FileMetadata) \<times> fs) outcome" where
  "resetCache env millis t s =
     (case ResetRepo (ce_bad env) (ce_base env) (sd_ID t) s of
        (Some e, s') \<Rightarrow> Ret (Inl (ErrReset e), s')
      | (None, s') \<Rightarrow> writeFileMetadataByTask env millis t s')"

definition detectCache ::
  "cdn_env \<Rightarrow> int64 \<Rightarrow> SeedTask \<Rightarrow> digest_state \<Rightarrow> fs \<Rightarrow> ((cache_error + cacheResult) \<times> digest_state \<times> fs) outcome" where
  "detectCache env millis t fileDigest s =
     obind (doDetect env t fileDigest s) (\<lambda>(res, fileDigest', s1).
       case res of
         Inl _ \<Rightarrow>
           obind (resetCache env millis t s1) (\<lambda>(res', s2).
             Ret (case res' of
                    Inl e \<Rightarrow> Inl e
                  | Inr metadata \<Rightarrow> Inr \<lparr>cr_BreakPoint = 0, cr_PieceMetaRecords = [], cr_FileMetadata = metadata\<rparr>,
                  fileDigest', s2))
       | Inr r \<Rightarrow>
           obind (updateAccessTime env (sd_ID t) millis s1) (\<lambda>(_, s2). Ret (Inr r, fileDigest', s2)))"

section \<open>reporter.go\<close>

definition convertPieceMeta2SeedPiece :: "PieceMetaRecord \<Rightarrow> seed_PieceInfo" where
  "convertPieceMeta2SeedPiece r =
     \<lparr>pi_PieceNum = pr_PieceNum r, pi_PieceMd5 = pr_Md5 r, pi_PieceRange = pr_Range r, pi_OriginRange = pr_OriginRange r,
      pi_PieceLen = pr_PieceLen r, pi_PieceStyle = pr_PieceStyle r\<rparr>"

definition reportPieceMetaRecord ::
  "time \<Rightarrow> string \<Rightarrow> PieceMetaRecord \<Rightarrow> progress_manager \<Rightarrow> seed_task_error option \<times> progress_manager" where
  "reportPieceMetaRecord now taskID r pm = PublishPiece now taskID (convertPieceMeta2SeedPiece r) pm"

fun reportDetectResult ::
  "time \<Rightarrow> string \<Rightarrow> PieceMetaRecord list \<Rightarrow> progress_manager \<Rightarrow> seed_task_error option \<times> progress_manager" where
  "reportDetectResult now taskID [] pm = (None, pm)"
| "reportDetectResult now taskID (r # rs) pm =
     (case reportPieceMetaRecord now taskID r pm of
        (Some e, pm') \<Rightarrow> (Some e, pm')
      | (None, pm') \<Rightarrow> reportDetectResult now taskID rs pm')"

section \<open>cache\_writer.go\<close>

record piece_job =
  pj_num :: uint32
  pj_size :: uint32
  pj_content :: "uint8 list"

text \<open>
  The producer is \<open>doWrite\<close>: about to read, about to send a piece on the unbuffered channel (the flag says that the
  piece is a short one, after which it stops), or past the loop with the channel closed. A worker is a
  goroutine of \<open>writerPool\<close>: waiting on the channel, before the test of the context, before each of its three
  calls, or returned. The context of the group is cancelled when the first worker returned an error.
\<close>

datatype producer = ReadNext | SendPiece piece_job bool | AllSent | ReadFailed

datatype worker =
  WaitPiece | GotPiece piece_job | WritePieceData piece_job | AppendMeta PieceMetaRecord | ReportPiece PieceMetaRecord
| Returned "cache_error option"

record write_pool =
  wp_fs :: fs
  wp_pm :: progress_manager
  wp_source :: source_reader
  wp_digest :: digest_state
  wp_cur :: int32
  wp_back :: int64
  wp_producer :: producer
  wp_workers :: "worker list"
  wp_err :: "cache_error option"

datatype choice = Producer | Worker nat

definition calculateRoutineCount :: "int64 \<Rightarrow> int32 \<Rightarrow> int64 \<Rightarrow> int64" where
  "calculateRoutineCount remainingFileLength pieceSize writerRoutineLimit =
     (let routineSize = writerRoutineLimit
      in if sint remainingFileLength < 0 \<or> sint pieceSize \<le> 0 then routineSize
         else if remainingFileLength = 0 then 1
         else
           let tmpSize = go_div (remainingFileLength + scast (pieceSize - 1)) (scast pieceSize);
               tmpSize = (if tmpSize = 0 then 1 else tmpSize)
           in if sint tmpSize < sint routineSize then tmpSize else routineSize)"

text \<open>The record of a piece that was written: its bounds in the file and the digest of its bytes.\<close>

definition job_record :: "hash \<Rightarrow> piece_job \<Rightarrow> PieceMetaRecord" where
  "job_record md5 p =
     (let pieceLen = length (pj_content p);
          start = ucast (pj_num p) * ucast (pj_size p) :: uint64;
          r = \<lparr>StartIndex = start, EndIndex = start + of_nat pieceLen - 1\<rparr>
      in \<lparr>pr_PieceNum = pj_num p, pr_PieceLen = of_nat pieceLen, pr_Md5 = ToHashString (md5 (text_of (pj_content p))),
          pr_Range = Some r, pr_OriginRange = Some r, pr_PieceStyle = 0\<rparr>)"

definition job_offset :: "piece_job \<Rightarrow> int64" where
  "job_offset p = ucast (pj_num p) * ucast (pj_size p)"

definition set_worker :: "nat \<Rightarrow> worker \<Rightarrow> write_pool \<Rightarrow> write_pool" where
  "set_worker i w p = p\<lparr>wp_workers := (wp_workers p)[i := w]\<rparr>"

text \<open>A worker returns: the first error of the group is kept and cancels the context.\<close>

definition worker_fails :: "nat \<Rightarrow> cache_error \<Rightarrow> write_pool \<Rightarrow> write_pool" where
  "worker_fails i e p =
     set_worker i (Returned (Some e)) (p\<lparr>wp_err := (case wp_err p of None \<Rightarrow> Some e | Some e' \<Rightarrow> Some e')\<rparr>)"

definition producer_step :: "SeedTask \<Rightarrow> write_pool \<Rightarrow> write_pool option" where
  "producer_step t p =
     (case wp_producer p of
        ReadNext \<Rightarrow>
          if wp_err p \<noteq> None then Some (p\<lparr>wp_producer := AllSent\<rparr>)
          else
            (let (bs, fails) = wp_source p; size = nat (sint (sd_PieceSize t)); chunk = take size bs; n = length chunk
             in if fails \<and> length bs < size then Some (p\<lparr>wp_producer := ReadFailed\<rparr>)
                else if n = 0 then Some (p\<lparr>wp_producer := AllSent\<rparr>)
                else Some (p\<lparr>wp_source := (drop size bs, fails),
                             wp_digest := digest_write (text_of chunk) (wp_digest p),
                             wp_back := wp_back p + of_nat n,
                             wp_producer := SendPiece \<lparr>pj_num = scast (wp_cur p), pj_size = scast (sd_PieceSize t), pj_content = chunk\<rparr>
                                              (n < size)\<rparr>))
      | _ \<Rightarrow> None)"

text \<open>The channel hands the piece to any worker that waits; that is a step of this worker.\<close>

definition worker_step :: "cdn_env \<Rightarrow> SeedTask \<Rightarrow> time \<Rightarrow> nat \<Rightarrow> write_pool \<Rightarrow> write_pool option" where
  "worker_step env t now i p =
     (if i < length (wp_workers p) then
        (case wp_workers p ! i of
           WaitPiece \<Rightarrow>
             (case wp_producer p of
                SendPiece job short \<Rightarrow>
                  Some (set_worker i (GotPiece job)
                          (p\<lparr>wp_cur := wp_cur p + 1, wp_producer := (if short then AllSent else ReadNext)\<rparr>))
              | ReadNext \<Rightarrow> None
              | _ \<Rightarrow> Some (set_worker i (Returned None) p))
         | GotPiece job \<Rightarrow>
             if wp_err p \<noteq> None then Some (worker_fails i ErrCancelled p) else Some (set_worker i (WritePieceData job) p)
         | WritePieceData job \<Rightarrow>
             (case WriteDownloadFile (ce_bad env) (ce_base env) (sd_ID t) (job_offset job) (of_nat (length (pj_content job)))
                     (pj_content job, False) (wp_fs p) of
                (Some e, s) \<Rightarrow> Some (worker_fails i (ErrWritePiece e) (p\<lparr>wp_fs := s\<rparr>))
              | (None, s) \<Rightarrow> Some (set_worker i (AppendMeta (job_record (ce_md5 env) job)) (p\<lparr>wp_fs := s\<rparr>)))
         | AppendMeta r \<Rightarrow>
             (case AppendPieceMetadata (ce_bad env) (ce_base env) (sd_ID t) r (wp_fs p) of
                Ret (Some e, s) \<Rightarrow> Some (worker_fails i (ErrAppendMeta e) (p\<lparr>wp_fs := s\<rparr>))
              | Ret (None, s) \<Rightarrow> Some (set_worker i (ReportPiece r) (p\<lparr>wp_fs := s\<rparr>))
              | _ \<Rightarrow> None)
         | ReportPiece r \<Rightarrow>
             (case reportPieceMetaRecord now (sd_ID t) r (wp_pm p) of
                (Some e, pm) \<Rightarrow> Some (worker_fails i (ErrPublish e) (p\<lparr>wp_pm := pm\<rparr>))
              | (None, pm) \<Rightarrow> Some (set_worker i WaitPiece (p\<lparr>wp_pm := pm\<rparr>)))
         | Returned _ \<Rightarrow> None)
      else None)"

definition pool_step :: "cdn_env \<Rightarrow> SeedTask \<Rightarrow> time \<Rightarrow> choice \<Rightarrow> write_pool \<Rightarrow> write_pool option" where
  "pool_step env t now c p = (case c of Producer \<Rightarrow> producer_step t p | Worker i \<Rightarrow> worker_step env t now i p)"

text \<open>A run under a schedule; a choice that cannot move is passed over.\<close>

fun run_pool :: "cdn_env \<Rightarrow> SeedTask \<Rightarrow> (choice \<times> time) list \<Rightarrow> write_pool \<Rightarrow> write_pool" where
  "run_pool env t [] p = p"
| "run_pool env t ((c, now) # sched) p =
     run_pool env t sched (case pool_step env t now c p of None \<Rightarrow> p | Some p' \<Rightarrow> p')"

definition returned :: "worker \<Rightarrow> bool" where
  "returned w = (case w of Returned _ \<Rightarrow> True | _ \<Rightarrow> False)"

text \<open>What \<open>doWrite\<close> returns in a state of the pool, if it returns there: after a failed read it does not wait.\<close>

definition write_result :: "write_pool \<Rightarrow> (cache_error + int32) option" where
  "write_result p =
     (case wp_producer p of
        ReadFailed \<Rightarrow> Some (Inl ErrReadSource)
      | AllSent \<Rightarrow>
          if list_all returned (wp_workers p)
          then Some (case wp_err p of Some e \<Rightarrow> Inl e | None \<Rightarrow> Inr (wp_cur p))
          else None
      | _ \<Rightarrow> None)"

definition start_pool ::
  "SeedTask \<Rightarrow> nat \<Rightarrow> int64 \<Rightarrow> source_reader \<Rightarrow> digest_state \<Rightarrow> fs \<Rightarrow> progress_manager \<Rightarrow> write_pool" where
  "start_pool t routineCount breakPoint reader d s pm =
     \<lparr>wp_fs = s, wp_pm = pm, wp_source = reader, wp_digest = d,
      wp_cur = scast (go_div breakPoint (scast (sd_PieceSize t))), wp_back = 0, wp_producer = ReadNext,
      wp_workers = replicate routineCount WaitPiece, wp_err = None\<rparr>"

text \<open>\<open>Diverge\<close>: the call has not returned under the schedule.\<close>

definition doWrite ::
  "cdn_env \<Rightarrow> SeedTask \<Rightarrow> (choice \<times> time) list \<Rightarrow> nat \<Rightarrow> int64 \<Rightarrow> source_reader \<Rightarrow> digest_state \<Rightarrow> fs \<Rightarrow> progress_manager \<Rightarrow>
   ((cache_error + int32) \<times> write_pool) outcome" where
  "doWrite env t sched routineCount breakPoint reader d s pm =
     (if sd_PieceSize t = 0 then Panic ''integer divide by zero''
      else
        let p = run_pool env t sched (start_pool t routineCount breakPoint reader d s pm)
        in case write_result p of Some r \<Rightarrow> Ret (r, p) | None \<Rightarrow> Diverge)"

record downloadMetadata =
  dm_backSourceLength :: int64
  dm_realCdnFileLength :: int64
  dm_realSourceFileLength :: int64
  dm_totalPieceCount :: int32
  dm_pieceMd5Sign :: string
  dm_sourceRealDigest :: string

text \<open>\<open>LimitReader.Digest\<close>: the algorithm and the digest of what passed, or nothing without a hash function.\<close>

definition reader_Digest :: "cdn_env \<Rightarrow> digest_state \<Rightarrow> string" where
  "reader_Digest env d =
     (case d of
        Some (Md5Hash, c) \<Rightarrow> ''md5:'' @ ToHashString (ce_md5 env c)
      | Some (Sha256Hash, c) \<Rightarrow> ''sha256:'' @ ToHashString (ce_sha256 env c)
      | None \<Rightarrow> [])"

definition startWriter ::
  "cdn_env \<Rightarrow> SeedTask \<Rightarrow> (choice \<times> time) list \<Rightarrow> int64 \<Rightarrow> int64 \<Rightarrow> source_reader \<Rightarrow> digest_state \<Rightarrow> fs \<Rightarrow> progress_manager \<Rightarrow>
   ((cache_error + downloadMetadata) \<times> fs \<times> progress_manager) outcome" where
  "startWriter env t sched breakPoint writerRoutineLimit reader d s pm =
     (let routineCount = calculateRoutineCount (sd_SourceFileLength t - breakPoint) (sd_PieceSize t) writerRoutineLimit
      in obind (doWrite env t sched (nat (sint routineCount)) breakPoint reader d s pm) (\<lambda>(res, p).
           Ret (case res of
                  Inl e \<Rightarrow> Inl e
                | Inr totalPieceCount \<Rightarrow>
                    (case StatDownloadFile (ce_bad env) (ce_base env) (sd_ID t) (wp_fs p) of
                       Inl e \<Rightarrow> Inl (ErrStat e)
                     | Inr storageInfo \<Rightarrow>
                         (case getPieceMd5Sign env (sd_ID t) (wp_fs p) of
                            Inl e \<Rightarrow> Inl (ErrReadRecords e)
                          | Inr (pieceMd5Sign, _) \<Rightarrow>
                              Inr \<lparr>dm_backSourceLength = wp_back p, dm_realCdnFileLength = si_Size storageInfo,
                                   dm_realSourceFileLength = breakPoint + wp_back p, dm_totalPieceCount = totalPieceCount,
                                   dm_pieceMd5Sign = pieceMd5Sign, dm_sourceRealDigest = reader_Digest env (wp_digest p)\<rparr>)),
                wp_fs p, wp_pm p)))"

section \<open>downloader.go\<close>

definition getBreakRange :: "int64 \<Rightarrow> string \<Rightarrow> int64 \<Rightarrow> (cache_error + string) outcome" where
  "getBreakRange breakPoint taskRange fileTotalLength =
     (if sint breakPoint \<le> 0 then Ret (Inl ErrBreakRange)
      else if sint fileTotalLength \<le> 0 then Ret (Inl ErrBreakRange)
      else if IsBlank taskRange
      then Ret (Inr (show_int (sint breakPoint) @ ''-'' @ show_int (sint (fileTotalLength - 1))))
      else
        obind (ParseRange taskRange (ucast fileTotalLength)) (\<lambda>res.
          case res of
            Inl _ \<Rightarrow> Ret (Inl ErrBreakRange)
          | Inr requestRange \<Rightarrow>
              if sint breakPoint \<ge> sint (ucast (EndIndex requestRange - StartIndex requestRange + 1) :: int64)
              then Ret (Inl ErrBreakRange)
              else Ret (Inr (show_nat (unat (StartIndex requestRange + ucast breakPoint)) @ ''-'' @
                             show_nat (unat (EndIndex requestRange))))))"

definition download ::
  "cdn_env \<Rightarrow> SeedTask \<Rightarrow> int64 \<Rightarrow> fs \<Rightarrow> ((cache_error + source_reader) \<times> fs) outcome" where
  "download env t breakPoint s =
     obind (if sint breakPoint > 0 then getBreakRange breakPoint (sd_Range t) (sd_SourceFileLength t)
            else Ret (Inr (sd_Range t))) (\<lambda>res.
       case res of
         Inl e \<Rightarrow> Ret (Inl e, s)
       | Inr breakRange \<Rightarrow>
           if \<not> ce_url_ok env (sd_RawURL t) then Ret (Inl ErrRequest, s)
           else
             let headers = (case sd_Header t of None \<Rightarrow> [] | Some m \<Rightarrow> m) @
                           (if IsBlank breakRange then [] else [(RangeHeader, breakRange)])
             in case ce_download env (sd_RawURL t) headers of
                  None \<Rightarrow> Ret (Inl ErrDownload, s)
                | Some (body, lastModified, eTag) \<Rightarrow>
                    obind (updateExpireInfo env (sd_ID t) [(LastModified, lastModified), (ETag, eTag)] s) (\<lambda>(_, s').
                      Ret (Inr body, s')))"

section \<open>manager.go\<close>

definition getUpdateTaskInfo ::
  "SeedTask \<Rightarrow> string \<Rightarrow> string \<Rightarrow> string \<Rightarrow> int64 \<Rightarrow> int64 \<Rightarrow> int32 \<Rightarrow> SeedTask" where
  "getUpdateTaskInfo t cdnStatus realMD5 pieceMd5Sign sourceFileLength cdnFileLength totalPieceCount =
     t\<lparr>sd_SourceFileLength := sourceFileLength, sd_CdnFileLength := cdnFileLength, sd_CdnStatus := cdnStatus,
       sd_TotalPieceCount := totalPieceCount, sd_SourceRealDigest := realMD5, sd_PieceMd5Sign := pieceMd5Sign\<rparr>"

definition getUpdateTaskInfoWithStatusOnly :: "SeedTask \<Rightarrow> string \<Rightarrow> SeedTask" where
  "getUpdateTaskInfoWithStatusOnly t cdnStatus = t\<lparr>sd_CdnStatus := cdnStatus\<rparr>"

definition check_result :: "SeedTask \<Rightarrow> downloadMetadata \<Rightarrow> cache_error option" where
  "check_result t dm =
     (if \<not> IsBlank (sd_Digest t) \<and> sd_Digest t \<noteq> dm_sourceRealDigest dm then Some ErrDigestMismatch
      else if sint (sd_SourceFileLength t) \<ge> 0 \<and> sd_SourceFileLength t \<noteq> dm_realSourceFileLength dm then Some ErrLengthMismatch
      else if sint (sd_TotalPieceCount t) > 0 \<and> dm_totalPieceCount dm \<noteq> sd_TotalPieceCount t then Some ErrCountMismatch
      else None)"

text \<open>The fields of the metadata the result does not set are zero and are not read by the update.\<close>

definition result_of :: "SeedTask \<Rightarrow> downloadMetadata \<Rightarrow> FileMetadata" where
  "result_of t dm =
     (let success = check_result t dm = None
      in \<lparr>fm_TaskID = [], fm_TaskURL = [], fm_PieceSize = 0,
          fm_SourceFileLen = (if success \<and> sint (sd_SourceFileLength t) \<le> 0 then dm_realSourceFileLength dm
                              else sd_SourceFileLength t),
          fm_AccessTime = 0, fm_Interval = 0, fm_CdnFileLength = dm_realCdnFileLength dm, fm_Digest = [],
          fm_SourceRealDigest = dm_sourceRealDigest dm, fm_Tag = [], fm_ExpireInfo = [], fm_Finish = True,
          fm_Success = success, fm_TotalPieceCount = dm_totalPieceCount dm, fm_PieceMd5Sign = dm_pieceMd5Sign dm,
          fm_Range = [], fm_Filter = []\<rparr>)"

definition handleCDNResult :: "cdn_env \<Rightarrow> SeedTask \<Rightarrow> downloadMetadata \<Rightarrow> fs \<Rightarrow> (cache_error option \<times> fs) outcome" where
  "handleCDNResult env t dm s =
     obind (updateStatusAndResult env (sd_ID t) (result_of t dm) s) (\<lambda>(e, s').
       Ret (case e of Some x \<Rightarrow> Some x | None \<Rightarrow> check_result t dm, s'))"

definition request_digest :: "SeedTask \<Rightarrow> digest_state" where
  "request_digest t =
     (if IsBlank (sd_Digest t) then Some (Md5Hash, [])
      else map_option (\<lambda>a. (a, [])) (CreateHash (hd (Parse_digest (sd_Digest t)))))"

text \<open>One call holds the lock of its task, so that only the goroutines of the writer run beside it.\<close>

record cdn_run =
  ru_millis :: int64
  ru_now :: time
  ru_limit :: int64
  ru_sched :: "(choice \<times> time) list"

definition doTrigger ::
  "cdn_env \<Rightarrow> cdn_run \<Rightarrow> SeedTask \<Rightarrow> fs \<Rightarrow> progress_manager \<Rightarrow> ((cache_error + SeedTask) \<times> fs \<times> progress_manager) outcome" where
  "doTrigger env run t s pm =
     obind (detectCache env (ru_millis run) t (request_digest t) s) (\<lambda>(res, fileDigest, s1).
       case res of
         Inl e \<Rightarrow> Ret (Inl e, s1, pm)
       | Inr detectResult \<Rightarrow>
           (case reportDetectResult (ru_now run) (sd_ID t) (cr_PieceMetaRecords detectResult) pm of
              (Some e, pm1) \<Rightarrow> Ret (Inl (ErrPublish e), s1, pm1)
            | (None, pm1) \<Rightarrow>
                if cr_BreakPoint detectResult = -1
                then let m = cr_FileMetadata detectResult
                     in Ret (Inr (getUpdateTaskInfo t StatusSuccess (fm_SourceRealDigest m) (fm_PieceMd5Sign m)
                                    (fm_SourceFileLen m) (fm_CdnFileLength m) (fm_TotalPieceCount m)), s1, pm1)
                else
                  obind (download env t (cr_BreakPoint detectResult) s1) (\<lambda>(res2, s2).
                    case res2 of
                      Inl e \<Rightarrow> Ret (Inl e, s2, pm1)
                    | Inr respBody \<Rightarrow>
                        obind (startWriter env t (ru_sched run) (cr_BreakPoint detectResult) (ru_limit run) respBody fileDigest s2 pm1)
                          (\<lambda>(res3, s3, pm2).
                            case res3 of
                              Inl e \<Rightarrow> Ret (Inl e, s3, pm2)
                            | Inr dm \<Rightarrow>
                                obind (handleCDNResult env t dm s3) (\<lambda>(e, s4).
                                  case e of
                                    Some x \<Rightarrow> Ret (Inl x, s4, pm2)
                                  | None \<Rightarrow>
                                      Ret (Inr (getUpdateTaskInfo t StatusSuccess (dm_sourceRealDigest dm) (dm_pieceMd5Sign dm)
                                                  (dm_realSourceFileLength dm) (dm_realCdnFileLength dm) (dm_totalPieceCount dm)),
                                           s4, pm2))))))"

definition TriggerCDN ::
  "cdn_env \<Rightarrow> cdn_run \<Rightarrow> SeedTask \<Rightarrow> fs \<Rightarrow> progress_manager \<Rightarrow> (SeedTask \<times> seed_task_error option \<times> fs \<times> progress_manager) outcome" where
  "TriggerCDN env run t s pm =
     obind (doTrigger env run t s pm) (\<lambda>(res, s1, pm1).
       let updateTaskInfo = (case res of Inl _ \<Rightarrow> getUpdateTaskInfoWithStatusOnly t StatusFailed | Inr u \<Rightarrow> u)
       in case PublishTask (ru_now run) (sd_ID t) (Some updateTaskInfo) pm1 of
            (e, pm2) \<Rightarrow> Ret (updateTaskInfo, e, s1, pm2))"

definition cdn_Delete :: "cdn_env \<Rightarrow> string \<Rightarrow> fs \<Rightarrow> file_error option \<times> fs" where
  "cdn_Delete env taskID s = DeleteTask (ce_bad env) (ce_base env) taskID s"

end
