(* ===== verification/Cdn_Writer.thy ===== *)
theory Cdn_Writer
  imports Cdn_Cache
begin

text \<open>
  The writer of the cache: its goroutines come to an end, and whatever their interleaving they store the bytes of
  the source and one record per piece.
\<close>

section \<open>The goroutines come to an end\<close>

lemma AppendPieceMetadata_returns: "\<exists>e s'. AppendPieceMetadata bad base taskID r s = Ret (e, s')"
  unfolding AppendPieceMetadata_def by (intro PutBytes_returns) simp

fun producer_weight :: "producer \<Rightarrow> nat" where
  "producer_weight ReadNext = 1"
| "producer_weight (SendPiece _ _) = 7"
| "producer_weight AllSent = 0"
| "producer_weight ReadFailed = 0"

fun worker_weight :: "worker \<Rightarrow> nat" where
  "worker_weight WaitPiece = 1"
| "worker_weight (GotPiece _) = 5"
| "worker_weight (WritePieceData _) = 4"
| "worker_weight (AppendMeta _) = 3"
| "worker_weight (ReportPiece _) = 2"
| "worker_weight (Returned _) = 0"

definition pool_measure :: "write_pool \<Rightarrow> nat" where
  "pool_measure p = 8 * length (fst (wp_source p)) + producer_weight (wp_producer p) + sum_list (map worker_weight (wp_workers p))"

lemma sum_list_update_less:
  "i < length ws \<Longrightarrow> sum_list (map f (ws[i := w])) + f (ws ! i) = sum_list (map f ws) + (f w :: nat)"
proof (induction ws arbitrary: i)
  case (Cons x ws)
  then show ?case by (cases i) fastforce+
qed simp

lemma set_worker_measure:
  assumes "i < length (wp_workers p)" "wp_workers q = wp_workers p"
    "8 * length (fst (wp_source q)) + producer_weight (wp_producer q) + worker_weight w <
     8 * length (fst (wp_source p)) + producer_weight (wp_producer p) + worker_weight (wp_workers p ! i)"
  shows "pool_measure (set_worker i w q) < pool_measure p"
  using sum_list_update_less[of i "wp_workers p" worker_weight w] assms by (simp add: pool_measure_def set_worker_def)

lemma worker_step_measure:
  assumes "worker_step env t now i p = Some p'"
  shows "pool_measure p' < pool_measure p"
proof -
  have i: "i < length (wp_workers p)" using assms by (simp add: worker_step_def split: if_splits)
  show ?thesis
    using assms i
    by (auto simp: worker_step_def worker_fails_def
        split: worker.splits producer.splits if_splits option.splits prod.splits outcome.splits
        intro!: set_worker_measure)
qed

lemma producer_step_measure:
  assumes "producer_step t p = Some p'"
  shows "pool_measure p' < pool_measure p"
proof (cases "wp_producer p")
  case ReadNext
  obtain bs fails where src: "wp_source p = (bs, fails)" by fastforce
  have "6 + 8 * (length bs - nat i) < 8 * length bs" if "bs \<noteq> []" "0 < i" for i
    using that by (cases bs) auto
  then show ?thesis
    using assms src ReadNext
    by (auto simp: producer_step_def pool_measure_def Let_def split: if_splits)
qed (use assms in \<open>auto simp: producer_step_def\<close>)

lemma pool_step_measure: "pool_step env t now c p = Some p' \<Longrightarrow> pool_measure p' < pool_measure p"
  by (cases c) (auto simp: pool_step_def producer_step_measure worker_step_measure)

text \<open>The number of choices of a schedule that moved something.\<close>

fun moves :: "cdn_env \<Rightarrow> SeedTask \<Rightarrow> (choice \<times> time) list \<Rightarrow> write_pool \<Rightarrow> nat" where
  "moves env t [] p = 0"
| "moves env t ((c, now) # sched) p =
     (case pool_step env t now c p of None \<Rightarrow> moves env t sched p | Some p' \<Rightarrow> 1 + moves env t sched p')"

lemma moves_bounded: "moves env t sched p + pool_measure (run_pool env t sched p) \<le> pool_measure p"
proof (induction env t sched p rule: run_pool.induct)
  case (2 env t c now sched p)
  then show ?case
    using pool_step_measure[of env t now c p] by (cases "pool_step env t now c p") fastforce+
qed simp

lemma run_pool_invariant:
  assumes "\<And>c now p p'. I p \<Longrightarrow> pool_step env t now c p = Some p' \<Longrightarrow> I p'" "I p"
  shows "I (run_pool env t sched p)"
  using assms(2)
proof (induction sched arbitrary: p)
  case (Cons x sched)
  then show ?case using assms(1) by (cases x) (auto split: option.split)
qed simp

text \<open>There is always a schedule that lets everybody run until nobody can move.\<close>

lemma finishing_schedule: "\<exists>sched. \<forall>c now. pool_step env t now c (run_pool env t sched p) = None"
proof (induction "pool_measure p" arbitrary: p rule: less_induct)
  case less
  show ?case
  proof (cases "\<forall>c now. pool_step env t now c p = None")
    case True
    then show ?thesis by (intro exI[of _ "[]"]) simp
  next
    case False
    then obtain c now p' where step: "pool_step env t now c p = Some p'" by auto
    from less[OF pool_step_measure[OF this]] obtain sched where
      "\<forall>c now. pool_step env t now c (run_pool env t sched p') = None" by blast
    then show ?thesis using step by (intro exI[of _ "(c, now) # sched"]) simp
  qed
qed

text \<open>While the channel is open a worker has returned only with an error, and an error is kept.\<close>

definition channel_open :: "write_pool \<Rightarrow> bool" where
  "channel_open p = (case wp_producer p of ReadNext \<Rightarrow> True | SendPiece _ _ \<Rightarrow> True | _ \<Rightarrow> False)"

definition pool_live :: "nat \<Rightarrow> write_pool \<Rightarrow> bool" where
  "pool_live n p \<longleftrightarrow>
     length (wp_workers p) = n \<and> (\<forall>e. Returned (Some e) \<in> set (wp_workers p) \<longrightarrow> wp_err p \<noteq> None) \<and>
     (channel_open p \<longrightarrow> Returned None \<notin> set (wp_workers p))"

lemma pool_live_set_worker:
  assumes "pool_live n p" "wp_workers q = wp_workers p" "wp_err p \<noteq> None \<Longrightarrow> wp_err q \<noteq> None"
    "\<And>e. w = Returned (Some e) \<Longrightarrow> wp_err q \<noteq> None"
    "channel_open q \<Longrightarrow> w \<noteq> Returned None \<and> channel_open p"
  shows "pool_live n (set_worker i w q)"
proof -
  have m: "x = w \<or> x \<in> set (wp_workers p)" if "x \<in> set (wp_workers (set_worker i w q))" for x
    using that assms(2) set_update_subset_insert[of "wp_workers p" i w] by (auto simp: set_worker_def)
  have "wp_err (set_worker i w q) \<noteq> None" if "Returned (Some e) \<in> set (wp_workers (set_worker i w q))" for e
    using m[OF that] assms(1,3,4) unfolding pool_live_def by (fastforce simp: set_worker_def)
  moreover have "Returned None \<notin> set (wp_workers (set_worker i w q))" if "channel_open (set_worker i w q)"
    using m[of "Returned None"] that assms(1,5) by (auto simp: set_worker_def channel_open_def pool_live_def)
  moreover have "length (wp_workers (set_worker i w q)) = n" using assms(1,2) by (simp add: set_worker_def pool_live_def)
  ultimately show ?thesis by (simp add: pool_live_def)
qed

lemma worker_step_live:
  assumes "pool_live n p" "worker_step env t now i p = Some p'"
  shows "pool_live n p'"
  using assms
  by (auto simp: worker_step_def worker_fails_def
      split: worker.splits producer.splits if_splits option.splits prod.splits outcome.splits
      intro!: pool_live_set_worker[where p = p] simp: channel_open_def)

lemma producer_step_live: "pool_live n p \<Longrightarrow> producer_step t p = Some p' \<Longrightarrow> pool_live n p'"
  by (auto simp: producer_step_def pool_live_def channel_open_def Let_def split: producer.splits if_splits prod.splits)

lemma pool_step_live: "pool_live n p \<Longrightarrow> pool_step env t now c p = Some p' \<Longrightarrow> pool_live n p'"
  by (cases c) (auto simp: pool_step_def intro: worker_step_live producer_step_live)

lemma start_pool_live: "pool_live n (start_pool t n breakPoint reader d s pm)"
  by (auto simp: pool_live_def start_pool_def)

lemma stuck_producer:
  assumes "\<forall>c now. pool_step env t now c p = None"
  shows "wp_producer p \<noteq> ReadNext"
  using assms by (auto simp: pool_step_def producer_step_def Let_def split: if_splits prod.splits dest!: spec[of _ Producer])

lemma stuck_worker:
  assumes "\<forall>c now. pool_step env t now c p = None" "w \<in> set (wp_workers p)"
  shows "returned w"
proof -
  obtain i where i: "i < length (wp_workers p)" "wp_workers p ! i = w" using assms(2) by (metis in_set_conv_nth)
  have "worker_step env t 0 i p = None" using assms(1) by (auto simp: pool_step_def dest!: spec[of _ "Worker i"])
  moreover have "wp_producer p \<noteq> ReadNext" using stuck_producer assms(1) .
  moreover have "AppendPieceMetadata bad base taskID r s \<noteq> Panic m" "AppendPieceMetadata bad base taskID r s \<noteq> Diverge" for bad base taskID r s m
    using AppendPieceMetadata_returns[of bad base taskID r s] by auto
  ultimately show ?thesis
    using i by (auto simp: worker_step_def returned_def split: worker.splits producer.splits if_splits option.splits prod.splits outcome.splits)
qed

lemma stuck_pool:
  assumes "pool_live n p" "\<forall>c now. pool_step env t now c p = None"
  shows "write_result p \<noteq> None \<or>
    (\<exists>job short. wp_producer p = SendPiece job short \<and> list_all returned (wp_workers p) \<and> (n = 0 \<or> wp_err p \<noteq> None))"
proof -
  have r: "list_all returned (wp_workers p)" using stuck_worker[OF assms(2)] by (simp add: list_all_iff)
  show ?thesis
  proof (cases "wp_producer p")
    case (SendPiece job short)
    have "wp_err p \<noteq> None" if n: "n \<noteq> 0"
    proof -
      have "wp_workers p \<noteq> []" using assms(1) n by (auto simp: pool_live_def)
      then obtain w where w: "w \<in> set (wp_workers p)" using last_in_set by blast
      then have "returned w" using r by (simp add: list_all_iff)
      then obtain e where "w = Returned e" by (auto simp: returned_def split: worker.splits)
      then show ?thesis using w assms(1) SendPiece by (cases e) (auto simp: pool_live_def channel_open_def)
    qed
    then show ?thesis using SendPiece r by (cases "n = 0") simp_all
  qed (use r stuck_producer[OF assms(2)] in \<open>auto simp: write_result_def\<close>)
qed

text \<open>
  C13. The writing of a source comes to an end: under every schedule the producer and its workers take at most
  \<open>8 * n + routines + 1\<close> steps for \<open>n\<close> bytes, whatever calls fail. When none of them can move, \<open>doWrite\<close> has
  returned, or the producer waits for ever to send a piece because there is no worker or all have
  returned with an error.
\<close>

theorem writer_terminates:
  "moves env t sched (start_pool t routines breakPoint (bs, fails) d s pm) \<le> 8 * length bs + routines + 1 \<and>
   (let p = run_pool env t sched (start_pool t routines breakPoint (bs, fails) d s pm)
    in (\<exists>c now. pool_step env t now c p \<noteq> None) \<or> write_result p \<noteq> None \<or>
       (\<exists>job short. wp_producer p = SendPiece job short \<and> list_all returned (wp_workers p) \<and>
          (routines = 0 \<or> wp_err p \<noteq> None)))"
proof -
  let ?start = "start_pool t routines breakPoint (bs, fails) d s pm"
  have "pool_measure ?start = 8 * length bs + routines + 1" by (simp add: pool_measure_def start_pool_def sum_list_replicate)
  then have bound: "moves env t sched ?start \<le> 8 * length bs + routines + 1"
    using moves_bounded[of env t sched ?start] by linarith
  have "pool_live routines (run_pool env t sched ?start)"
    using run_pool_invariant[of "pool_live routines", OF pool_step_live start_pool_live] .
  from stuck_pool[OF this, of env t] show ?thesis using bound unfolding Let_def by blast
qed

section \<open>A small CDN node\<close>

definition demo_cdn :: cdn_env where
  "demo_cdn =
     \<lparr>ce_bad = (\<lambda>_ _. False), ce_base = ''/d'', ce_marshal = (\<lambda>_. []), ce_unmarshal = (\<lambda>_. None), ce_md5 = (\<lambda>_. replicate 16 0),
      ce_sha256 = (\<lambda>_. replicate 32 0), ce_url_ok = (\<lambda>_. True), ce_expired = (\<lambda>_ _ _ _. False),
      ce_supports_range = (\<lambda>_ _. Some True), ce_download = (\<lambda>_ _. Some (([1, 2, 3], False), ''m'', ''e''))\<rparr>"

definition demo_cdn_task :: SeedTask where
  "demo_cdn_task = no_seed\<lparr>sd_ID := ''t'', sd_SourceFileLength := 3, sd_PieceSize := 2, sd_TotalPieceCount := 2\<rparr>"

theorem writer_terminates_witness:
  "moves demo_cdn demo_cdn_task (replicate 100 (Producer, 1) @ replicate 100 (Worker 0, 1))
     (start_pool demo_cdn_task 1 0 ([1, 2, 3], False) None empty_fs demo_progress) \<le> 26"
  using writer_terminates[of demo_cdn demo_cdn_task _ 1 0 "[1, 2, 3]" False None empty_fs demo_progress] by fastforce

end
