(* ===== verification/Cdn_Writer_Facts.thy ===== *)
theory Cdn_Writer_Facts
  imports Cdn_Writer
begin

text \<open>
  What the goroutines of the writer leave behind. The invariant gives every piece that was sent a stage: received,
  about to be written, recorded, reported, or done; the file, the records and the published pieces follow the stages.
\<close>

section \<open>The pieces of a source\<close>

definition job_at :: "nat \<Rightarrow> uint8 list \<Rightarrow> nat \<Rightarrow> piece_job" where
  "job_at ps src k = \<lparr>pj_num = of_nat k, pj_size = of_nat ps, pj_content = take ps (drop (k * ps) src)\<rparr>"

definition record_at :: "hash \<Rightarrow> nat \<Rightarrow> uint8 list \<Rightarrow> nat \<Rightarrow> PieceMetaRecord" where
  "record_at md5 ps src k = job_record md5 (job_at ps src k)"

text \<open>A source the counters of the code can hold: positions in 63 bits, piece numbers in 31.\<close>

definition source_ok :: "nat \<Rightarrow> uint8 list \<Rightarrow> bool" where
  "source_ok ps src \<longleftrightarrow> 0 < ps \<and> ps < 2 ^ 31 \<and> length src + ps < 2 ^ 63 \<and> length src \<le> (2 ^ 31 - 1) * ps"

lemma source_piece_bound:
  assumes "source_ok ps src" "k * ps < length src"
  shows "k < 2 ^ 31 - 1" "k * ps < 2 ^ 63"
proof -
  have "k * ps < (2 ^ 31 - 1) * ps" using assms unfolding source_ok_def by linarith
  then show "k < 2 ^ 31 - 1" using mult_less_cancel2 by blast
  show "k * ps < 2 ^ 63" using assms by (simp add: source_ok_def)
qed

lemma sint_of_nat_32: "n < 2 ^ 31 \<Longrightarrow> sint (of_nat n :: int32) = int n"
  by (simp add: signed_of_nat signed_take_bit_int_eq_self)

lemma unat_of_nat_32: "n < 2 ^ 32 \<Longrightarrow> unat (of_nat n :: uint32) = n"
  unfolding unsigned_of_nat by (simp add: take_bit_nat_eq_self)

lemma ucast_product:
  assumes "a < 2 ^ 31" "b < 2 ^ 31" "a * b < 2 ^ 63"
  shows "ucast (of_nat a :: uint32) * ucast (of_nat b :: uint32) = (of_nat (a * b) :: 64 word)"
proof -
  have "ucast (of_nat n :: uint32) = (of_nat n :: 64 word)" if "n < 2 ^ 31" for n
    unfolding unsigned_of_nat using that by (simp add: take_bit_nat_eq_self)
  then show ?thesis using assms(1,2) by simp
qed

lemma job_offset_at:
  assumes "source_ok ps src" "k * ps < length src"
  shows "sint (job_offset (job_at ps src k)) = int (k * ps)"
proof -
  have "job_offset (job_at ps src k) = of_nat (k * ps)"
    unfolding job_offset_def job_at_def
    using ucast_product[of k ps] source_piece_bound[OF assms] assms(1) by (simp add: source_ok_def)
  then show ?thesis using sint_of_nat_64[OF source_piece_bound(2)[OF assms]] by (simp only:)
qed

lemma job_content_at:
  assumes "source_ok ps src" "k * ps < length src"
  shows "pj_content (job_at ps src k) \<noteq> []" "length (pj_content (job_at ps src k)) = min ps (length src - k * ps)"
    "sint (of_nat (length (pj_content (job_at ps src k))) :: int64) = int (length (pj_content (job_at ps src k)))"
proof -
  show 1: "length (pj_content (job_at ps src k)) = min ps (length src - k * ps)" by (simp add: job_at_def min.commute)
  show "pj_content (job_at ps src k) \<noteq> []" using assms by (auto simp: job_at_def source_ok_def)
  show "sint (of_nat (length (pj_content (job_at ps src k))) :: int64) = int (length (pj_content (job_at ps src k)))"
    using assms unfolding 1 by (intro sint_of_nat_64) (auto simp: source_ok_def)
qed

lemma plain_hex: "plain_field (EncodeToString bs)"
proof -
  have "list_all (\<lambda>n. hex_digit n \<noteq> fieldSeparator \<and> \<not> IsSpace (hex_digit n)) [0..<16]" by code_simp
  then have d: "hex_digit n \<noteq> fieldSeparator \<and> \<not> IsSpace (hex_digit n)" if "n < 16" for n
    using that by (simp add: list_all_iff)
  have "unat (b :: uint8) div 16 < 16" for b using unsigned_less[of b, where ?'a = nat] by simp
  then show ?thesis using d by (auto simp: plain_field_def EncodeToString_def)
qed

lemma record_at_fields:
  assumes "source_ok ps src" "k * ps < length src"
  shows "unat (pr_PieceNum (record_at md5 ps src k)) = k"
    "pr_OriginRange (record_at md5 ps src k) = Some \<lparr>StartIndex = of_nat (k * ps), EndIndex = of_nat (min ((k + 1) * ps) (length src) - 1)\<rparr>"
    "record_ok (record_at md5 ps src k)"
proof -
  have b: "k < 2 ^ 31" "ps < 2 ^ 31" "k * ps < 2 ^ 63" using source_piece_bound[OF assms] assms(1) by (auto simp: source_ok_def)
  show "unat (pr_PieceNum (record_at md5 ps src k)) = k"
    using unat_of_nat_32[of k] b by (simp add: record_at_def job_record_def job_at_def Let_def)
  define m where "m = min ((k + 1) * ps) (length src) - 1"
  have m: "k * ps \<le> m" "m < 2 ^ 63" "k * ps + min (length src - k * ps) ps = m + 1"
    using assms by (auto simp: m_def source_ok_def min_def)
  have "(of_nat (k * ps) :: uint64) + of_nat (min (length src - k * ps) ps) - 1 = of_nat (m + 1) - 1"
    using arg_cong[OF m(3), of "of_nat :: nat \<Rightarrow> uint64"] by simp
  also have "\<dots> = of_nat m" by simp
  finally have e: "(of_nat (k * ps) :: uint64) + of_nat (min (length src - k * ps) ps) - 1 = of_nat m" .
  have r: "record_at md5 ps src k = \<lparr>pr_PieceNum = of_nat k, pr_PieceLen = of_nat (min (length src - k * ps) ps),
      pr_Md5 = ToHashString (md5 (text_of (take ps (drop (k * ps) src)))),
      pr_Range = Some \<lparr>StartIndex = of_nat (k * ps), EndIndex = of_nat m\<rparr>,
      pr_OriginRange = Some \<lparr>StartIndex = of_nat (k * ps), EndIndex = of_nat m\<rparr>, pr_PieceStyle = 0\<rparr>"
    using ucast_product[OF b] e by (simp add: record_at_def job_record_def job_at_def Let_def del: of_nat_mult)
  then show "pr_OriginRange (record_at md5 ps src k) =
    Some \<lparr>StartIndex = of_nat (k * ps), EndIndex = of_nat (min ((k + 1) * ps) (length src) - 1)\<rparr>"
    by (simp add: m_def)
  have "unat (of_nat n :: uint64) = n" if "n < 2 ^ 63" for n unfolding unsigned_of_nat using that by (simp add: take_bit_nat_eq_self)
  then have "(of_nat (k * ps) :: uint64) \<le> of_nat m" using m b(3) by (simp add: word_le_nat_alt del: of_nat_mult)
  then show "record_ok (record_at md5 ps src k)"
    unfolding r by (simp add: record_ok_def plain_hex ToHashString_def)
qed

section \<open>A write that succeeds\<close>

lemma WriteDownloadFile_ok:
  assumes "no_fail bad" "id_ok taskID" "task_ok base taskID s" "0 \<le> sint offset" "0 < sint len" "nat (sint len) \<le> length bs"
  shows "\<exists>s'. WriteDownloadFile bad base taskID offset len (bs, False) s = (None, s')"
proof -
  let ?raw = "(GetDownloadRaw taskID)\<lparr>raw_Offset := offset, raw_Length := len\<rparr>"
  have path: "GetPath base ?raw = data_path base taskID" using assms(2) task_paths(1) by simp
  have dir: "in_dir (task_dir base taskID) (data_path base taskID)" using task_in_dir(1)[OF assms(2)] .
  obtain s1 where p: "preparePath bad base ?raw s = (None, s1)"
    using assms(1) by (auto simp: preparePath_def os_MkdirAll_eq no_fail_def of_os_def)
  have ok: "fs_ok s" "plain_path (data_path base taskID) s" using assms(3) by (auto simp: task_ok_def)
  have bucket: "length (Join_path [base, raw_Bucket ?raw]) \<le> length (task_dir base taskID)"
    using bucket_prefix[of base taskID] by (simp del: Join_path.simps)
  have "length (task_dir base taskID) < length (data_path base taskID)" by simp
  then have 1: "fs_ok s1" "plain_path (data_path base taskID) s1"
    using preparePath_file[OF ok(1) p bucket] ok(2) unfolding only_file_def by blast+
  obtain i s2 where "open_put bad (data_path base taskID) ?raw s1 = (Inr i, s2)"
    using open_put_ok[OF assms(1) 1 dir, of ?raw] by (auto simp: GetDownloadRaw_def mk_raw_def)
  then show ?thesis
    using p assms(1,4-6) unfolding WriteDownloadFile_def Put_def path
    by (auto simp: CheckPutRaw_def CheckTrunc_def no_fail_def GetDownloadRaw_def mk_raw_def)
qed

section \<open>The invariant\<close>

text \<open>The bytes of the pieces that satisfy \<open>P\<close> are in the file, and nothing lies beyond the source.\<close>

definition stored :: "nat \<Rightarrow> uint8 list \<Rightarrow> (nat \<Rightarrow> bool) \<Rightarrow> uint8 list \<Rightarrow> bool" where
  "stored ps src P f \<longleftrightarrow>
     length f \<le> length src \<and> (\<forall>j<length src. P (j div ps) \<longrightarrow> j < length f \<and> f ! j = src ! j)"

lemma stored_write:
  assumes "source_ok ps src" "k * ps < length src" "stored ps src P f"
    "\<And>k'. Q k' \<Longrightarrow> k' = k \<or> P k'"
  shows "stored ps src Q (write_at (k * ps) (pj_content (job_at ps src k)) f)"
proof -
  let ?c = "pj_content (job_at ps src k)" and ?g = "write_at (k * ps) (pj_content (job_at ps src k)) f"
  have c: "?c \<noteq> []" "length ?c = min ps (length src - k * ps)" using job_content_at[OF assms(1,2)] by auto
  have n: "0 < ps" using assms(1) by (simp add: source_ok_def)
  have len: "length ?g = max (length f) (k * ps + length ?c)" using length_write_at[OF c(1)] .
  have "j < length ?g \<and> ?g ! j = src ! j" if j: "j < length src" "Q (j div ps)" for j
  proof (cases "j div ps = k")
    case True
    then have r: "k * ps \<le> j" "j < k * ps + ps"
      using n div_mult_mod_eq[of j ps] mod_less_divisor[of ps j] by (metis le_add1, metis add_less_cancel_left)
    then have "j - k * ps < length ?c" "j < k * ps + length ?c" using c(2) j(1) by auto
    moreover have "?c ! (j - k * ps) = src ! j" using r j(1) by (simp add: job_at_def)
    ultimately show ?thesis using len r(1) write_at_nth[OF c(1), of j f "k * ps"] by simp
  next
    case False
    then have f: "j < length f" "f ! j = src ! j" using assms(3) j assms(4) by (auto simp: stored_def)
    have "\<not> (k * ps \<le> j \<and> j < k * ps + length ?c)"
    proof
      assume "k * ps \<le> j \<and> j < k * ps + length ?c"
      then have "j div ps = k" using c(2) by (intro div_nat_eqI) (auto simp: mult.commute)
      then show False using False by simp
    qed
    then show ?thesis using f len write_at_nth[OF c(1), of j f "k * ps"] by auto
  qed
  moreover have "length ?g \<le> length src" using len c(2) assms(2,3) by (auto simp: stored_def)
  ultimately show ?thesis by (simp add: stored_def)
qed

lemma stored_all:
  assumes "stored ps src P f" "\<And>j. j < length src \<Longrightarrow> P (j div ps)"
  shows "f = src"
proof -
  have "length src \<le> length f" using assms by (cases "length src") (auto simp: stored_def)
  then show ?thesis using assms by (intro nth_equalityI) (auto simp: stored_def)
qed

text \<open>
  Stages of a piece: 1 received, 2 to be written, 3 to be recorded, 4 to be reported, 5 done. A piece before stage 5 has
  a worker that is busy with it, and a busy worker has a piece.
\<close>

definition stage_worker :: "hash \<Rightarrow> nat \<Rightarrow> uint8 list \<Rightarrow> nat \<Rightarrow> nat \<Rightarrow> worker" where
  "stage_worker md5 ps src n k =
     (if n = 1 then GotPiece (job_at ps src k) else if n = 2 then WritePieceData (job_at ps src k)
      else if n = 3 then AppendMeta (record_at md5 ps src k) else if n = 4 then ReportPiece (record_at md5 ps src k)
      else WaitPiece)"

definition staffed :: "hash \<Rightarrow> nat \<Rightarrow> uint8 list \<Rightarrow> nat \<Rightarrow> (nat \<Rightarrow> nat) \<Rightarrow> (nat \<Rightarrow> nat) \<Rightarrow> worker list \<Rightarrow> bool" where
  "staffed md5 ps src c st own ws \<longleftrightarrow>
     (\<forall>k<c. k * ps < length src \<and> 1 \<le> st k \<and> st k \<le> 5) \<and>
     (\<forall>k<c. st k < 5 \<longrightarrow> own k < length ws \<and> ws ! own k = stage_worker md5 ps src (st k) k) \<and>
     inj_on own {k. k < c \<and> st k < 5} \<and>
     (\<forall>i<length ws. ws ! i = WaitPiece \<or> ws ! i = Returned None \<or> (\<exists>k<c. st k < 5 \<and> own k = i))"

definition cache_files ::
  "cdn_env \<Rightarrow> string \<Rightarrow> nat \<Rightarrow> uint8 list \<Rightarrow> uint8 list option \<Rightarrow> nat \<Rightarrow> (nat \<Rightarrow> nat) \<Rightarrow> fs \<Rightarrow> bool" where
  "cache_files env taskID ps src m c st s \<longleftrightarrow>
     task_ok (ce_base env) taskID s \<and>
     (\<exists>d pc ks. task_files (ce_base env) taskID s = (d, m, pc) \<and>
        stored ps src (\<lambda>k. k < c \<and> 3 \<le> st k) (case d of None \<Rightarrow> [] | Some b \<Rightarrow> b) \<and>
        (0 < c \<and> (\<exists>k<c. 3 \<le> st k) \<longrightarrow> d \<noteq> None) \<and>
        distinct ks \<and> set ks = {k. k < c \<and> 4 \<le> st k} \<and>
        (case pc of None \<Rightarrow> ks = []
         | Some b \<Rightarrow> b = bytes_of (concat (map (\<lambda>k. appended_text (record_at (ce_md5 env) ps src k)) ks))))"

definition published ::
  "cdn_env \<Rightarrow> string \<Rightarrow> seed_ref \<Rightarrow> nat \<Rightarrow> uint8 list \<Rightarrow> nat \<Rightarrow> (nat \<Rightarrow> nat) \<Rightarrow> progress_manager \<Rightarrow> bool" where
  "published env taskID r ps src c st pm \<longleftrightarrow>
     getTask taskID (pm_tasks pm) = Some r \<and>
     (\<forall>k<c. st k = 5 \<longrightarrow>
        Load (pieces_of r (tm_heap (pm_tasks pm))) (of_nat k) = Some (convertPieceMeta2SeedPiece (record_at (ce_md5 env) ps src k)))"

text \<open>What the producer has read: the pieces sent and the one it holds.\<close>

definition taken_pieces :: "write_pool \<Rightarrow> nat \<Rightarrow> nat" where
  "taken_pieces p c = (case wp_producer p of SendPiece _ _ \<Rightarrow> c + 1 | _ \<Rightarrow> c)"

definition sending :: "nat \<Rightarrow> uint8 list \<Rightarrow> nat \<Rightarrow> digest_state \<Rightarrow> nat \<Rightarrow> write_pool \<Rightarrow> bool" where
  "sending ps src first d c p \<longleftrightarrow>
     wp_err p = None \<and> wp_cur p = of_nat c \<and> first \<le> c \<and>
     wp_source p = (drop (taken_pieces p c * ps) src, False) \<and>
     wp_back p = of_nat (min (taken_pieces p c * ps) (length src) - first * ps) \<and>
     wp_digest p = digest_write (text_of (drop (first * ps) (take (taken_pieces p c * ps) src))) d \<and>
     (case wp_producer p of
        ReadNext \<Rightarrow> c * ps \<le> length src
      | SendPiece job short \<Rightarrow> c * ps < length src \<and> job = job_at ps src c \<and> short = (length src < (c + 1) * ps)
      | AllSent \<Rightarrow> length src \<le> c * ps
      | ReadFailed \<Rightarrow> False)"

lemma staffed_busy:
  assumes "staffed md5 ps src c st own ws" "i < length ws" "ws ! i \<noteq> WaitPiece" "ws ! i \<noteq> Returned None"
  obtains k where "k < c" "own k = i" "k * ps < length src" "ws ! i = stage_worker md5 ps src (st k) k"
    "st k = 1 \<or> st k = 2 \<or> st k = 3 \<or> st k = 4"
proof -
  obtain k where k: "k < c" "st k < 5" "own k = i" using assms by (auto simp: staffed_def)
  moreover have "1 \<le> st k" "k * ps < length src" "ws ! i = stage_worker md5 ps src (st k) k"
    using assms(1) k by (auto simp: staffed_def)
  moreover have "st k = 1 \<or> st k = 2 \<or> st k = 3 \<or> st k = 4" using calculation(2,4) by auto
  ultimately show thesis using that by blast
qed

lemma staffed_advance:
  assumes "staffed md5 ps src c st own ws" "k < c" "st k < 5" "own k = i"
  shows "staffed md5 ps src c (st(k := Suc (st k))) own (ws[i := stage_worker md5 ps src (Suc (st k)) k])"
proof -
  have other: "own k' \<noteq> i" if "k' < c" "st k' < 5" "k' \<noteq> k" for k'
    using assms that by (auto simp: staffed_def inj_on_def)
  have w5: "stage_worker md5 ps src 5 k = WaitPiece" by (simp add: stage_worker_def)
  have held: "own k' < length ws \<and> ws[i := stage_worker md5 ps src (Suc (st k)) k] ! own k' =
      stage_worker md5 ps src ((st(k := Suc (st k))) k') k'" if "k' < c" "(st(k := Suc (st k))) k' < 5" for k'
  proof (cases "k' = k")
    case False
    then have "st k' < 5" using that(2) by simp
    then show ?thesis using assms(1) that(1) other[OF that(1) _ False] False by (auto simp: staffed_def)
  qed (use assms in \<open>auto simp: staffed_def\<close>)
  show ?thesis
    unfolding staffed_def
  proof (intro conjI allI impI)
    show "inj_on own {k'. k' < c \<and> (st(k := Suc (st k))) k' < 5}"
      using assms(1) by (rule_tac inj_on_subset[of own "{k. k < c \<and> st k < 5}"]) (auto simp: staffed_def)
  next
    fix j assume j: "j < length (ws[i := stage_worker md5 ps src (Suc (st k)) k])"
    show "ws[i := stage_worker md5 ps src (Suc (st k)) k] ! j = WaitPiece \<or>
      ws[i := stage_worker md5 ps src (Suc (st k)) k] ! j = Returned None \<or>
      (\<exists>k'<c. (st(k := Suc (st k))) k' < 5 \<and> own k' = j)"
    proof (cases "j = i")
      case True
      show ?thesis
      proof (cases "Suc (st k) < 5")
        case False
        then have "Suc (st k) = 5" using assms(3) by simp
        then show ?thesis using True j w5 by simp
      qed (use True assms in auto)
    next
      case False
      then have "ws ! j = WaitPiece \<or> ws ! j = Returned None \<or> (\<exists>k'<c. st k' < 5 \<and> own k' = j)"
        using assms(1) j by (auto simp: staffed_def)
      then show ?thesis using False assms(4) by auto
    qed
  qed (use assms held in \<open>auto simp: staffed_def\<close>)
qed

lemma staffed_receive:
  assumes "staffed md5 ps src c st own ws" "i < length ws" "ws ! i = WaitPiece" "c * ps < length src"
  shows "staffed md5 ps src (Suc c) (st(c := 1)) (own(c := i)) (ws[i := GotPiece (job_at ps src c)])"
proof -
  have other: "own k \<noteq> i" if "k < c" "st k < 5" for k
  proof
    assume "own k = i"
    then have "WaitPiece = stage_worker md5 ps src (st k) k" "1 \<le> st k" using assms that by (auto simp: staffed_def)
    then show False using that(2) by (auto simp: stage_worker_def split: if_splits)
  qed
  have "inj_on (own(c := i)) {k. k < Suc c \<and> (st(c := 1)) k < 5}"
    using assms(1) other by (auto simp: staffed_def inj_on_def less_Suc_eq)
  moreover have "ws[i := GotPiece (job_at ps src c)] ! j = WaitPiece \<or> ws[i := GotPiece (job_at ps src c)] ! j = Returned None \<or>
      (\<exists>k<Suc c. (st(c := 1)) k < 5 \<and> (own(c := i)) k = j)" if "j < length ws" for j
  proof (cases "j = i")
    case False
    then have "ws ! j = WaitPiece \<or> ws ! j = Returned None \<or> (\<exists>k<c. st k < 5 \<and> own k = j)"
      using assms(1) that by (auto simp: staffed_def)
    then show ?thesis using False by (auto simp: less_Suc_eq)
  qed auto
  moreover have "(own(c := i)) k < length ws \<and> ws[i := GotPiece (job_at ps src c)] ! (own(c := i)) k =
      stage_worker md5 ps src ((st(c := 1)) k) k" if "k < Suc c" "(st(c := 1)) k < 5" for k
  proof (cases "k = c")
    case False
    then have "k < c" "st k < 5" using that by auto
    moreover from this have "i \<noteq> own k" using other by blast
    ultimately show ?thesis using assms(1) False by (simp add: staffed_def)
  qed (use assms(2) in \<open>simp add: stage_worker_def\<close>)
  moreover have "\<forall>k<Suc c. k * ps < length src \<and> 1 \<le> (st(c := 1)) k \<and> (st(c := 1)) k \<le> 5"
    using assms(1,4) by (auto simp: staffed_def less_Suc_eq)
  ultimately show ?thesis unfolding staffed_def by simp
qed

lemma staffed_return:
  assumes "staffed md5 ps src c st own ws" "i < length ws" "ws ! i = WaitPiece"
  shows "staffed md5 ps src c st own (ws[i := Returned None])"
proof -
  have "i \<noteq> own k" if "k < c" "st k < 5" for k
  proof
    assume "i = own k"
    then have "WaitPiece = stage_worker md5 ps src (st k) k" "1 \<le> st k" using assms that by (auto simp: staffed_def)
    then show False using that(2) by (auto simp: stage_worker_def split: if_splits)
  qed
  moreover have "ws[i := Returned None] ! j = WaitPiece \<or> ws[i := Returned None] ! j = Returned None \<or>
      (\<exists>k<c. st k < 5 \<and> own k = j)" if "j < length ws" for j
    using assms(1) that by (cases "j = i") (auto simp: staffed_def)
  ultimately show ?thesis using assms(1) by (simp add: staffed_def)
qed

section \<open>The steps keep the invariant\<close>

lemma cache_files_cong:
  assumes "cache_files env taskID ps src m c st s"
    "\<And>k. k < c' \<and> 3 \<le> st' k \<longleftrightarrow> k < c \<and> 3 \<le> st k" "\<And>k. k < c' \<and> 4 \<le> st' k \<longleftrightarrow> k < c \<and> 4 \<le> st k"
  shows "cache_files env taskID ps src m c' st' s"
proof -
  have "(\<lambda>k. k < c' \<and> 3 \<le> st' k) = (\<lambda>k. k < c \<and> 3 \<le> st k)" "{k. k < c' \<and> 4 \<le> st' k} = {k. k < c \<and> 4 \<le> st k}"
    using assms(2,3) by auto
  moreover have "(0 < c' \<and> (\<exists>k<c'. 3 \<le> st' k)) = (0 < c \<and> (\<exists>k<c. 3 \<le> st k))" using assms(2) by (metis bot_nat_0.not_eq_extremum not_less_zero)
  ultimately show ?thesis using assms(1) by (simp add: cache_files_def)
qed

lemma cache_files_write:
  assumes "source_ok ps src" "id_ok taskID" "no_fail (ce_bad env)" "cache_files env taskID ps src m c st s"
    "k * ps < length src" "st k = 2"
  shows "\<exists>s'. WriteDownloadFile (ce_bad env) (ce_base env) taskID (job_offset (job_at ps src k))
      (of_nat (length (pj_content (job_at ps src k)))) (pj_content (job_at ps src k), False) s = (None, s') \<and>
    cache_files env taskID ps src m c (st(k := 3)) s'"
proof -
  let ?job = "job_at ps src k"
  note off = job_offset_at[OF assms(1,5)] and len = job_content_at(1,3)[OF assms(1,5)]
  obtain d pc ks where f: "task_ok (ce_base env) taskID s" "task_files (ce_base env) taskID s = (d, m, pc)"
    "stored ps src (\<lambda>k. k < c \<and> 3 \<le> st k) (case d of None \<Rightarrow> [] | Some b \<Rightarrow> b)" "distinct ks" "set ks = {k. k < c \<and> 4 \<le> st k}"
    "case pc of None \<Rightarrow> ks = []
     | Some b \<Rightarrow> b = bytes_of (concat (map (\<lambda>k. appended_text (record_at (ce_md5 env) ps src k)) ks))"
    using assms(4) by (auto simp: cache_files_def)
  obtain s' where w: "WriteDownloadFile (ce_bad env) (ce_base env) taskID (job_offset ?job)
      (of_nat (length (pj_content ?job))) (pj_content ?job, False) s = (None, s')"
    using WriteDownloadFile_ok[OF assms(3,2) f(1), of "job_offset ?job" "of_nat (length (pj_content ?job))" "pj_content ?job"]
      off len by auto
  have "task_ok (ce_base env) taskID s'"
    "task_files (ce_base env) taskID s' = (Some (write_at (k * ps) (pj_content ?job) (case d of None \<Rightarrow> [] | Some b \<Rightarrow> b)), m, pc)"
    using WriteDownloadFile_task[OF assms(2) f(1,2) w] off len by (auto simp del: of_nat_mult)
  moreover have "stored ps src (\<lambda>j. j < c \<and> 3 \<le> (st(k := 3)) j) (write_at (k * ps) (pj_content ?job) (case d of None \<Rightarrow> [] | Some b \<Rightarrow> b))"
    by (rule stored_write[OF assms(1,5) f(3)]) (auto split: if_splits)
  moreover have "{j. j < c \<and> 4 \<le> (st(k := 3)) j} = {j. j < c \<and> 4 \<le> st j}" using assms(6) by auto
  ultimately show ?thesis using w f(4-6) unfolding cache_files_def by fastforce
qed

lemma cache_files_append:
  assumes "source_ok ps src" "id_ok taskID" "no_fail (ce_bad env)" "cache_files env taskID ps src m c st s"
    "k < c" "st k = 3"
  shows "\<exists>s'. AppendPieceMetadata (ce_bad env) (ce_base env) taskID (record_at (ce_md5 env) ps src k) s = Ret (None, s') \<and>
    cache_files env taskID ps src m c (st(k := 4)) s'"
proof -
  let ?r = "record_at (ce_md5 env) ps src k" and ?text = "\<lambda>k. appended_text (record_at (ce_md5 env) ps src k)"
  obtain d pc ks where f: "task_ok (ce_base env) taskID s" "task_files (ce_base env) taskID s = (d, m, pc)"
    "stored ps src (\<lambda>k. k < c \<and> 3 \<le> st k) (case d of None \<Rightarrow> [] | Some b \<Rightarrow> b)"
    "0 < c \<and> (\<exists>k<c. 3 \<le> st k) \<longrightarrow> d \<noteq> None" "distinct ks" "set ks = {k. k < c \<and> 4 \<le> st k}"
    "case pc of None \<Rightarrow> ks = [] | Some b \<Rightarrow> b = bytes_of (concat (map ?text ks))"
    using assms(4) by (auto simp: cache_files_def)
  obtain s' where a: "AppendPieceMetadata (ce_bad env) (ce_base env) taskID ?r s = Ret (None, s')"
    using AppendPieceMetadata_ok[OF assms(3,2) f(1)] by blast
  have t: "task_ok (ce_base env) taskID s'"
    "task_files (ce_base env) taskID s' = (d, m, Some ((case pc of None \<Rightarrow> [] | Some b \<Rightarrow> b) @ bytes_of (?text k)))"
    using AppendPieceMetadata_task[OF assms(2) f(1,2) a] by auto
  have "(case pc of None \<Rightarrow> [] | Some b \<Rightarrow> b) @ bytes_of (?text k) = bytes_of (concat (map ?text (ks @ [k])))"
    using f(7) by (auto split: option.splits simp: bytes_of_def)
  then have files: "task_files (ce_base env) taskID s' = (d, m, Some (bytes_of (concat (map ?text (ks @ [k])))))" using t(2) by simp
  have ks: "distinct (ks @ [k])" "set (ks @ [k]) = {j. j < c \<and> 4 \<le> (st(k := 4)) j}"
    using f(5,6) assms(5,6) by auto
  have st: "(\<lambda>j. j < c \<and> 3 \<le> (st(k := 4)) j) = (\<lambda>j. j < c \<and> 3 \<le> st j)" using assms(6) by auto
  have "d \<noteq> None" using f(4) assms(5,6) by auto
  then have "cache_files env taskID ps src m c (st(k := 4)) s'"
    unfolding cache_files_def st using t(1) f(3) files ks
    by (intro conjI exI[of _ d] exI[of _ "Some (bytes_of (concat (map ?text (ks @ [k]))))"] exI[of _ "ks @ [k]"])
      (simp_all only: option.case simp_thms)
  then show ?thesis using a by blast
qed

lemma PublishPiece_registered:
  assumes "getTask taskID (pm_tasks pm) = Some r"
  shows "\<exists>pm'. PublishPiece now taskID info pm = (None, pm') \<and> getTask taskID (pm_tasks pm') = Some r \<and>
    pieces_of r (tm_heap (pm_tasks pm')) = Store (pi_PieceNum info) info (pieces_of r (tm_heap (pm_tasks pm)))"
proof -
  let ?pm1 = "case Load (seedTaskSubjects pm) taskID of Some l \<Rightarrow> NotifySubscribers info l pm | None \<Rightarrow> pm"
  have "pm_tasks ?pm1 = pm_tasks pm" by (simp add: NotifySubscribers_def fold_upd_sub split: option.split)
  then show ?thesis
    using assms by (simp add: PublishPiece_def tm_UpdateProgress_def Let_def tm_touch_def getTask_def pieces_of_def)
qed

lemma published_report:
  assumes "source_ok ps src" "published env taskID r ps src c st pm" "k < c" "\<forall>j<c. j * ps < length src"
  shows "\<exists>pm'. reportPieceMetaRecord now taskID (record_at (ce_md5 env) ps src k) pm = (None, pm') \<and>
    published env taskID r ps src c (st(k := 5)) pm'"
proof -
  let ?info = "\<lambda>k. convertPieceMeta2SeedPiece (record_at (ce_md5 env) ps src k)"
  have num: "pi_PieceNum (?info j) = of_nat j" for j
    by (simp add: convertPieceMeta2SeedPiece_def record_at_def job_record_def job_at_def Let_def)
  have inj: "(of_nat j :: uint32) \<noteq> of_nat k" if "j < c" "j \<noteq> k" for j
  proof -
    have "j < 2 ^ 32" "k < 2 ^ 32"
      using that assms(3,4) source_piece_bound(1)[OF assms(1), of j] source_piece_bound(1)[OF assms(1), of k] by auto
    then show ?thesis using unat_of_nat_32[of j] unat_of_nat_32[of k] that(2) by metis
  qed
  obtain pm' where pm': "PublishPiece now taskID (?info k) pm = (None, pm')" "getTask taskID (pm_tasks pm') = Some r"
    "pieces_of r (tm_heap (pm_tasks pm')) = Store (of_nat k) (?info k) (pieces_of r (tm_heap (pm_tasks pm)))"
    using PublishPiece_registered[of taskID pm r now "?info k"] assms(2) num by (auto simp: published_def)
  have "published env taskID r ps src c (st(k := 5)) pm'"
    using assms(2) pm'(2,3) inj by (auto simp: published_def)
  then show ?thesis using pm'(1) by (auto simp: reportPieceMetaRecord_def)
qed

definition write_setup :: "cdn_env \<Rightarrow> SeedTask \<Rightarrow> nat \<Rightarrow> uint8 list \<Rightarrow> bool" where
  "write_setup env t ps src \<longleftrightarrow>
     source_ok ps src \<and> id_ok (sd_ID t) \<and> no_fail (ce_bad env) \<and> sd_PieceSize t = of_nat ps"

definition writer_inv ::
  "cdn_env \<Rightarrow> SeedTask \<Rightarrow> seed_ref \<Rightarrow> nat \<Rightarrow> uint8 list \<Rightarrow> uint8 list option \<Rightarrow> digest_state \<Rightarrow> nat \<Rightarrow> write_pool \<Rightarrow> bool" where
  "writer_inv env t r ps src m d first p \<longleftrightarrow>
     (\<exists>c st own. sending ps src first d c p \<and> staffed (ce_md5 env) ps src c st own (wp_workers p) \<and>
        cache_files env (sd_ID t) ps src m c st (wp_fs p) \<and> published env (sd_ID t) r ps src c st (wp_pm p))"

lemma digest_write_append: "digest_write y (digest_write x d) = digest_write (x @ y) d"
  by (cases d) (auto simp: digest_write_def)

lemma text_of_append: "text_of (a @ b) = text_of a @ text_of b"
  by (simp add: text_of_def)

lemma drop_take_next: "a \<le> b \<Longrightarrow> b \<le> length xs \<Longrightarrow> drop a (take b xs) @ take n (drop b xs) = drop a (take (b + n) xs)"
  by (simp add: take_add)

lemma sending_read:
  assumes "write_setup env t ps src" "sending ps src first d c p" "wp_producer p = ReadNext" "producer_step t p = Some p'"
  shows "sending ps src first d c p' \<and> wp_workers p' = wp_workers p \<and> wp_fs p' = wp_fs p \<and> wp_pm p' = wp_pm p"
proof -
  let ?chunk = "take ps (drop (c * ps) src)"
  have ps: "0 < ps" "nat (sint (of_nat ps :: int32)) = ps" "sd_PieceSize t = of_nat ps"
    using assms(1) sint_of_nat_32[of ps] by (auto simp: write_setup_def source_ok_def)
  have s: "wp_err p = None" "wp_source p = (drop (c * ps) src, False)" "c * ps \<le> length src" "first \<le> c" "wp_cur p = of_nat c"
    "wp_back p = of_nat (c * ps - first * ps)" "wp_digest p = digest_write (text_of (drop (first * ps) (take (c * ps) src))) d"
    using assms(2,3) by (auto simp: sending_def taken_pieces_def)
  show ?thesis
  proof (cases "c * ps < length src")
    case True
    have n: "length ?chunk \<noteq> 0" using True ps(1) by simp
    have "producer_step t p = Some (p\<lparr>wp_source := (drop ps (drop (c * ps) src), False),
        wp_digest := digest_write (text_of ?chunk) (wp_digest p), wp_back := wp_back p + of_nat (length ?chunk),
        wp_producer := SendPiece (job_at ps src c) (length ?chunk < ps)\<rparr>)"
      using n True ps(1) unfolding producer_step_def assms(3) s(1,2,5) ps(3) Let_def prod.case producer.case ps(2) job_at_def
      by (simp add: min_def)
    then have p': "p' = p\<lparr>wp_source := (drop ps (drop (c * ps) src), False), wp_digest := digest_write (text_of ?chunk) (wp_digest p),
        wp_back := wp_back p + of_nat (length ?chunk), wp_producer := SendPiece (job_at ps src c) (length ?chunk < ps)\<rparr>"
      using assms(4) by simp
    have le: "first * ps \<le> c * ps" using s(4) by simp
    then have "c * ps - first * ps + length ?chunk = min ((c + 1) * ps) (length src) - first * ps"
      using True by (auto simp: min_def)
    then have bk: "wp_back p' = of_nat (min ((c + 1) * ps) (length src) - first * ps)"
      using s(6) p' by (simp del: of_nat_diff of_nat_mult length_take length_drop flip: of_nat_add)
    have digest: "wp_digest p' = digest_write (text_of (drop (first * ps) (take ((c + 1) * ps) src))) d"
      using drop_take_next[OF le, of src ps] s(3,7)
      by (simp add: p' digest_write_append flip: text_of_append) (simp add: add.commute)
    have pr: "wp_producer p' = SendPiece (job_at ps src c) (length src < (c + 1) * ps)" using p' True by auto
    then have tk: "taken_pieces p' c = c + 1" by (simp add: taken_pieces_def)
    have "wp_source p' = (drop ((c + 1) * ps) src, False)" "wp_err p' = None" "wp_cur p' = of_nat c"
      "wp_workers p' = wp_workers p" "wp_fs p' = wp_fs p" "wp_pm p' = wp_pm p" using p' s by (simp_all add: add.commute)
    then show ?thesis unfolding sending_def tk pr producer.case bk digest using True s(4) by simp
  next
    case False
    then have "producer_step t p = Some (p\<lparr>wp_producer := AllSent\<rparr>)"
      unfolding producer_step_def assms(3) s(1,2) ps(3) Let_def prod.case producer.case ps(2) by simp
    then have "p' = p\<lparr>wp_producer := AllSent\<rparr>" using assms(4) by simp
    then show ?thesis using s False by (auto simp: sending_def taken_pieces_def)
  qed
qed

lemma sending_update [simp]:
  "sending ps src first d c (set_worker i w p) = sending ps src first d c p"
  "sending ps src first d c (p\<lparr>wp_fs := s\<rparr>) = sending ps src first d c p"
  "sending ps src first d c (p\<lparr>wp_pm := pm\<rparr>) = sending ps src first d c p"
  by (simp_all add: sending_def taken_pieces_def set_worker_def)

lemma set_worker_fields [simp]:
  "wp_workers (set_worker i w p) = (wp_workers p)[i := w]" "wp_fs (set_worker i w p) = wp_fs p" "wp_pm (set_worker i w p) = wp_pm p"
  by (simp_all add: set_worker_def)

lemma sending_send:
  assumes "sending ps src first d c p" "wp_producer p = SendPiece job short"
  shows "sending ps src first d (Suc c) (p\<lparr>wp_cur := wp_cur p + 1, wp_producer := (if short then AllSent else ReadNext)\<rparr>)"
    "job = job_at ps src c" "c * ps < length src"
  using assms by (auto simp: sending_def taken_pieces_def add.commute)

text \<open>A busy worker does its next call, which succeeds, and its piece advances by a stage.\<close>

lemma busy_step:
  assumes "write_setup env t ps src" "sending ps src first d c p" "staffed (ce_md5 env) ps src c st own (wp_workers p)"
    "cache_files env (sd_ID t) ps src m c st (wp_fs p)" "published env (sd_ID t) r ps src c st (wp_pm p)"
    "i < length (wp_workers p)" "k < c" "own k = i" "k * ps < length src"
    "wp_workers p ! i = stage_worker (ce_md5 env) ps src (st k) k" "st k = 1 \<or> st k = 2 \<or> st k = 3 \<or> st k = 4"
    "worker_step env t now i p = Some p'"
  shows "\<exists>s pm. p' = set_worker i (stage_worker (ce_md5 env) ps src (Suc (st k)) k) (p\<lparr>wp_fs := s, wp_pm := pm\<rparr>) \<and>
    cache_files env (sd_ID t) ps src m c (st(k := Suc (st k))) s \<and> published env (sd_ID t) r ps src c (st(k := Suc (st k))) pm"
proof -
  have su: "source_ok ps src" "id_ok (sd_ID t)" "no_fail (ce_bad env)" using assms(1) by (auto simp: write_setup_def)
  have err: "wp_err p = None" using assms(2) by (simp add: sending_def)
  have same: "p\<lparr>wp_fs := s, wp_pm := wp_pm p\<rparr> = p\<lparr>wp_fs := s\<rparr>" "p\<lparr>wp_fs := wp_fs p, wp_pm := pm\<rparr> = p\<lparr>wp_pm := pm\<rparr>" for s pm by simp_all
  have pub: "published env (sd_ID t) r ps src c (st(k := Suc (st k))) (wp_pm p)" if "st k < 4"
    using assms(5) that by (auto simp: published_def)
  consider "st k = 1" | "st k = 2" | "st k = 3" | "st k = 4" using assms(11) by blast
  then show ?thesis
  proof cases
    case 1
    then have p': "p' = set_worker i (WritePieceData (job_at ps src k)) p"
      using assms(6,10,12) err by (simp add: worker_step_def stage_worker_def)
    have "cache_files env (sd_ID t) ps src m c (st(k := Suc (st k))) (wp_fs p)"
      by (rule cache_files_cong[OF assms(4)]) (use 1 in auto)
    then show ?thesis using 1 p' pub by (intro exI[of _ "wp_fs p"] exI[of _ "wp_pm p"]) (simp add: stage_worker_def)
  next
    case 2
    obtain s where s: "WriteDownloadFile (ce_bad env) (ce_base env) (sd_ID t) (job_offset (job_at ps src k))
        (of_nat (length (pj_content (job_at ps src k)))) (pj_content (job_at ps src k), False) (wp_fs p) = (None, s)"
      "cache_files env (sd_ID t) ps src m c (st(k := 3)) s"
      using cache_files_write[OF su assms(4,9) 2] by blast
    have p': "p' = set_worker i (AppendMeta (record_at (ce_md5 env) ps src k)) (p\<lparr>wp_fs := s\<rparr>)"
      using assms(6,10,12) 2 s(1) by (simp add: worker_step_def stage_worker_def record_at_def)
    show ?thesis using 2 p' pub s(2) by (intro exI[of _ s] exI[of _ "wp_pm p"]) (simp add: stage_worker_def eval_nat_numeral)
  next
    case 3
    obtain s where s: "AppendPieceMetadata (ce_bad env) (ce_base env) (sd_ID t) (record_at (ce_md5 env) ps src k) (wp_fs p) = Ret (None, s)"
      "cache_files env (sd_ID t) ps src m c (st(k := 4)) s"
      using cache_files_append[OF su assms(4,7) 3] by blast
    have p': "p' = set_worker i (ReportPiece (record_at (ce_md5 env) ps src k)) (p\<lparr>wp_fs := s\<rparr>)"
      using assms(6,10,12) 3 s(1) by (simp add: worker_step_def stage_worker_def)
    show ?thesis using 3 p' pub s(2) by (intro exI[of _ s] exI[of _ "wp_pm p"]) (simp add: stage_worker_def eval_nat_numeral)
  next
    case 4
    have "\<forall>j<c. j * ps < length src" using assms(3) by (simp add: staffed_def)
    then obtain pm where pm: "reportPieceMetaRecord now (sd_ID t) (record_at (ce_md5 env) ps src k) (wp_pm p) = (None, pm)"
      "published env (sd_ID t) r ps src c (st(k := 5)) pm"
      using published_report[OF su(1) assms(5,7)] by blast
    have p': "p' = set_worker i WaitPiece (p\<lparr>wp_pm := pm\<rparr>)"
      using assms(6,10,12) 4 pm(1) by (simp add: worker_step_def stage_worker_def)
    have "cache_files env (sd_ID t) ps src m c (st(k := Suc (st k))) (wp_fs p)"
      by (rule cache_files_cong[OF assms(4)]) (use 4 in auto)
    then show ?thesis using 4 p' pm(2) by (intro exI[of _ "wp_fs p"] exI[of _ pm]) (simp add: stage_worker_def eval_nat_numeral)
  qed
qed

lemma worker_step_inv:
  assumes "write_setup env t ps src" "writer_inv env t r ps src m d first p" "worker_step env t now i p = Some p'"
  shows "writer_inv env t r ps src m d first p'"
proof -
  obtain c st own where I: "sending ps src first d c p" "staffed (ce_md5 env) ps src c st own (wp_workers p)"
    "cache_files env (sd_ID t) ps src m c st (wp_fs p)" "published env (sd_ID t) r ps src c st (wp_pm p)"
    using assms(2) by (auto simp: writer_inv_def)
  have i: "i < length (wp_workers p)" using assms(3) by (simp add: worker_step_def split: if_splits)
  consider (wait) "wp_workers p ! i = WaitPiece" | (ret) "wp_workers p ! i = Returned None"
    | (busy) "wp_workers p ! i \<noteq> WaitPiece" "wp_workers p ! i \<noteq> Returned None" by blast
  then show ?thesis
  proof cases
    case wait
    show ?thesis
    proof (cases "wp_producer p")
      case (SendPiece job short)
      note send = sending_send[OF I(1) SendPiece]
      have p': "p' = set_worker i (GotPiece (job_at ps src c)) (p\<lparr>wp_cur := wp_cur p + 1, wp_producer := (if short then AllSent else ReadNext)\<rparr>)"
        using assms(3) i wait SendPiece send(2) by (simp add: worker_step_def)
      have "cache_files env (sd_ID t) ps src m (Suc c) (st(c := 1)) (wp_fs p)" by (rule cache_files_cong[OF I(3)]) auto
      moreover have "published env (sd_ID t) r ps src (Suc c) (st(c := 1)) (wp_pm p)" using I(4) by (auto simp: published_def less_Suc_eq)
      ultimately show ?thesis
        unfolding writer_inv_def using p' send(1) staffed_receive[OF I(2) i wait send(3)]
        by (intro exI[of _ "Suc c"] exI[of _ "st(c := 1)"] exI[of _ "own(c := i)"]) simp
    next
      case AllSent
      then have p': "p' = set_worker i (Returned None) p" using assms(3) i wait by (simp add: worker_step_def)
      then show ?thesis using I staffed_return[OF I(2) i wait] unfolding writer_inv_def
        by (intro exI[of _ c] exI[of _ st] exI[of _ own]) simp
    qed (use assms(3) i wait I(1) in \<open>auto simp: worker_step_def sending_def\<close>)
  next
    case ret
    then show ?thesis using assms(3) i by (simp add: worker_step_def)
  next
    case busy
    obtain k where k: "k < c" "own k = i" "k * ps < length src" "wp_workers p ! i = stage_worker (ce_md5 env) ps src (st k) k"
      "st k = 1 \<or> st k = 2 \<or> st k = 3 \<or> st k = 4" using staffed_busy[OF I(2) i busy] by blast
    obtain s pm where s: "p' = set_worker i (stage_worker (ce_md5 env) ps src (Suc (st k)) k) (p\<lparr>wp_fs := s, wp_pm := pm\<rparr>)"
      "cache_files env (sd_ID t) ps src m c (st(k := Suc (st k))) s" "published env (sd_ID t) r ps src c (st(k := Suc (st k))) pm"
      using busy_step[OF assms(1) I i k assms(3)] by blast
    have "st k < 5" using k(5) by auto
    from staffed_advance[OF I(2) k(1) this k(2)] show ?thesis
      unfolding writer_inv_def using s I(1)
      by (intro exI[of _ c] exI[of _ "st(k := Suc (st k))"] exI[of _ own]) simp
  qed
qed

lemma pool_step_inv:
  assumes "write_setup env t ps src" "writer_inv env t r ps src m d first p" "pool_step env t now c p = Some p'"
  shows "writer_inv env t r ps src m d first p'"
proof (cases c)
  case Producer
  then have step: "producer_step t p = Some p'" using assms(3) by (simp add: pool_step_def)
  then have "wp_producer p = ReadNext" by (auto simp: producer_step_def split: producer.splits)
  then show ?thesis using assms(2) sending_read[OF assms(1) _ _ step] unfolding writer_inv_def by metis
qed (use assms worker_step_inv in \<open>auto simp: pool_step_def\<close>)

section \<open>The end of the writing\<close>

definition piece_total :: "nat \<Rightarrow> uint8 list \<Rightarrow> nat" where
  "piece_total ps src = (length src + ps - 1) div ps"

lemma piece_totalI:
  assumes "0 < ps" "length src \<le> c * ps" "\<forall>k<c. k * ps < length src"
  shows "c = piece_total ps src"
proof -
  have "c * ps \<le> length src + ps - 1"
  proof (cases c)
    case (Suc k)
    then have "k * ps < length src" using assms(3) by simp
    then show ?thesis using Suc by simp
  qed (use assms(1) in simp)
  moreover have "length src + ps - 1 < Suc c * ps" using assms(1,2) by simp
  ultimately show ?thesis unfolding piece_total_def by (intro div_nat_eqI[symmetric]) (simp_all add: mult.commute)
qed

lemma piece_total_less:
  assumes "0 < ps" shows "k < piece_total ps src \<longleftrightarrow> k * ps < length src"
proof -
  have "k < piece_total ps src \<longleftrightarrow> Suc k * ps \<le> length src + ps - 1"
    using assms less_eq_div_iff_mult_less_eq[of ps "Suc k" "length src + ps - 1"] by (simp add: piece_total_def Suc_le_eq)
  also have "\<dots> \<longleftrightarrow> k * ps < length src" using assms by auto
  finally show ?thesis .
qed

lemma insort_key_map: "insort_key f (g x) (map g xs) = map g (insort_key (\<lambda>a. f (g a)) x xs)"
  by (induction xs) auto

lemma sort_key_map: "sort_key f (map g xs) = map g (sort_key (\<lambda>a. f (g a)) xs)"
  by (induction xs) (auto simp: insort_key_map)

lemma insort_key_agrees:
  "(\<And>y. y \<in> set xs \<Longrightarrow> f x \<le> f y \<longleftrightarrow> x \<le> y) \<Longrightarrow> insort_key f x xs = insort x xs"
  by (induction xs) auto

lemma sort_key_agrees: "(\<And>x y. x \<in> set xs \<Longrightarrow> y \<in> set xs \<Longrightarrow> f x \<le> f y \<longleftrightarrow> x \<le> y) \<Longrightarrow> sort_key f xs = sort xs"
proof (induction xs)
  case (Cons x xs)
  have "sort_key f xs = sort xs" using Cons by simp
  moreover have "insort_key f x (sort xs) = insort x (sort xs)" by (rule insort_key_agrees) (use Cons.prems in auto)
  ultimately show ?case by simp
qed simp

lemma sort_records_at:
  assumes "source_ok ps src" "distinct ks" "set ks = {0..<n}" "\<forall>k<n. k * ps < length src"
  shows "sort_records (map (record_at md5 ps src) ks) = map (record_at md5 ps src) [0..<n]"
proof -
  have "unat (pr_PieceNum (record_at md5 ps src k)) = k" if "k \<in> set ks" for k
    using that assms(3,4) record_at_fields(1)[OF assms(1)] by simp
  then have "sort_key (\<lambda>k. pr_PieceNum (record_at md5 ps src k)) ks = sort ks"
    by (intro sort_key_agrees) (simp add: word_le_nat_alt)
  moreover have "sort ks = [0..<n]" using assms(2,3) by (intro sorted_distinct_set_unique) auto
  ultimately show ?thesis by (simp add: sort_records_def sort_key_map)
qed

text \<open>A task whose first \<open>n\<close> pieces are on the disk and published.\<close>

definition pieces_cached ::
  "cdn_env \<Rightarrow> string \<Rightarrow> seed_ref \<Rightarrow> nat \<Rightarrow> uint8 list \<Rightarrow> uint8 list option \<Rightarrow> nat \<Rightarrow> fs \<Rightarrow> progress_manager \<Rightarrow> bool" where
  "pieces_cached env taskID r ps src m n s pm \<longleftrightarrow>
     cache_files env taskID ps src m n (\<lambda>_. 5) s \<and> published env taskID r ps src n (\<lambda>_. 5) pm"

lemma start_pool_inv:
  assumes "write_setup env t ps src" "first * ps \<le> length src" "pieces_cached env (sd_ID t) r ps src m first s pm"
  shows "writer_inv env t r ps src m d first (start_pool t routines (of_nat (first * ps)) (drop (first * ps) src, False) d s pm)"
proof -
  have ok: "source_ok ps src" "0 < ps" "sd_PieceSize t = of_nat ps" "ps < 2 ^ 31" "first * ps < 2 ^ 63"
    using assms(1,2) by (auto simp: write_setup_def source_ok_def)
  have "first * ps \<le> (2 ^ 31 - 1) * ps" using assms(2) ok(1) unfolding source_ok_def by linarith
  then have first: "first < 2 ^ 31" using ok(2) by simp
  have "scast (of_nat ps :: int32) = (of_nat ps :: int64)" using ok(4) sint_of_nat_32[of ps] by (metis of_int_of_nat_eq of_int_sint)
  moreover have "sint (of_nat ps :: int64) = int ps" "sint (of_nat (first * ps) :: int64) = int (first * ps)"
    using sint_of_nat_64[of ps] sint_of_nat_64[OF ok(5)] ok(4) by (auto simp del: of_nat_mult)
  ultimately have "go_div (of_nat (first * ps)) (scast (sd_PieceSize t)) = of_nat first"
    using ok(2) by (cases "first = 0") (simp_all add: go_div_def ok(3) signed_divide_int_def sgn_mult)
  moreover have "sint (of_nat first :: int64) = int first" using first by (intro sint_of_nat_64) simp
  then have "scast (of_nat first :: int64) = (of_nat first :: int32)" by (metis of_int_of_nat_eq of_int_sint)
  ultimately have "wp_cur (start_pool t routines (of_nat (first * ps)) (drop (first * ps) src, False) d s pm) = of_nat first"
    by (simp add: start_pool_def del: of_nat_mult)
  moreover have "digest_write [] d = d" by (cases d) (auto simp: digest_write_def)
  ultimately have "sending ps src first d first (start_pool t routines (of_nat (first * ps)) (drop (first * ps) src, False) d s pm)"
    using assms(2) by (simp add: sending_def taken_pieces_def start_pool_def min_def text_of_def)
  moreover have "staffed (ce_md5 env) ps src first (\<lambda>_. 5) own (replicate routines WaitPiece)" for own
    using assms(2) ok(2) by (auto simp: staffed_def intro: less_le_trans[of _ "first * ps"])
  ultimately show ?thesis
    unfolding writer_inv_def using assms(3) by (intro exI[of _ first] exI[of _ "\<lambda>_. 5"]) (auto simp: pieces_cached_def start_pool_def)
qed

lemma finished_pool:
  assumes "write_setup env t ps src" "writer_inv env t r ps src m d first p" "write_result p = Some res"
  shows "res = Inr (of_nat (piece_total ps src)) \<and> pieces_cached env (sd_ID t) r ps src m (piece_total ps src) (wp_fs p) (wp_pm p) \<and>
    wp_back p = of_nat (length src - first * ps) \<and> wp_digest p = digest_write (text_of (drop (first * ps) src)) d"
proof -
  obtain c st own where I: "sending ps src first d c p" "staffed (ce_md5 env) ps src c st own (wp_workers p)"
    "cache_files env (sd_ID t) ps src m c st (wp_fs p)" "published env (sd_ID t) r ps src c st (wp_pm p)"
    using assms(2) by (auto simp: writer_inv_def)
  have w: "wp_producer p = AllSent" "list_all returned (wp_workers p)" "res = Inr (wp_cur p)"
    using assms(3) I(1) by (auto simp: write_result_def sending_def split: producer.splits if_splits)
  then have s: "wp_cur p = of_nat c" "length src \<le> c * ps" "wp_back p = of_nat (min (c * ps) (length src) - first * ps)"
    "wp_digest p = digest_write (text_of (drop (first * ps) (take (c * ps) src))) d"
    using I(1) by (auto simp: sending_def taken_pieces_def)
  have fin: "st k = 5" if "k < c" for k
  proof (rule ccontr)
    assume "st k \<noteq> 5"
    then have b: "st k < 5" "1 \<le> st k" "own k < length (wp_workers p)" "wp_workers p ! own k = stage_worker (ce_md5 env) ps src (st k) k"
      using I(2) that by (auto simp: staffed_def le_less)
    then have "returned (stage_worker (ce_md5 env) ps src (st k) k)" using w(2) by (metis list_all_length)
    then show False using b(1,2) by (auto simp: returned_def stage_worker_def split: if_splits)
  qed
  have "c = piece_total ps src"
    using piece_totalI[of ps src c] I(2) s(2) assms(1) by (auto simp: write_setup_def source_ok_def staffed_def)
  moreover have "cache_files env (sd_ID t) ps src m c (\<lambda>_. 5) (wp_fs p)" by (rule cache_files_cong[OF I(3)]) (use fin in auto)
  moreover have "published env (sd_ID t) r ps src c (\<lambda>_. 5) (wp_pm p)" using I(4) fin by (simp add: published_def)
  ultimately show ?thesis using w(3) s by (simp add: pieces_cached_def)
qed

section \<open>Reading the cache\<close>

lemma length_show_nat: "n < 10 ^ Suc k \<Longrightarrow> length (show_nat n) \<le> Suc k"
proof (induction k arbitrary: n)
  case (Suc k)
  then show ?case using Suc.IH[of "n div 10"] by (subst show_nat.simps) auto
qed (subst show_nat.simps, simp)

lemma length_show_word: "length (show_nat (unat (w :: 64 word))) \<le> 20" "length (show_nat (unat (v :: 32 word))) \<le> 20"
proof -
  have "unat w < 2 ^ 64" "unat v < 2 ^ 32" using unsigned_less[of w, where ?'a = nat] unsigned_less[of v, where ?'a = nat] by simp_all
  then have "unat w < 10 ^ Suc 19" "unat v < 10 ^ Suc 19" by simp_all
  then show "length (show_nat (unat w)) \<le> 20" "length (show_nat (unat v)) \<le> 20" using length_show_nat[of _ 19] by force+
qed

lemma length_appended:
  assumes "\<forall>x. length (md5 x) = 16"
  shows "length (appended_text (record_at md5 ps src k)) \<le> 200"
proof -
  let ?r = "record_at md5 ps src k"
  obtain rg where rg: "pr_Range ?r = Some rg" "pr_OriginRange ?r = Some rg" "pr_PieceStyle ?r = 0"
    by (simp add: record_at_def job_record_def Let_def)
  have "length (concat (map (\<lambda>b. [f b, g b]) xs)) = 2 * length xs" for f g :: "uint8 \<Rightarrow> char" and xs by (induction xs) auto
  then have "length (pr_Md5 ?r) = 32"
    using assms by (simp add: record_at_def job_record_def Let_def ToHashString_def EncodeToString_def)
  moreover have "length (show_int 0) \<le> 20" using length_show_nat[of 0 19] by (simp add: show_int_def)
  moreover have "length (Sprint_range (Some rg)) \<le> 41"
    using length_show_word(1)[of "StartIndex rg"] length_show_word(1)[of "EndIndex rg"]
    by (simp add: Sprint_range_def Range_String_def)
  ultimately show ?thesis
    using length_show_word(2)[of "pr_PieceNum ?r"] length_show_word(2)[of "pr_PieceLen ?r"]
    by (simp add: appended_text_def Record_String_def rg)
qed

lemma length_record_text:
  assumes "source_ok ps src" "\<forall>x. length (md5 x) = 16" "distinct ks" "set ks = {0..<n}" "\<forall>k<n. k * ps < length src"
  shows "length (concat (map (\<lambda>k. appended_text (record_at md5 ps src k)) ks)) < 2 ^ 63"
proof -
  have len: "length (concat (map (\<lambda>k. appended_text (record_at md5 ps src k)) xs)) \<le> 200 * length xs" for xs
    using length_appended[OF assms(2), of ps src] by (induction xs) (auto intro: add_mono)
  have "length ks = n" using assms(3,4) distinct_card by fastforce
  moreover have "n \<le> 2 ^ 31"
  proof (cases n)
    case (Suc k)
    then show ?thesis using source_piece_bound(1)[OF assms(1), of k] assms(5) by simp
  qed simp
  ultimately show ?thesis using len[of ks] by simp
qed

text \<open>What the readers of the cache find: the bytes of the source and the records of its pieces in order.\<close>

definition all_records :: "cdn_env \<Rightarrow> nat \<Rightarrow> uint8 list \<Rightarrow> PieceMetaRecord list" where
  "all_records env ps src = map (record_at (ce_md5 env) ps src) [0..<piece_total ps src]"

lemma cached_reads:
  assumes "write_setup env t ps src" "\<forall>x. length (ce_md5 env x) = 16" "src \<noteq> []"
    "cache_files env (sd_ID t) ps src m (piece_total ps src) (\<lambda>_. 5) s"
  shows "ReadDownloadFile (ce_bad env) (ce_base env) (sd_ID t) s = Inr src"
    "\<exists>info. StatDownloadFile (ce_bad env) (ce_base env) (sd_ID t) s = Inr info \<and> si_Size info = of_nat (length src)"
    "getPieceMd5Sign env (sd_ID t) s = Inr (Sha256 (ce_sha256 env) (map pr_Md5 (all_records env ps src)), all_records env ps src)"
proof -
  let ?n = "piece_total ps src" and ?text = "\<lambda>k. appended_text (record_at (ce_md5 env) ps src k)"
  have ok: "source_ok ps src" "id_ok (sd_ID t)" "no_fail (ce_bad env)" "0 < ps" "length src < 2 ^ 63"
    using assms(1) by (auto simp: write_setup_def source_ok_def)
  have less: "k < ?n \<longleftrightarrow> k * ps < length src" for k using piece_total_less[OF ok(4)] .
  have n: "0 < ?n" using less[of 0] assms(3) by simp
  obtain f pc ks where f: "task_files (ce_base env) (sd_ID t) s = (f, m, pc)" "stored ps src (\<lambda>k. k < ?n) (case f of None \<Rightarrow> [] | Some b \<Rightarrow> b)"
    "f \<noteq> None" "distinct ks" "set ks = {0..<?n}" "case pc of None \<Rightarrow> ks = [] | Some b \<Rightarrow> b = bytes_of (concat (map ?text ks))"
    using assms(4) n by (auto simp: cache_files_def atLeast0LessThan lessThan_def)
  have "(case f of None \<Rightarrow> [] | Some b \<Rightarrow> b) = src"
  proof (rule stored_all[OF f(2)])
    show "j div ps < ?n" if "j < length src" for j
      using less[of "j div ps"] that by (meson le_less_trans div_times_less_eq_dividend)
  qed
  then have fs: "f = Some src" using f(3) by (cases f) auto
  have ks: "ks \<noteq> []" using f(5) n by auto
  then have pc: "pc = Some (bytes_of (concat (map ?text ks)))" using f(6) by (cases pc) auto
  show "ReadDownloadFile (ce_bad env) (ce_base env) (sd_ID t) s = Inr src"
    "\<exists>info. StatDownloadFile (ce_bad env) (ce_base env) (sd_ID t) s = Inr info \<and> si_Size info = of_nat (length src)"
    using ReadDownloadFile_task[OF ok(2), of "ce_base env" s src m pc "ce_bad env"] f(1) fs ok(5) no_fail_readable[OF ok(3)] by auto
  have "records_of_text (concat (map appended_text (map (record_at (ce_md5 env) ps src) ks))) = Inr (map (record_at (ce_md5 env) ps src) ks)"
    using ks f(5) less record_at_fields(3)[OF ok(1)] by (intro records_of_appended) auto
  moreover have "length (concat (map ?text ks)) < 2 ^ 63" using length_record_text[OF ok(1) assms(2) f(4,5)] less by blast
  ultimately have "ReadPieceMetaRecords (ce_bad env) (ce_base env) (sd_ID t) s = Inr (map (record_at (ce_md5 env) ps src) ks)"
    using ReadPieceMetaRecords_task[OF ok(2) f(1)[unfolded pc] no_fail_readable[OF ok(3)]] by (simp add: comp_def)
  moreover have "sort_records (map (record_at (ce_md5 env) ps src) ks) = all_records env ps src"
    using sort_records_at[OF ok(1) f(4,5)] less by (auto simp: all_records_def)
  ultimately show "getPieceMd5Sign env (sd_ID t) s = Inr (Sha256 (ce_sha256 env) (map pr_Md5 (all_records env ps src)), all_records env ps src)"
    by (simp add: getPieceMd5Sign_def Let_def)
qed

section \<open>The writer stores the source\<close>

lemma finished_stuck:
  assumes "writer_inv env t r ps src m d first p" "write_result p = Some res"
  shows "pool_step env t now c p = None"
proof -
  have w: "wp_producer p = AllSent" "list_all returned (wp_workers p)"
    using assms by (auto simp: write_result_def writer_inv_def sending_def split: producer.splits if_splits)
  have "worker_step env t now i p = None" for i
  proof (cases "i < length (wp_workers p)")
    case True
    then have "returned (wp_workers p ! i)" using w(2) by (simp add: list_all_length)
    then show ?thesis by (auto simp: worker_step_def returned_def split: worker.splits)
  qed (simp add: worker_step_def)
  then show ?thesis using w(1) by (cases c) (simp_all add: pool_step_def producer_step_def)
qed

lemma run_pool_inv:
  assumes "write_setup env t ps src" "first * ps \<le> length src" "pieces_cached env (sd_ID t) r ps src m first s pm"
  shows "writer_inv env t r ps src m d first
    (run_pool env t sched (start_pool t routines (of_nat (first * ps)) (drop (first * ps) src, False) d s pm))"
  using run_pool_invariant[of "writer_inv env t r ps src m d first", OF pool_step_inv[OF assms(1)] start_pool_inv[OF assms]] .

text \<open>
  C12. The writer stores the source, whatever the order in which its goroutines get on: with the first pieces cached
  (none, or those a detection kept), no failing system call and a registered task, \<open>doWrite\<close> returns exactly when no
  goroutine can move any more, and then it returns the number of pieces, the data file holds the bytes
  of the source, the record file has the records of all pieces, and every piece is published.
\<close>

theorem writer_stores_source:
  assumes "write_setup env t ps src" "\<forall>x. length (ce_md5 env x) = 16" "src \<noteq> []" "0 < routines"
    "first * ps \<le> length src" "pieces_cached env (sd_ID t) r ps src m first s pm"
    "p = run_pool env t sched (start_pool t routines (of_nat (first * ps)) (drop (first * ps) src, False) d s pm)"
  shows "((\<exists>c now. pool_step env t now c p \<noteq> None) \<longleftrightarrow> write_result p = None) \<and>
    (write_result p \<noteq> None \<longrightarrow>
       write_result p = Some (Inr (of_nat (piece_total ps src))) \<and>
       ReadDownloadFile (ce_bad env) (ce_base env) (sd_ID t) (wp_fs p) = Inr src \<and>
       readPieceMetaRecords env (sd_ID t) (wp_fs p) = Inr (all_records env ps src) \<and>
       (\<forall>k<piece_total ps src. Load (pieces_of r (tm_heap (pm_tasks (wp_pm p)))) (of_nat k) =
          Some (convertPieceMeta2SeedPiece (all_records env ps src ! k))))"
proof -
  have inv: "writer_inv env t r ps src m d first p" using run_pool_inv[OF assms(1,5,6)] assms(7) by simp
  have "pool_live routines p"
    unfolding assms(7) using run_pool_invariant[of "pool_live routines", OF pool_step_live start_pool_live] .
  moreover have "wp_err p = None" using inv by (auto simp: writer_inv_def sending_def)
  ultimately have "write_result p \<noteq> None" if "\<forall>c now. pool_step env t now c p = None"
    using stuck_pool[OF _ that] assms(4) by auto
  then have "(\<exists>c now. pool_step env t now c p \<noteq> None) \<longleftrightarrow> write_result p = None" using finished_stuck[OF inv] by fastforce
  moreover have "write_result p = Some (Inr (of_nat (piece_total ps src))) \<and>
       ReadDownloadFile (ce_bad env) (ce_base env) (sd_ID t) (wp_fs p) = Inr src \<and>
       readPieceMetaRecords env (sd_ID t) (wp_fs p) = Inr (all_records env ps src) \<and>
       (\<forall>k<piece_total ps src. Load (pieces_of r (tm_heap (pm_tasks (wp_pm p)))) (of_nat k) =
          Some (convertPieceMeta2SeedPiece (all_records env ps src ! k)))" if res: "write_result p = Some res" for res
  proof -
    have "res = Inr (of_nat (piece_total ps src))" and c: "pieces_cached env (sd_ID t) r ps src m (piece_total ps src) (wp_fs p) (wp_pm p)"
      using finished_pool[OF assms(1) inv res] by auto
    moreover have files: "cache_files env (sd_ID t) ps src m (piece_total ps src) (\<lambda>_. 5) (wp_fs p)" using c by (simp add: pieces_cached_def)
    moreover have "readPieceMetaRecords env (sd_ID t) (wp_fs p) = Inr (all_records env ps src)"
      using cached_reads(3)[OF assms(1-3) files] by (simp add: getPieceMd5Sign_def readPieceMetaRecords_def Let_def split: sum.splits)
    ultimately show ?thesis
      using res cached_reads(1)[OF assms(1-3) files] by (auto simp: pieces_cached_def published_def all_records_def)
  qed
  ultimately show ?thesis by auto
qed

section \<open>The small node stores its source\<close>

lemma demo_cdn_setup:
  "write_setup demo_cdn demo_cdn_task 2 [1, 2, 3]" "length (ce_md5 demo_cdn x) = 16" "length (ce_sha256 demo_cdn x) = 32"
  "sd_ID demo_cdn_task = ''t''" "getTask ''t'' (pm_tasks demo_progress) = Some 0"
  by (simp_all add: write_setup_def source_ok_def demo_cdn_def demo_cdn_task_def no_seed_def id_ok_def no_fail_never
      demo_progress_def getTask_def)

lemma demo_pieces_cached: "pieces_cached demo_cdn ''t'' 0 2 [1, 2, 3] None 0 empty_fs demo_progress"
  using empty_fs_task[of "ce_base demo_cdn" "''t''"] demo_cdn_setup(5)
  by (auto simp: pieces_cached_def cache_files_def published_def stored_def)

theorem writer_stores_source_witness:
  "\<exists>sched. let p = run_pool demo_cdn demo_cdn_task sched (start_pool demo_cdn_task 2 0 ([1, 2, 3], False) None empty_fs demo_progress)
     in write_result p = Some (Inr 2) \<and> ReadDownloadFile (ce_bad demo_cdn) (ce_base demo_cdn) ''t'' (wp_fs p) = Inr [1, 2, 3]"
proof -
  let ?p = "\<lambda>sched. run_pool demo_cdn demo_cdn_task sched (start_pool demo_cdn_task 2 0 ([1, 2, 3], False) None empty_fs demo_progress)"
  obtain sched where "\<forall>c now. pool_step demo_cdn demo_cdn_task now c (?p sched) = None" using finishing_schedule by blast
  moreover have "piece_total 2 [1, 2, 3 :: uint8] = 2" by (simp add: piece_total_def)
  ultimately show ?thesis
    using writer_stores_source[of demo_cdn demo_cdn_task 2 "[1, 2, 3]" 2 0 0 None empty_fs demo_progress "?p sched" sched None]
      demo_cdn_setup demo_pieces_cached by (intro exI[of _ sched]) (auto simp: Let_def)
qed

end
