(* ===== verification/Cdn_Seed.thy ===== *)
theory Cdn_Seed
  imports Cdn_Writer_Facts
begin

text \<open>
  A task from its first trigger to its next one: the detection finds nothing and resets the cache, the download is
  written, the result is checked and stored, and the next detection is a full hit.
\<close>

section \<open>Resetting the cache of a new task\<close>

abbreviation upload_path :: "path \<Rightarrow> string \<Rightarrow> path" where
  "upload_path base taskID \<equiv> GetPath base (GetUploadRaw taskID)"

text \<open>The files of a task and its upload link lie in different directories of the base directory.\<close>

lemma home_paths:
  obtains b y where "upload_path base taskID = b @ CHR ''u'' # y" "\<exists>z. task_dir base taskID = b @ CHR ''d'' # z"
proof -
  define b where "b = (if base = [] then [] else base @ ''/'')"
  have "\<exists>y. upload_path base taskID = b @ CHR ''u'' # y"
    by (simp add: GetPath_def GetUploadRaw_def mk_raw_def UploadHome_def Let_def b_def)
  moreover have "\<exists>z. task_dir base taskID = b @ CHR ''d'' # z"
    by (simp add: task_dir_def DownloadHome_def Let_def b_def)
  ultimately show thesis using that by blast
qed

lemma upload_not_prefix:
  assumes "upload_path base taskID = take n (task_dir base taskID @ x)" shows False
proof -
  obtain b y z where h: "upload_path base taskID = b @ CHR ''u'' # y" "task_dir base taskID = b @ CHR ''d'' # z"
    using home_paths[of base taskID] by metis
  have "b @ CHR ''u'' # y = take n (b @ CHR ''d'' # (z @ x))" using assms h by simp
  then have "CHR ''u'' # y = take (n - length b) (CHR ''d'' # (z @ x)) \<or> length (b @ CHR ''u'' # y) \<le> length b"
    by (cases "n \<le> length b") (auto simp: take_append dest: arg_cong[of _ _ length])
  then show False by (cases "n - length b") auto
qed

lemma upload_not_task:
  "upload_path base taskID \<noteq> data_path base taskID" "upload_path base taskID \<noteq> meta_path base taskID"
  "upload_path base taskID \<noteq> piece_path base taskID" "upload_path base taskID \<notin> set (path_dirs (task_dir base taskID))"
proof -
  have "upload_path base taskID \<noteq> task_dir base taskID @ x" for x
    using upload_not_prefix[of base taskID "length (task_dir base taskID @ x)" x] by auto
  then show "upload_path base taskID \<noteq> data_path base taskID" "upload_path base taskID \<noteq> meta_path base taskID"
    "upload_path base taskID \<noteq> piece_path base taskID" by auto
  show "upload_path base taskID \<notin> set (path_dirs (task_dir base taskID))"
    using upload_not_prefix[of base taskID _ "[]"] unfolding path_dirs_def append_Nil2 by (metis (lifting) imageE set_map)
qed

lemma Load_filter_key: "Load (filter (\<lambda>e. P (fst e)) m) k = (if P k then Load m k else None)"
  by (induction m) auto

definition keep_entries :: "(path \<Rightarrow> bool) \<Rightarrow> fs \<Rightarrow> fs" where
  "keep_entries P s = s\<lparr>entries := filter (\<lambda>e. P (fst e)) (entries s)\<rparr>"

lemma keep_entries_laws:
  assumes "fs_ok s"
  shows "fs_ok (keep_entries P s)" "plain_path p s \<Longrightarrow> plain_path p (keep_entries P s)"
    "contents p s = None \<Longrightarrow> contents p (keep_entries P s) = None"
    "Load (entries s) p = None \<Longrightarrow> Load (entries (keep_entries P s)) p = None"
  using assms by (auto simp: keep_entries_def fs_ok_def plain_path_def contents_def Load_filter_key split: if_splits option.splits entry.splits)

definition new_task :: "path \<Rightarrow> string \<Rightarrow> fs \<Rightarrow> bool" where
  "new_task base taskID s \<longleftrightarrow>
     task_ok base taskID s \<and> task_files base taskID s = (None, None, None) \<and> Load (entries s) (upload_path base taskID) = None"

lemma remove_present_absent:
  assumes "no_fail bad" "Load (entries s) (GetPath base raw) = None"
  shows "remove_present bad base raw s = (None, s)"
  using assms by (simp add: remove_present_def Remove_raw_def statPath_def os_FileInfo_def link_target_def no_fail_def)

lemma plain_absent: "plain_path p s \<Longrightarrow> contents p s = None \<Longrightarrow> Load (entries s) p = None"
  by (auto simp: plain_path_def contents_def split: option.splits entry.splits)

lemma DeleteTask_new:
  assumes "no_fail bad" "id_ok taskID" "new_task base taskID s"
  shows "\<exists>s'. DeleteTask bad base taskID s = (None, s') \<and> new_task base taskID s'"
proof -
  have n: "fs_ok s" "plain_path (data_path base taskID) s" "plain_path (meta_path base taskID) s" "plain_path (piece_path base taskID) s"
    "contents (data_path base taskID) s = None" "contents (meta_path base taskID) s = None" "contents (piece_path base taskID) s = None"
    "Load (entries s) (upload_path base taskID) = None"
    using assms(3) by (auto simp: new_task_def task_ok_def task_files_def)
  have "remove_all_present bad base [GetTaskMetadataRaw taskID, GetPieceMetadataRaw taskID, GetDownloadRaw taskID, GetUploadRaw taskID] s = (None, s)"
    using remove_present_absent[OF assms(1), of s base] task_paths[OF assms(2), of base] plain_absent n by simp
  then have d: "DeleteTask bad base taskID s = (None, snd (Remove_raw bad base (GetParentRaw taskID) s))"
    by (simp add: DeleteTask_def)
  have rm: "snd (Remove_raw bad base raw s) \<in> {s, keep_entries (\<lambda>q. q \<noteq> GetPath base raw \<and> \<not> below (GetPath base raw) q) s}" for raw
    by (auto simp: Remove_raw_def Let_def os_RemoveAll_def IsEmptyDir_def keep_entries_def split: sum.split if_split)
  have "new_task base taskID (keep_entries P s)" for P
    using keep_entries_laws[OF n(1), where P = P] n by (simp add: new_task_def task_ok_def task_files_def)
  then have "new_task base taskID (snd (Remove_raw bad base (GetParentRaw taskID) s))"
    using assms(3) rm[of "GetParentRaw taskID"] by auto
  then show ?thesis using d by blast
qed

lemma Store_link_other:
  "p \<noteq> q \<Longrightarrow> contents p (s\<lparr>entries := Store q e (entries s)\<rparr>) = contents p s"
  "p \<noteq> q \<Longrightarrow> plain_path p (s\<lparr>entries := Store q e (entries s)\<rparr>) = plain_path p s"
  by (auto simp: contents_def plain_path_def split: option.split entry.split)

lemma fs_ok_Store_link: "fs_ok s \<Longrightarrow> fs_ok (s\<lparr>entries := Store q (SymlinkTo x) (entries s)\<rparr>)"
  by (auto simp: fs_ok_def split: if_splits)

lemma SymbolicLink_new:
  assumes "no_fail bad" "Load (entries s) new = None" "new \<notin> set (path_dirs (path_Dir new))"
  shows "SymbolicLink bad old new s =
    (None, (mkdirs (path_dirs (path_Dir new)) s)\<lparr>entries := Store new (SymlinkTo old) (entries (mkdirs (path_dirs (path_Dir new)) s))\<rparr>)"
proof -
  have "Load (entries (mkdirs (path_dirs (path_Dir new)) s)) new = None" using assms(2,3) by (simp add: mkdirs_Load)
  then show ?thesis
    using assms(1,2) by (simp add: SymbolicLink_def PathExist_def os_Lstat_def replace_link_def os_MkdirAll_eq os_Symlink_def no_fail_def of_os_def)
qed

lemma dir_shorter: "id_ok taskID \<Longrightarrow> length (path_Dir (upload_path base taskID)) < length (upload_path base taskID)"
  and upload_dir_short: "id_ok taskID \<Longrightarrow> length (path_Dir (upload_path base taskID)) \<le> length (task_dir base taskID)"
proof -
  assume i: "id_ok taskID"
  have u: "upload_path base taskID = Join_path [base, UploadHome, getParentKey taskID] @ CHR ''/'' # taskID"
    using i Join_path_name[of UploadHome taskID base "getParentKey taskID"]
    by (simp add: GetPath_def GetUploadRaw_def mk_raw_def getDownloadKey_def UploadHome_def id_ok_def del: Join_path.simps)
  have d: "path_Dir (upload_path base taskID) = Join_path [base, UploadHome, getParentKey taskID]"
    unfolding u using i path_Dir_name by (simp add: id_ok_def del: Join_path.simps)
  show "length (path_Dir (upload_path base taskID)) < length (upload_path base taskID)"
    unfolding d unfolding u by (simp del: Join_path.simps)
  show "length (path_Dir (upload_path base taskID)) \<le> length (task_dir base taskID)"
    unfolding d by (simp add: task_dir_def UploadHome_def DownloadHome_def Let_def)
qed

lemma ResetRepo_new:
  assumes "no_fail bad" "id_ok taskID" "new_task base taskID s"
  shows "\<exists>s'. ResetRepo bad base taskID s = (None, s') \<and> task_ok base taskID s' \<and> task_files base taskID s' = (Some [], None, None)"
proof -
  let ?p = "data_path base taskID" and ?d = "task_dir base taskID" and ?u = "upload_path base taskID"
  obtain s1 where s1: "DeleteTask bad base taskID s = (None, s1)" "new_task base taskID s1" using DeleteTask_new[OF assms] by blast
  have dir: "path_Dir ?p = ?d" using task_in_dir(1)[OF assms(2)] by (simp add: in_dir_def)
  define s2 where "s2 = mkdirs (path_dirs ?d) s1"
  have mk: "os_MkdirAll bad ?d s1 = (None, s2)" using assms(1) by (simp add: os_MkdirAll_eq no_fail_def s2_def)
  have n1: "fs_ok s1" "task_ok base taskID s1" "task_files base taskID s1 = (None, None, None)" "Load (entries s1) ?u = None"
    using s1(2) by (auto simp: new_task_def task_ok_def)
  have o2: "only_file ?p ?d s1 s2" unfolding s2_def using n1(1) short_dirs by (intro only_file_mkdirs)
  have n2: "task_ok base taskID s2" "task_files base taskID s2 = (None, None, None)" "Load (entries s2) ?u = None"
    using only_file_task[OF o2 n1(2)] n1(3,4) upload_not_task(4)[of base taskID] by (auto simp: task_files_def s2_def mkdirs_Load)
  then have ok2: "fs_ok s2" "plain_path ?p s2" by (auto simp: task_ok_def)
  have absent: "Load (entries s2) ?p = None" using n2 plain_absent[OF ok2(2)] by (simp add: task_files_def)
  define s3 where "s3 = s2\<lparr>entries := Store ?p (FileAt (next_inode s2)) (entries s2), blocks := (blocks s2)(next_inode s2 := []), next_inode := next_inode s2 + 1\<rparr>"
  have cr: "os_Create bad True ?p s2 = (Inr (next_inode s2), s3)"
    using assms(1) absent by (simp add: os_Create_def no_fail_def link_target_def s3_def)
  have o3: "only_file ?p ?d s2 s3" "contents ?p s3 = Some []" unfolding s3_def using fs_ok_new(1,3)[OF ok2(1) absent] by blast+
  have n3: "task_ok base taskID s3" "task_files base taskID s3 = (Some [], None, None)" "Load (entries s3) ?u = None"
    using only_file_task[OF o3(1) n2(1)] o3 n2(2,3) upload_not_task(1)[of base taskID] by (auto simp: task_files_def only_file_def s3_def)
  have "?u \<notin> set (path_dirs (path_Dir ?u))" using dir_shorter[OF assms(2), of base] path_dirs_short[of ?u "path_Dir ?u"] by fastforce
  note link = SymbolicLink_new[OF assms(1) n3(3) this, of ?p]
  define s4 where "s4 = mkdirs (path_dirs (path_Dir ?u)) s3"
  have "only_file ?p ?d s3 s4" unfolding s4_def
    using n3(1) upload_dir_short[OF assms(2), of base] short_dirs[of "path_Dir ?u"] by (intro only_file_mkdirs) (auto simp: task_ok_def)
  then have n4: "task_ok base taskID s4" "task_files base taskID s4 = (Some [], None, None)"
    using only_file_task[OF _ n3(1)] n3(2) by (auto simp: task_files_def s4_def)
  have "task_ok base taskID (s4\<lparr>entries := Store ?u (SymlinkTo ?p) (entries s4)\<rparr>)"
    "task_files base taskID (s4\<lparr>entries := Store ?u (SymlinkTo ?p) (entries s4)\<rparr>) = (Some [], None, None)"
    using n4 upload_not_task(1-3)[of base taskID, symmetric] by (auto simp: task_ok_def task_files_def Store_link_other fs_ok_Store_link)
  then show ?thesis
    using s1(1) mk cr link task_paths(1)[OF assms(2), of base] dir by (simp add: ResetRepo_def Let_def s4_def)
qed

section \<open>Metadata\<close>

definition stores :: "cdn_env \<Rightarrow> FileMetadata \<Rightarrow> bool" where
  "stores env m \<longleftrightarrow> ce_unmarshal env (ce_marshal env m) = Some m \<and> length (ce_marshal env m) < 2 ^ 63"

lemma WriteFileMetadata_ok:
  assumes "no_fail bad" "id_ok taskID" "task_ok base taskID s"
  shows "\<exists>s'. WriteFileMetadata bad marshal base taskID m s = Ret (None, s')"
  unfolding WriteFileMetadata_def
  using assms task_in_dir[OF assms(2), of base] task_paths[OF assms(2), of base] bucket_prefix[of base taskID]
  by (intro PutBytes_ok[where dir = "task_dir base taskID"]) (auto simp: task_ok_def simp del: Join_path.simps)

lemma write_metadata:
  assumes "no_fail (ce_bad env)" "id_ok taskID" "task_ok (ce_base env) taskID s" "task_files (ce_base env) taskID s = (d, m0, p)"
  shows "\<exists>s'. WriteFileMetadata (ce_bad env) (ce_marshal env) (ce_base env) taskID m s = Ret (None, s') \<and>
    task_ok (ce_base env) taskID s' \<and> task_files (ce_base env) taskID s' = (d, Some (ce_marshal env m), p)"
  using WriteFileMetadata_ok[OF assms(1-3)] WriteFileMetadata_task[OF assms(2-4)] by (metis (no_types, lifting))

lemma read_metadata:
  assumes "no_fail (ce_bad env)" "id_ok taskID" "stores env m" "task_files (ce_base env) taskID s = (d, Some (ce_marshal env m), p)"
  shows "readFileMetadata env taskID s = Inr m"
  using ReadFileMetadata_task[OF assms(2,4) no_fail_readable[OF assms(1)]] assms(3) by (simp add: readFileMetadata_def stores_def)

lemma change_metadata_ok:
  assumes "no_fail (ce_bad env)" "id_ok taskID" "task_ok (ce_base env) taskID s" "stores env m"
    "task_files (ce_base env) taskID s = (d, Some (ce_marshal env m), p)"
  shows "\<exists>s'. change_metadata env taskID f s = Ret (None, s') \<and> task_ok (ce_base env) taskID s' \<and>
    task_files (ce_base env) taskID s' = (d, Some (ce_marshal env (f m)), p)"
  using write_metadata[OF assms(1-3,5), of "f m"] read_metadata[OF assms(1,2,4,5)] by (auto simp: change_metadata_def)

lemma cache_files_metadata:
  assumes "cache_files env taskID ps src m c st s" "task_files (ce_base env) taskID s = (d, m, p)"
    "task_files (ce_base env) taskID s' = (d, m', p)" "task_ok (ce_base env) taskID s'"
  shows "cache_files env taskID ps src m' c st s'"
  using assms unfolding cache_files_def by fastforce

section \<open>The first trigger of a task\<close>

abbreviation headers_of :: "SeedTask \<Rightarrow> (string \<times> string) list" where
  "headers_of t \<equiv> (case sd_Header t of None \<Rightarrow> [] | Some m \<Rightarrow> m)"

definition seed_result :: "cdn_env \<Rightarrow> algorithm \<Rightarrow> nat \<Rightarrow> uint8 list \<Rightarrow> downloadMetadata" where
  "seed_result env a ps src =
     \<lparr>dm_backSourceLength = of_nat (length src), dm_realCdnFileLength = of_nat (length src),
      dm_realSourceFileLength = of_nat (length src), dm_totalPieceCount = of_nat (piece_total ps src),
      dm_pieceMd5Sign = Sha256 (ce_sha256 env) (map pr_Md5 (all_records env ps src)),
      dm_sourceRealDigest = reader_Digest env (Some (a, text_of src))\<rparr>"

text \<open>The metadata the first trigger writes: at the reset, after the download began, and at the end.\<close>

definition expire_metadata :: "int64 \<Rightarrow> SeedTask \<Rightarrow> string \<Rightarrow> string \<Rightarrow> FileMetadata" where
  "expire_metadata millis t lastModified eTag =
     (file_metadata_of millis t)\<lparr>fm_ExpireInfo := [(LastModified, lastModified), (ETag, eTag)]\<rparr>"

definition final_metadata :: "cdn_env \<Rightarrow> int64 \<Rightarrow> SeedTask \<Rightarrow> algorithm \<Rightarrow> nat \<Rightarrow> uint8 list \<Rightarrow> string \<Rightarrow> string \<Rightarrow> FileMetadata" where
  "final_metadata env millis t a ps src lastModified eTag =
     result_metadata (result_of t (seed_result env a ps src)) (expire_metadata millis t lastModified eTag)"

text \<open>A registered task that is not on the disk, with a source that delivers \<open>src\<close> and matches what the task asks for.\<close>

definition seedable ::
  "cdn_env \<Rightarrow> cdn_run \<Rightarrow> SeedTask \<Rightarrow> seed_ref \<Rightarrow> algorithm \<Rightarrow> nat \<Rightarrow> uint8 list \<Rightarrow> string \<Rightarrow> string \<Rightarrow> fs \<Rightarrow> progress_manager \<Rightarrow> bool" where
  "seedable env run t r a ps src lastModified eTag s pm \<longleftrightarrow>
     write_setup env t ps src \<and> src \<noteq> [] \<and> new_task (ce_base env) (sd_ID t) s \<and> getTask (sd_ID t) (pm_tasks pm) = Some r \<and>
     (\<forall>x. length (ce_md5 env x) = 16) \<and> (\<forall>x. length (ce_sha256 env x) = 32) \<and>
     request_digest t = Some (a, []) \<and> check_result t (seed_result env a ps src) = None \<and> 0 < sint (ru_limit run) \<and>
     ce_url_ok env (sd_RawURL t) \<and>
     ce_download env (sd_RawURL t) (headers_of t @ (if IsBlank (sd_Range t) then [] else [(RangeHeader, sd_Range t)])) =
       Some ((src, False), lastModified, eTag) \<and>
     stores env (file_metadata_of (ru_millis run) t) \<and> stores env (expire_metadata (ru_millis run) t lastModified eTag) \<and>
     stores env (final_metadata env (ru_millis run) t a ps src lastModified eTag)"

lemma detectCache_new:
  assumes "no_fail (ce_bad env)" "id_ok (sd_ID t)" "new_task (ce_base env) (sd_ID t) s"
  shows "\<exists>s'. detectCache env millis t fd s =
      Ret (Inr \<lparr>cr_BreakPoint = 0, cr_PieceMetaRecords = [], cr_FileMetadata = file_metadata_of millis t\<rparr>, fd, s') \<and>
    task_ok (ce_base env) (sd_ID t) s' \<and> task_files (ce_base env) (sd_ID t) s' = (Some [], Some (ce_marshal env (file_metadata_of millis t)), None)"
proof -
  have "plain_path (data_path (ce_base env) (sd_ID t)) s" "contents (data_path (ce_base env) (sd_ID t)) s = None"
    using assms(3) by (auto simp: new_task_def task_ok_def task_files_def)
  then have "StatDownloadFile (ce_bad env) (ce_base env) (sd_ID t) s = Inl ErrTaskNotPersisted"
    using assms(1) plain_absent task_paths(1)[OF assms(2), of "ce_base env"]
    by (simp add: StatDownloadFile_def Stat_raw_def statPath_def os_FileInfo_def link_target_def no_fail_def)
  then have d: "doDetect env t fd s = Ret (Inl (ErrStat ErrTaskNotPersisted), fd, s)" by (simp add: doDetect_def Let_def)
  obtain s1 where s1: "ResetRepo (ce_bad env) (ce_base env) (sd_ID t) s = (None, s1)" "task_ok (ce_base env) (sd_ID t) s1"
    "task_files (ce_base env) (sd_ID t) s1 = (Some [], None, None)" using ResetRepo_new[OF assms] by blast
  obtain s2 where "WriteFileMetadata (ce_bad env) (ce_marshal env) (ce_base env) (sd_ID t) (file_metadata_of millis t) s1 = Ret (None, s2)"
    "task_ok (ce_base env) (sd_ID t) s2" "task_files (ce_base env) (sd_ID t) s2 = (Some [], Some (ce_marshal env (file_metadata_of millis t)), None)"
    using write_metadata[OF assms(1,2) s1(2,3)] by blast
  then show ?thesis using d s1(1) by (simp add: detectCache_def resetCache_def writeFileMetadataByTask_def Let_def)
qed

lemma download_new:
  assumes "no_fail (ce_bad env)" "id_ok (sd_ID t)" "task_ok (ce_base env) (sd_ID t) s" "stores env m"
    "task_files (ce_base env) (sd_ID t) s = (d, Some (ce_marshal env m), p)" "ce_url_ok env (sd_RawURL t)"
    "ce_download env (sd_RawURL t) (headers_of t @ (if IsBlank (sd_Range t) then [] else [(RangeHeader, sd_Range t)])) = Some (body, lm, et)"
  shows "\<exists>s'. download env t 0 s = Ret (Inr body, s') \<and> task_ok (ce_base env) (sd_ID t) s' \<and>
    task_files (ce_base env) (sd_ID t) s' = (d, Some (ce_marshal env (m\<lparr>fm_ExpireInfo := [(LastModified, lm), (ETag, et)]\<rparr>)), p)"
proof -
  obtain s' where "change_metadata env (sd_ID t) (\<lambda>m. m\<lparr>fm_ExpireInfo := [(LastModified, lm), (ETag, et)]\<rparr>) s = Ret (None, s')"
    "task_ok (ce_base env) (sd_ID t) s'"
    "task_files (ce_base env) (sd_ID t) s' = (d, Some (ce_marshal env (m\<lparr>fm_ExpireInfo := [(LastModified, lm), (ETag, et)]\<rparr>)), p)"
    using change_metadata_ok[OF assms(1-5), of "\<lambda>m. m\<lparr>fm_ExpireInfo := [(LastModified, lm), (ETag, et)]\<rparr>"] by blast
  then show ?thesis using assms(6,7) by (simp add: download_def updateExpireInfo_def Let_def)
qed

lemma go_div_nat:
  assumes "a < 2 ^ 63" "0 < b" "b < 2 ^ 63"
  shows "go_div (of_nat a) (of_nat b) = of_nat (a div b)"
proof -
  have "int a sdiv int b = int (a div b)" using assms(2) by (cases "a = 0") (simp_all add: signed_divide_int_def zdiv_int)
  then show ?thesis using sint_of_nat_64[OF assms(1)] sint_of_nat_64[OF assms(3)] by (simp add: go_div_def)
qed

lemma routine_count_positive:
  assumes "source_ok ps src" "0 < sint limit" "sd_PieceSize t = of_nat ps"
    "sint (sd_SourceFileLength t) < 0 \<or> sd_SourceFileLength t = of_nat (length src)"
  shows "0 < nat (sint (calculateRoutineCount (sd_SourceFileLength t - 0) (sd_PieceSize t) limit))"
proof (cases "sint (sd_SourceFileLength t) < 0")
  case False
  have ps: "0 < ps" "ps < 2 ^ 31" "length src + ps - 1 < 2 ^ 63" using assms(1) by (auto simp: source_ok_def)
  have l: "sd_SourceFileLength t = of_nat (length src)" using False assms(4) by blast
  have sc: "scast (of_nat n :: int32) = (of_nat n :: int64)" if "n < 2 ^ 31" for n
    using sint_of_nat_32[OF that] by (metis of_int_of_nat_eq of_int_sint)
  have "(of_nat (length src) :: int64) + scast ((of_nat ps :: int32) - 1) = of_nat (length src + ps - 1)"
    using sc[of "ps - 1"] ps(1,2) by (cases ps) simp_all
  moreover have "scast (of_nat ps :: int32) = (of_nat ps :: int64)" using sc ps(2) .
  ultimately have q: "go_div (sd_SourceFileLength t + scast (sd_PieceSize t - 1)) (scast (sd_PieceSize t)) =
      of_nat ((length src + ps - 1) div ps)"
    using go_div_nat[OF ps(3,1)] ps(2) by (simp only: l assms(3)) simp
  have "(length src + ps - 1) div ps < 2 ^ 63" using ps(3) div_le_dividend le_less_trans by blast
  then have "sint (of_nat ((length src + ps - 1) div ps) :: int64) = int ((length src + ps - 1) div ps)" by (rule sint_of_nat_64)
  then have "0 < sint (of_nat ((length src + ps - 1) div ps) :: int64)" if "(of_nat ((length src + ps - 1) div ps) :: int64) \<noteq> 0"
    using that by (cases "(length src + ps - 1) div ps = 0") auto
  then show ?thesis
    unfolding calculateRoutineCount_def diff_0_right q Let_def using assms(2) False by simp
qed (use assms(2) in \<open>simp add: calculateRoutineCount_def Let_def\<close>)

text \<open>What the first trigger leaves on the disk.\<close>

definition seeded :: "cdn_env \<Rightarrow> int64 \<Rightarrow> SeedTask \<Rightarrow> algorithm \<Rightarrow> nat \<Rightarrow> uint8 list \<Rightarrow> string \<Rightarrow> string \<Rightarrow> fs \<Rightarrow> bool" where
  "seeded env millis t a ps src lastModified eTag s \<longleftrightarrow>
     cache_files env (sd_ID t) ps src (Some (ce_marshal env (final_metadata env millis t a ps src lastModified eTag)))
       (piece_total ps src) (\<lambda>_. 5) s"

definition seed_info :: "cdn_env \<Rightarrow> SeedTask \<Rightarrow> algorithm \<Rightarrow> nat \<Rightarrow> uint8 list \<Rightarrow> SeedTask" where
  "seed_info env t a ps src =
     (let dm = seed_result env a ps src
      in getUpdateTaskInfo t StatusSuccess (dm_sourceRealDigest dm) (dm_pieceMd5Sign dm) (dm_realSourceFileLength dm)
           (dm_realCdnFileLength dm) (dm_totalPieceCount dm))"

lemma piece_size_nonzero: "write_setup env t ps src \<Longrightarrow> sd_PieceSize t \<noteq> 0"
  using sint_of_nat_32[of ps] by (auto simp: write_setup_def source_ok_def)

lemma length_of_checked:
  assumes "check_result t (seed_result env a ps src) = None"
  shows "sint (sd_SourceFileLength t) < 0 \<or> sd_SourceFileLength t = of_nat (length src)"
  using assms by (auto simp: check_result_def seed_result_def split: if_splits)

lemma startWriter_new:
  assumes "write_setup env t ps src" "src \<noteq> []" "\<forall>x. length (ce_md5 env x) = 16" "0 < sint limit"
    "sint (sd_SourceFileLength t) < 0 \<or> sd_SourceFileLength t = of_nat (length src)"
    "pieces_cached env (sd_ID t) r ps src m 0 s pm"
  shows "startWriter env t sched 0 limit (src, False) (Some (a, [])) s pm = Diverge \<or>
    (\<exists>s' pm'. startWriter env t sched 0 limit (src, False) (Some (a, [])) s pm = Ret (Inr (seed_result env a ps src), s', pm') \<and>
       pieces_cached env (sd_ID t) r ps src m (piece_total ps src) s' pm')" (is ?ret)
    and "\<exists>sched. startWriter env t sched 0 limit (src, False) (Some (a, [])) s pm \<noteq> Diverge" (is ?ends)
proof -
  define n where "n = nat (sint (calculateRoutineCount (sd_SourceFileLength t) (sd_PieceSize t) limit))"
  let ?p = "\<lambda>sched. run_pool env t sched (start_pool t n 0 (src, False) (Some (a, [])) s pm)"
  have su: "source_ok ps src" "sd_PieceSize t = of_nat ps" using assms(1) by (auto simp: write_setup_def)
  have n: "0 < n" unfolding n_def using routine_count_positive[OF su(1) assms(4) su(2) assms(5)] by simp
  have inv: "writer_inv env t r ps src m (Some (a, [])) 0 (?p sched)" for sched
    using run_pool_inv[OF assms(1) _ assms(6), of "Some (a, [])" sched n] by simp
  have w: "doWrite env t sched n 0 (src, False) (Some (a, [])) s pm =
      (case write_result (?p sched) of Some res \<Rightarrow> Ret (res, ?p sched) | None \<Rightarrow> Diverge)" for sched
    using piece_size_nonzero[OF assms(1)] by (simp add: doWrite_def Let_def)
  have fin: "\<exists>s' pm'. startWriter env t sched 0 limit (src, False) (Some (a, [])) s pm = Ret (Inr (seed_result env a ps src), s', pm') \<and>
       pieces_cached env (sd_ID t) r ps src m (piece_total ps src) s' pm'" if res: "write_result (?p sched) = Some res" for sched res
  proof -
    have f: "res = Inr (of_nat (piece_total ps src))" "wp_back (?p sched) = of_nat (length src)"
      "pieces_cached env (sd_ID t) r ps src m (piece_total ps src) (wp_fs (?p sched)) (wp_pm (?p sched))"
      "wp_digest (?p sched) = Some (a, text_of src)"
      using finished_pool[OF assms(1) inv res] by (auto simp: digest_write_def)
    have c: "cache_files env (sd_ID t) ps src m (piece_total ps src) (\<lambda>_. 5) (wp_fs (?p sched))" using f(3) by (simp add: pieces_cached_def)
    obtain info where i: "StatDownloadFile (ce_bad env) (ce_base env) (sd_ID t) (wp_fs (?p sched)) = Inr info" "si_Size info = of_nat (length src)"
      using cached_reads(2)[OF assms(1,3,2) c] by blast
    show ?thesis
      using w[of sched] res f i cached_reads(3)[OF assms(1,3,2) c]
      by (simp add: startWriter_def Let_def seed_result_def n_def[symmetric])
  qed
  show ?ret
  proof (cases "write_result (?p sched)")
    case None
    then show ?thesis using w[of sched] by (simp add: startWriter_def Let_def n_def[symmetric])
  next
    case (Some res)
    then show ?thesis using fin by blast
  qed
  obtain sched' where st: "\<forall>c now. pool_step env t now c (?p sched') = None" using finishing_schedule by blast
  have "pool_live n (?p sched')" using run_pool_invariant[of "pool_live n", OF pool_step_live start_pool_live] .
  moreover have "wp_err (?p sched') = None" using inv[of sched'] by (auto simp: writer_inv_def sending_def)
  ultimately obtain res where "write_result (?p sched') = Some res" using stuck_pool[OF _ st] n by auto
  from fin[OF this] show ?ends by (metis outcome.distinct(3))
qed

lemma pieces_cached_none:
  assumes "task_ok (ce_base env) taskID s" "task_files (ce_base env) taskID s = (Some [], m, None)" "getTask taskID (pm_tasks pm) = Some r"
  shows "pieces_cached env taskID r ps src m 0 s pm"
  using assms by (auto simp: pieces_cached_def cache_files_def published_def stored_def)

lemma handleCDNResult_ok:
  assumes "no_fail (ce_bad env)" "id_ok (sd_ID t)" "stores env m" "check_result t dm = None"
    "cache_files env (sd_ID t) ps src (Some (ce_marshal env m)) c st s"
  shows "\<exists>s'. handleCDNResult env t dm s = Ret (None, s') \<and>
    cache_files env (sd_ID t) ps src (Some (ce_marshal env (result_metadata (result_of t dm) m))) c st s'"
proof -
  obtain d pc where f: "task_ok (ce_base env) (sd_ID t) s" "task_files (ce_base env) (sd_ID t) s = (d, Some (ce_marshal env m), pc)"
    using assms(5) by (auto simp: cache_files_def)
  obtain s' where c: "change_metadata env (sd_ID t) (result_metadata (result_of t dm)) s = Ret (None, s')" "task_ok (ce_base env) (sd_ID t) s'"
    "task_files (ce_base env) (sd_ID t) s' = (d, Some (ce_marshal env (result_metadata (result_of t dm) m)), pc)"
    using change_metadata_ok[OF assms(1,2) f(1) assms(3) f(2)] by blast
  then show ?thesis
    using cache_files_metadata[OF assms(5) f(2) c(3,2)] assms(4) by (simp add: handleCDNResult_def updateStatusAndResult_def)
qed

lemma doTrigger_new:
  assumes "seedable env run t r a ps src lm et s pm"
  shows "doTrigger env (run\<lparr>ru_sched := sched\<rparr>) t s pm = Diverge \<or>
      (\<exists>s' pm'. doTrigger env (run\<lparr>ru_sched := sched\<rparr>) t s pm = Ret (Inr (seed_info env t a ps src), s', pm') \<and>
         seeded env (ru_millis run) t a ps src lm et s' \<and> published env (sd_ID t) r ps src (piece_total ps src) (\<lambda>_. 5) pm')" (is ?ret)
    and "\<exists>sched. doTrigger env (run\<lparr>ru_sched := sched\<rparr>) t s pm \<noteq> Diverge" (is ?ends)
proof -
  note A = assms[unfolded seedable_def]
  have su: "no_fail (ce_bad env)" "id_ok (sd_ID t)" using A by (auto simp: write_setup_def)
  obtain s1 where s1: "detectCache env (ru_millis run) t (Some (a, [])) s =
      Ret (Inr \<lparr>cr_BreakPoint = 0, cr_PieceMetaRecords = [], cr_FileMetadata = file_metadata_of (ru_millis run) t\<rparr>, Some (a, []), s1)"
    "task_ok (ce_base env) (sd_ID t) s1"
    "task_files (ce_base env) (sd_ID t) s1 = (Some [], Some (ce_marshal env (file_metadata_of (ru_millis run) t)), None)"
    using detectCache_new[OF su, of s] A by blast
  obtain s2 where s2: "download env t 0 s1 = Ret (Inr (src, False), s2)" "task_ok (ce_base env) (sd_ID t) s2"
    "task_files (ce_base env) (sd_ID t) s2 = (Some [], Some (ce_marshal env (expire_metadata (ru_millis run) t lm et)), None)"
    using download_new[OF su s1(2) _ s1(3)] A unfolding expire_metadata_def by blast
  have pc: "pieces_cached env (sd_ID t) r ps src (Some (ce_marshal env (expire_metadata (ru_millis run) t lm et))) 0 s2 pm"
    using pieces_cached_none[OF s2(2,3)] A by blast
  let ?w = "\<lambda>sched. startWriter env t sched 0 (ru_limit run) (src, False) (Some (a, [])) s2 pm"
  have w: "?w sched = Diverge \<or> (\<exists>s' pm'. ?w sched = Ret (Inr (seed_result env a ps src), s', pm') \<and>
       pieces_cached env (sd_ID t) r ps src (Some (ce_marshal env (expire_metadata (ru_millis run) t lm et))) (piece_total ps src) s' pm')" for sched
    using startWriter_new(1)[OF _ _ _ _ _ pc] A length_of_checked by blast
  have ends: "\<exists>sched. ?w sched \<noteq> Diverge" using startWriter_new(2)[OF _ _ _ _ _ pc] A length_of_checked by blast
  have tr: "doTrigger env (run\<lparr>ru_sched := sched\<rparr>) t s pm =
      obind (?w sched) (\<lambda>(res3, s3, pm2).
        case res3 of Inl e \<Rightarrow> Ret (Inl e, s3, pm2)
        | Inr dm \<Rightarrow> obind (handleCDNResult env t dm s3) (\<lambda>(e, s4).
            case e of Some x \<Rightarrow> Ret (Inl x, s4, pm2)
            | None \<Rightarrow> Ret (Inr (getUpdateTaskInfo t StatusSuccess (dm_sourceRealDigest dm) (dm_pieceMd5Sign dm)
                 (dm_realSourceFileLength dm) (dm_realCdnFileLength dm) (dm_totalPieceCount dm)), s4, pm2)))" for sched
    using s1(1) s2(1) A by (simp add: doTrigger_def)
  have fin: "\<exists>s' pm'. doTrigger env (run\<lparr>ru_sched := sched\<rparr>) t s pm = Ret (Inr (seed_info env t a ps src), s', pm') \<and>
         seeded env (ru_millis run) t a ps src lm et s' \<and> published env (sd_ID t) r ps src (piece_total ps src) (\<lambda>_. 5) pm'"
    if wr: "?w sched \<noteq> Diverge" for sched
  proof -
    obtain s3 pm3 where s3: "?w sched = Ret (Inr (seed_result env a ps src), s3, pm3)"
      "pieces_cached env (sd_ID t) r ps src (Some (ce_marshal env (expire_metadata (ru_millis run) t lm et))) (piece_total ps src) s3 pm3"
      using w[of sched] wr by blast
    obtain s4 where "handleCDNResult env t (seed_result env a ps src) s3 = Ret (None, s4)"
      "seeded env (ru_millis run) t a ps src lm et s4"
      using handleCDNResult_ok[OF su, of "expire_metadata (ru_millis run) t lm et" "seed_result env a ps src"] s3(2) A
      unfolding seeded_def final_metadata_def pieces_cached_def by blast
    then show ?thesis using tr[of sched] s3 by (simp add: seed_info_def Let_def pieces_cached_def)
  qed
  show ?ret using fin[of sched] tr[of sched] by (cases "?w sched = Diverge") simp_all
  show ?ends using ends fin by (metis outcome.distinct(3))
qed

section \<open>The next trigger\<close>

lemma not_blank_hex: "bs \<noteq> [] \<Longrightarrow> \<not> IsBlank (EncodeToString bs)"
  using plain_hex[of bs] by (cases bs) (auto simp: EncodeToString_def)

lemma not_blank_digest: "\<not> IsBlank (reader_Digest env (Some (a, c)))"
  by (cases a) (auto simp: reader_Digest_def IsSpace_def)

lemma piece_total_bounds:
  assumes "write_setup env t ps src" "src \<noteq> []"
  shows "0 < piece_total ps src" "piece_total ps src < 2 ^ 31"
proof -
  have ok: "source_ok ps src" "0 < ps" using assms(1) by (auto simp: write_setup_def source_ok_def)
  show n: "0 < piece_total ps src" using piece_total_less[OF ok(2), of 0 src] assms(2) by simp
  then have "(piece_total ps src - 1) * ps < length src" using piece_total_less[OF ok(2), of "piece_total ps src - 1" src] by simp
  then show "piece_total ps src < 2 ^ 31" using source_piece_bound(1)[OF ok(1)] n by fastforce
qed

lemma final_metadata_fields:
  assumes "seedable env run t r a ps src lm et s pm"
  defines "m \<equiv> final_metadata env (ru_millis run) t a ps src lm et"
  shows "checkMetadata t m" "fm_Finish m" "fm_Success m" "fm_ExpireInfo m = [(LastModified, lm), (ETag, et)]"
    "getUpdateTaskInfo t StatusSuccess (fm_SourceRealDigest m) (fm_PieceMd5Sign m) (fm_SourceFileLen m) (fm_CdnFileLength m)
       (fm_TotalPieceCount m) = seed_info env t a ps src"
    "fm_CdnFileLength m = of_nat (length src)" "fm_TotalPieceCount m = of_nat (piece_total ps src)"
    "fm_PieceMd5Sign m = Sha256 (ce_sha256 env) (map pr_Md5 (all_records env ps src))"
proof -
  note A = assms(1)[unfolded seedable_def]
  have n: "0 < piece_total ps src" "piece_total ps src < 2 ^ 31" using piece_total_bounds A by blast+
  have c: "0 < sint (of_nat (piece_total ps src) :: int32)" using sint_of_nat_32[OF n(2)] n(1) by simp
  have "map pr_Md5 (all_records env ps src) \<noteq> []" using n(1) by (simp add: all_records_def)
  then obtain x where x: "Sha256 (ce_sha256 env) (map pr_Md5 (all_records env ps src)) = EncodeToString (ce_sha256 env x)"
    using Sha256_eq by blast
  have "length (ce_sha256 env x) = 32" using A by blast
  then have "ce_sha256 env x \<noteq> []" by auto
  then have sign: "\<not> IsBlank (Sha256 (ce_sha256 env) (map pr_Md5 (all_records env ps src)))" using not_blank_hex x by simp
  have chk: "check_result t (seed_result env a ps src) = None" using A by blast
  have len: "(if sint (sd_SourceFileLength t) \<le> 0 then of_nat (length src) else sd_SourceFileLength t) = (of_nat (length src) :: int64)"
    using length_of_checked[OF chk] by auto
  note defs = m_def final_metadata_def result_metadata_def result_of_def expire_metadata_def file_metadata_of_def Let_def
  show "checkMetadata t m" "fm_Finish m" "fm_Success m" "fm_ExpireInfo m = [(LastModified, lm), (ETag, et)]"
    using chk c sign not_blank_digest by (simp_all add: defs checkMetadata_def)
  show "fm_CdnFileLength m = of_nat (length src)" "fm_TotalPieceCount m = of_nat (piece_total ps src)"
    "fm_PieceMd5Sign m = Sha256 (ce_sha256 env) (map pr_Md5 (all_records env ps src))"
    using chk c sign not_blank_digest by (simp_all add: defs seed_result_def)
  show "getUpdateTaskInfo t StatusSuccess (fm_SourceRealDigest m) (fm_PieceMd5Sign m) (fm_SourceFileLen m) (fm_CdnFileLength m)
       (fm_TotalPieceCount m) = seed_info env t a ps src"
    using chk c sign not_blank_digest len
    by (cases "sint (sd_SourceFileLength t) \<le> 0") (simp_all add: defs seed_result_def seed_info_def)
qed

lemma reportDetectResult_registered:
  "getTask taskID (pm_tasks pm) = Some r \<Longrightarrow> \<exists>pm'. reportDetectResult now taskID rs pm = (None, pm')"
proof (induction rs arbitrary: pm)
  case (Cons x rs)
  obtain pm' where "PublishPiece now taskID (convertPieceMeta2SeedPiece x) pm = (None, pm')" "getTask taskID (pm_tasks pm') = Some r"
    using PublishPiece_registered[OF Cons.prems] by blast
  then show ?case using Cons.IH by (simp add: reportPieceMetaRecord_def)
qed simp

lemma detect_hit:
  assumes "seedable env run t r a ps src lm et s0 pm0" "seeded env (ru_millis run) t a ps src lm et s"
    "\<not> ce_expired env (sd_RawURL t) (headers_of t) lm et"
  shows "\<exists>s'. detectCache env millis t fd s =
    Ret (Inr \<lparr>cr_BreakPoint = -1, cr_PieceMetaRecords = all_records env ps src,
              cr_FileMetadata = final_metadata env (ru_millis run) t a ps src lm et\<rparr>, fd, s')"
proof -
  let ?m = "final_metadata env (ru_millis run) t a ps src lm et"
  note A = assms(1)[unfolded seedable_def] and F = final_metadata_fields[OF assms(1)]
  have su: "no_fail (ce_bad env)" "id_ok (sd_ID t)" "write_setup env t ps src" using A by (auto simp: write_setup_def)
  obtain d pc where f: "task_ok (ce_base env) (sd_ID t) s" "task_files (ce_base env) (sd_ID t) s = (d, Some (ce_marshal env ?m), pc)"
    using assms(2) by (auto simp: seeded_def cache_files_def)
  have st: "stores env ?m" using A by blast
  obtain info where i: "StatDownloadFile (ce_bad env) (ce_base env) (sd_ID t) s = Inr info" "si_Size info = of_nat (length src)"
    using cached_reads(2)[OF su(3)] A assms(2) unfolding seeded_def by blast
  have sign: "getPieceMd5Sign env (sd_ID t) s = Inr (Sha256 (ce_sha256 env) (map pr_Md5 (all_records env ps src)), all_records env ps src)"
    using cached_reads(3)[OF su(3)] A assms(2) unfolding seeded_def by blast
  have "sint (of_nat (piece_total ps src) :: int32) = int (length (all_records env ps src))"
    using sint_of_nat_32 piece_total_bounds(2)[OF su(3)] A by (simp add: all_records_def)
  then have meta: "detectByReadMetaFile env (sd_ID t) ?m s =
      Inr \<lparr>cr_BreakPoint = -1, cr_PieceMetaRecords = all_records env ps src, cr_FileMetadata = ?m\<rparr>"
    using i sign F(3,6,7,8) by (simp add: detectByReadMetaFile_def)
  have "LastModified \<noteq> ETag" by (simp add: LastModified_def ETag_def)
  then have "doDetect env t fd s = Ret (detectByReadMetaFile env (sd_ID t) ?m s, fd, s)"
    using i(1) read_metadata[OF su(1,2) st f(2)] F(1,2,4) A assms(3) by (simp add: doDetect_def Let_def)
  moreover obtain s' where "change_metadata env (sd_ID t) (access_metadata millis) s = Ret (None, s')"
    using change_metadata_ok[OF su(1,2) f(1) st f(2)] by blast
  ultimately show ?thesis using meta by (simp add: detectCache_def updateAccessTime_def)
qed

text \<open>
  C11. A task that was seeded is served from the cache: the first trigger of a registered task that is not on the disk, with a
  source that delivers the bytes the task asks for, comes to an end under some schedule of the writing goroutines.
  Under every schedule under which it returns it reports success with the length, the piece count and the digests of the source and
  leaves the bytes of the source on the disk, and as long as the source has not expired the next trigger is a full
  hit: it returns the same information without a download.
\<close>

theorem seeded_task_is_cache_hit:
  assumes "seedable env run t r a ps src lm et s pm" "\<not> ce_expired env (sd_RawURL t) (headers_of t) lm et"
  shows "(\<exists>sched. doTrigger env (run\<lparr>ru_sched := sched\<rparr>) t s pm \<noteq> Diverge) \<and>
    (doTrigger env (run\<lparr>ru_sched := sched\<rparr>) t s pm \<noteq> Diverge \<longrightarrow>
       (\<exists>s1 pm1. doTrigger env (run\<lparr>ru_sched := sched\<rparr>) t s pm = Ret (Inr (seed_info env t a ps src), s1, pm1) \<and>
          ReadDownloadFile (ce_bad env) (ce_base env) (sd_ID t) s1 = Inr src \<and>
          (\<forall>run2 pm2 r2. getTask (sd_ID t) (pm_tasks pm2) = Some r2 \<longrightarrow>
             (\<exists>s2 pm3. doTrigger env run2 t s1 pm2 = Ret (Inr (seed_info env t a ps src), s2, pm3)))))"
proof -
  note A = assms(1)[unfolded seedable_def]
  have "\<exists>s1 pm1. doTrigger env (run\<lparr>ru_sched := sched\<rparr>) t s pm = Ret (Inr (seed_info env t a ps src), s1, pm1) \<and>
          ReadDownloadFile (ce_bad env) (ce_base env) (sd_ID t) s1 = Inr src \<and>
          (\<forall>run2 pm2 r2. getTask (sd_ID t) (pm_tasks pm2) = Some r2 \<longrightarrow>
             (\<exists>s2 pm3. doTrigger env run2 t s1 pm2 = Ret (Inr (seed_info env t a ps src), s2, pm3)))"
    if ret: "doTrigger env (run\<lparr>ru_sched := sched\<rparr>) t s pm \<noteq> Diverge"
  proof -
    obtain s1 pm1 where t: "doTrigger env (run\<lparr>ru_sched := sched\<rparr>) t s pm = Ret (Inr (seed_info env t a ps src), s1, pm1)"
      "seeded env (ru_millis run) t a ps src lm et s1" using doTrigger_new(1)[OF assms(1), of sched] ret by blast
    have "\<exists>s2 pm3. doTrigger env run2 t s1 pm2 = Ret (Inr (seed_info env t a ps src), s2, pm3)"
      if reg: "getTask (sd_ID t) (pm_tasks pm2) = Some r2" for run2 pm2 r2
    proof -
      obtain pm3 where "reportDetectResult (ru_now run2) (sd_ID t) (all_records env ps src) pm2 = (None, pm3)"
        using reportDetectResult_registered[OF reg] by blast
      moreover obtain s2 where "detectCache env (ru_millis run2) t (request_digest t) s1 =
          Ret (Inr \<lparr>cr_BreakPoint = -1, cr_PieceMetaRecords = all_records env ps src,
                    cr_FileMetadata = final_metadata env (ru_millis run) t a ps src lm et\<rparr>, request_digest t, s2)"
        using detect_hit[OF assms(1) t(2) assms(2)] by blast
      ultimately show ?thesis using final_metadata_fields(5)[OF assms(1)] by (simp add: doTrigger_def Let_def)
    qed
    moreover have "ReadDownloadFile (ce_bad env) (ce_base env) (sd_ID t) s1 = Inr src"
      using cached_reads(1) A t(2) unfolding seeded_def by blast
    ultimately show ?thesis using t(1) by blast
  qed
  then show ?thesis using doTrigger_new(2)[OF assms(1)] by blast
qed

section \<open>The small node seeds its task\<close>

definition demo_run :: cdn_run where
  "demo_run = \<lparr>ru_millis = 5, ru_now = 1, ru_limit = 4, ru_sched = []\<rparr>"

text \<open>The three states of the metadata of the task as one byte.\<close>

definition demo_node :: cdn_env where
  "demo_node = demo_cdn\<lparr>
     ce_marshal := (\<lambda>m. [if fm_Finish m then 2 else if fm_ExpireInfo m = [] then 0 else 1]),
     ce_unmarshal := (\<lambda>bs.
       if bs = [0] then Some (file_metadata_of 5 demo_cdn_task)
       else if bs = [1] then Some (expire_metadata 5 demo_cdn_task ''m'' ''e'')
       else Some (final_metadata demo_cdn 5 demo_cdn_task Md5Hash 2 [1, 2, 3] ''m'' ''e''))\<rparr>"

lemma demo_node_final:
  "final_metadata demo_node millis t a ps src lm et = final_metadata demo_cdn millis t a ps src lm et"
proof -
  have "all_records demo_node ps src = all_records demo_cdn ps src" by (simp add: all_records_def demo_node_def)
  moreover have "reader_Digest demo_node d = reader_Digest demo_cdn d" for d
    by (simp add: reader_Digest_def demo_node_def split: option.split prod.split algorithm.split)
  ultimately have "seed_result demo_node a ps src = seed_result demo_cdn a ps src" by (simp add: seed_result_def demo_node_def)
  then show ?thesis by (simp add: final_metadata_def)
qed

lemma demo_check: "check_result demo_cdn_task (seed_result env a 2 [1, 2, 3]) = None"
  by (simp add: check_result_def seed_result_def demo_cdn_task_def no_seed_def piece_total_def)

lemma demo_stores:
  "stores demo_node (file_metadata_of 5 demo_cdn_task)" "stores demo_node (expire_metadata 5 demo_cdn_task ''m'' ''e'')"
  "stores demo_node (final_metadata demo_node 5 demo_cdn_task Md5Hash 2 [1, 2, 3] ''m'' ''e'')"
proof -
  show "stores demo_node (file_metadata_of 5 demo_cdn_task)" "stores demo_node (expire_metadata 5 demo_cdn_task ''m'' ''e'')"
    by (simp_all add: stores_def demo_node_def file_metadata_of_def expire_metadata_def)
  have "fm_Finish (final_metadata demo_cdn 5 demo_cdn_task Md5Hash 2 [1, 2, 3] ''m'' ''e'')"
    by (simp add: final_metadata_def result_metadata_def result_of_def Let_def)
  then show "stores demo_node (final_metadata demo_node 5 demo_cdn_task Md5Hash 2 [1, 2, 3] ''m'' ''e'')"
    unfolding demo_node_final by (simp add: stores_def demo_node_def)
qed

lemma demo_seedable: "seedable demo_node demo_run demo_cdn_task 0 Md5Hash 2 [1, 2, 3] ''m'' ''e'' empty_fs demo_progress"
proof -
  have "write_setup demo_node demo_cdn_task 2 [1, 2, 3]"
    using demo_cdn_setup(1) by (simp add: write_setup_def demo_node_def)
  moreover have "new_task (ce_base demo_node) (sd_ID demo_cdn_task) empty_fs"
    using empty_fs_task by (simp add: new_task_def empty_fs_def)
  moreover have "sd_Digest demo_cdn_task = []" "sd_Range demo_cdn_task = []" "sd_Header demo_cdn_task = None"
    by (simp_all add: demo_cdn_task_def no_seed_def)
  ultimately show ?thesis
    unfolding seedable_def using demo_check demo_stores demo_cdn_setup
    by (simp add: demo_run_def request_digest_def demo_node_def demo_cdn_def)
qed

theorem seeded_task_is_cache_hit_witness:
  "\<exists>sched s1 pm1 s2 pm3.
     doTrigger demo_node (demo_run\<lparr>ru_sched := sched\<rparr>) demo_cdn_task empty_fs demo_progress =
       Ret (Inr (seed_info demo_node demo_cdn_task Md5Hash 2 [1, 2, 3]), s1, pm1) \<and>
     ReadDownloadFile (ce_bad demo_node) (ce_base demo_node) (sd_ID demo_cdn_task) s1 = Inr [1, 2, 3] \<and>
     doTrigger demo_node demo_run demo_cdn_task s1 demo_progress =
       Ret (Inr (seed_info demo_node demo_cdn_task Md5Hash 2 [1, 2, 3]), s2, pm3)"
proof -
  have "\<not> ce_expired demo_node (sd_RawURL demo_cdn_task) (headers_of demo_cdn_task) ''m'' ''e''" by (simp add: demo_node_def demo_cdn_def)
  note hit = seeded_task_is_cache_hit[OF demo_seedable this]
  have "getTask (sd_ID demo_cdn_task) (pm_tasks demo_progress) = Some 0" using demo_cdn_setup(4,5) by simp
  then show ?thesis using hit by meson
qed

end
