(* ===== verification/Cdn_Detect.thy ===== *)
theory Cdn_Detect
  imports Cdn_Seed
begin

text \<open>What the detection by reading the data file accepts.\<close>

lemma record_at_len:
  assumes "source_ok ps src" "k * ps < length src"
  shows "unat (pr_PieceLen (record_at md5 ps src k)) = min ps (length src - k * ps)"
    "pr_Md5 (record_at md5 ps src k) = ToHashString (md5 (text_of (take ps (drop (k * ps) src))))"
proof -
  have "min ps (length src - k * ps) < 2 ^ 32" using assms(1) by (auto simp: source_ok_def)
  then show "unat (pr_PieceLen (record_at md5 ps src k)) = min ps (length src - k * ps)"
    using unat_of_nat_32 by (simp add: record_at_def job_record_def job_at_def Let_def min.commute)
  show "pr_Md5 (record_at md5 ps src k) = ToHashString (md5 (text_of (take ps (drop (k * ps) src))))"
    by (simp add: record_at_def job_record_def job_at_def Let_def)
qed

text \<open>A piece of a truncated file passes, in full or cut off.\<close>

lemma checkPieceContent_truncated:
  assumes "source_ok ps src" "k * ps < length src"
  shows "\<exists>d. checkPieceContent md5 (record_at md5 ps src k) (drop (k * ps) (take n src)) (Some (a, c)) =
    Ret (True, drop (min ps (length src - k * ps)) (drop (k * ps) (take n src)), Some (a, d))"
proof -
  let ?l = "min ps (length src - k * ps)" and ?content = "take (min ps (length src - k * ps)) (drop (k * ps) (take n src))"
  have "?content = take ps (drop (k * ps) src)" if "length ?content = ?l"
  proof -
    have "?content = take (min ?l (n - k * ps)) (drop (k * ps) src)" by (simp add: drop_take)
    moreover have "?l \<le> n - k * ps" using that by (simp add: drop_take)
    ultimately have "?content = take ?l (drop (k * ps) src)" by (simp add: min_absorb1)
    also have "\<dots> = take ps (drop (k * ps) src)" by (simp add: min_def)
    finally show ?thesis .
  qed
  then show ?thesis
    unfolding checkPieceContent_def record_at_len[OF assms] Let_def digest_write_def by auto
qed

lemma detect_truncated:
  assumes "source_ok ps src" "k \<le> piece_total ps src"
  shows "\<exists>d. detect_pieces md5 k (map (record_at md5 ps src) [k..<piece_total ps src]) (drop (k * ps) (take n src)) (Some (a, c)) bp acc =
    Ret (if k < piece_total ps src then of_nat (length src) else bp, acc @ map (record_at md5 ps src) [k..<piece_total ps src], Some (a, d))"
  using assms(2)
proof (induction "piece_total ps src - k" arbitrary: k c bp acc)
  case 0
  then show ?case by simp
next
  case (Suc m)
  let ?N = "piece_total ps src" and ?r = "record_at md5 ps src"
  have ps: "0 < ps" using assms(1) by (simp add: source_ok_def)
  have k: "k < ?N" "k * ps < length src" using Suc.hyps(2) piece_total_less[OF ps, of k src] by auto
  have num: "pr_PieceNum (?r k) = of_nat k" by (simp add: record_at_def job_record_def job_at_def Let_def)
  obtain d where c: "checkPieceContent md5 (?r k) (drop (k * ps) (take n src)) (Some (a, c)) =
      Ret (True, drop (min ps (length src - k * ps)) (drop (k * ps) (take n src)), Some (a, d))"
    using checkPieceContent_truncated[OF assms(1) k(2)] by blast
  have upt: "[k..<?N] = k # [Suc k..<?N]" using k(1) by (simp add: upt_conv_Cons)
  define e where "e = min ((k + 1) * ps) (length src)"
  have "EndIndex (the (pr_OriginRange (?r k))) + 1 = of_nat e" "0 < e"
    using record_at_fields(2)[OF assms(1) k(2), of md5] k(2) ps by (auto simp: e_def of_nat_diff)
  then have step: "detect_pieces md5 k (map ?r [k..<?N]) (drop (k * ps) (take n src)) (Some (a, c)) bp acc =
      detect_pieces md5 (Suc k) (map ?r [Suc k..<?N]) (drop (min ps (length src - k * ps)) (drop (k * ps) (take n src)))
        (Some (a, d)) (of_nat e) (acc @ [?r k])"
    using c num record_at_fields(2)[OF assms(1) k(2), of md5] by (simp add: upt)
  show ?case
  proof (cases "Suc k < ?N")
    case True
    then have "(k + 1) * ps < length src" using piece_total_less[OF ps, of "Suc k" src] by simp
    then have "drop (min ps (length src - k * ps)) (drop (k * ps) (take n src)) = drop (Suc k * ps) (take n src)" by (simp add: add.commute)
    then show ?thesis using Suc.hyps(1)[of "Suc k" d "of_nat e" "acc @ [?r k]"] Suc.hyps(2) step upt True k(1) by simp
  next
    case False
    then have N: "?N = Suc k" using k(1) by simp
    have "length src \<le> (k + 1) * ps" using piece_total_less[OF ps, of "Suc k" src] N by simp
    then show ?thesis using step N by (simp add: e_def min_absorb2)
  qed
qed

text \<open>
  C40. The detection takes missing bytes for cached ones: when the records of all pieces are in the record file, a data
  file that was cut off anywhere, even an empty one, is accepted in full, because a short read wraps a nil error and
  so counts as a piece that is there. The break point is the length of the source, and no byte is downloaded
  again: the range that is asked for begins behind its end.
\<close>

theorem truncated_file_accepted:
  assumes "write_setup env t ps src" "src \<noteq> []" "IsBlank (sd_Range t)" "sd_SourceFileLength t = of_nat (length src)"
    "ReadDownloadFile (ce_bad env) (ce_base env) (sd_ID t) s = Inr (take n src)"
    "readPieceMetaRecords env (sd_ID t) s = Inr (all_records env ps src)"
  shows "(\<exists>d. detectByReadFile env (sd_ID t) m (Some (a, [])) s =
       Ret (Inr \<lparr>cr_BreakPoint = of_nat (length src), cr_PieceMetaRecords = all_records env ps src, cr_FileMetadata = m\<rparr>, Some (a, d), s)) \<and>
    getBreakRange (of_nat (length src)) (sd_Range t) (sd_SourceFileLength t) =
       Ret (Inr (show_nat (length src) @ ''-'' @ show_nat (length src - 1)))"
proof -
  have ok: "source_ok ps src" "0 < ps" using assms(1) by (auto simp: write_setup_def source_ok_def)
  have n: "0 < piece_total ps src" using piece_total_bounds(1)[OF assms(1,2)] .
  have "sort_records (all_records env ps src) = all_records env ps src"
    unfolding all_records_def using sort_records_at[OF ok(1), of "[0..<piece_total ps src]" "piece_total ps src"] piece_total_less[OF ok(2)] by simp
  moreover obtain d where "detect_pieces (ce_md5 env) 0 (all_records env ps src) (take n src) (Some (a, [])) 0 [] =
      Ret (of_nat (length src), all_records env ps src, Some (a, d))"
    using detect_truncated[OF ok(1), of 0 "ce_md5 env" n a "[]" 0 "[]"] n by (auto simp: all_records_def)
  ultimately have det: "\<exists>d. detectByReadFile env (sd_ID t) m (Some (a, [])) s =
       Ret (Inr \<lparr>cr_BreakPoint = of_nat (length src), cr_PieceMetaRecords = all_records env ps src, cr_FileMetadata = m\<rparr>, Some (a, d), s)"
    using assms(5,6) by (simp add: detectByReadFile_def Let_def)
  have l: "length src < 2 ^ 63" "0 < length src" using ok(1) assms(2) by (auto simp: source_ok_def)
  have "(of_nat (length src) :: int64) - 1 = of_nat (length src - 1)" using l(2) by (cases src) simp_all
  then have "getBreakRange (of_nat (length src)) (sd_Range t) (sd_SourceFileLength t) =
       Ret (Inr (show_nat (length src) @ ''-'' @ show_nat (length src - 1)))"
    using sint_of_nat_64[OF l(1)] sint_of_nat_64[of "length src - 1"] l assms(3,4)
    by (simp add: getBreakRange_def show_int_def del: of_nat_diff)
  with det show ?thesis by blast
qed

section \<open>An empty data file with all records\<close>

lemma append_records:
  assumes "write_setup env t ps src" "src \<noteq> []" "\<forall>x. length (ce_md5 env x) = 16" "task_ok (ce_base env) (sd_ID t) s"
    "task_files (ce_base env) (sd_ID t) s = (d, m, None)"
    "append_all (ce_bad env) (ce_base env) (sd_ID t) (all_records env ps src) s = Ret (None, s')"
  shows "task_files (ce_base env) (sd_ID t) s' = (d, m, Some (bytes_of (concat (map appended_text (all_records env ps src)))))"
    "readPieceMetaRecords env (sd_ID t) s' = Inr (all_records env ps src)"
proof -
  have ok: "source_ok ps src" "id_ok (sd_ID t)" "no_fail (ce_bad env)" "0 < ps" using assms(1) by (auto simp: write_setup_def source_ok_def)
  note less = piece_total_less[OF ok(4)]
  have ne: "all_records env ps src \<noteq> []" using piece_total_bounds(1)[OF assms(1,2)] by (simp add: all_records_def)
  show f: "task_files (ce_base env) (sd_ID t) s' = (d, m, Some (bytes_of (concat (map appended_text (all_records env ps src)))))"
    using append_all_fresh[OF ok(2) assms(4,5) ne assms(6)] by blast
  have "length (concat (map appended_text (all_records env ps src))) < 2 ^ 63"
    using length_record_text[OF ok(1) assms(3), of "[0..<piece_total ps src]" "piece_total ps src"] less
    by (simp add: all_records_def comp_def)
  moreover have "records_of_text (concat (map appended_text (all_records env ps src))) = Inr (all_records env ps src)"
    using ne record_at_fields(3)[OF ok(1)] less by (intro records_of_appended) (auto simp: all_records_def)
  moreover have "sort_records (all_records env ps src) = all_records env ps src"
    unfolding all_records_def using sort_records_at[OF ok(1), of "[0..<piece_total ps src]" "piece_total ps src"] less by simp
  ultimately show "readPieceMetaRecords env (sd_ID t) s' = Inr (all_records env ps src)"
    using ReadPieceMetaRecords_task[OF ok(2) f no_fail_readable[OF ok(3)]] by (simp add: readPieceMetaRecords_def)
qed

theorem truncated_file_accepted_witness:
  "\<exists>s d m. ReadDownloadFile (ce_bad demo_cdn) (ce_base demo_cdn) (sd_ID demo_cdn_task) s = Inr [] \<and>
     detectByReadFile demo_cdn (sd_ID demo_cdn_task) m (Some (Md5Hash, [])) s =
       Ret (Inr \<lparr>cr_BreakPoint = 3, cr_PieceMetaRecords = all_records demo_cdn 2 [1, 2, 3], cr_FileMetadata = m\<rparr>, Some (Md5Hash, d), s)"
proof -
  let ?src = "[1, 2, 3 :: uint8]" and ?id = "sd_ID demo_cdn_task"
  have su: "write_setup demo_cdn demo_cdn_task 2 ?src" "\<forall>x. length (ce_md5 demo_cdn x) = 16" using demo_cdn_setup by auto
  then have ok: "no_fail (ce_bad demo_cdn)" "id_ok ?id" by (auto simp: write_setup_def)
  have "new_task (ce_base demo_cdn) ?id empty_fs" using empty_fs_task by (simp add: new_task_def empty_fs_def)
  then obtain s1 where s1: "task_ok (ce_base demo_cdn) ?id s1" "task_files (ce_base demo_cdn) ?id s1 = (Some [], None, None)"
    using ResetRepo_new[OF ok] by blast
  obtain s2 where a: "append_all (ce_bad demo_cdn) (ce_base demo_cdn) ?id (all_records demo_cdn 2 ?src) s1 = Ret (None, s2)"
    using append_all_ok[OF ok s1(1)] by blast
  note f = append_records[OF su(1) _ su(2) s1 a]
  have r: "ReadDownloadFile (ce_bad demo_cdn) (ce_base demo_cdn) ?id s2 = Inr (take 0 ?src)"
    using ReadDownloadFile_task(1)[OF ok(2) f(1) no_fail_readable[OF ok(1)]] by simp
  have t: "sd_SourceFileLength demo_cdn_task = of_nat (length ?src)" "IsBlank (sd_Range demo_cdn_task)"
    by (simp_all add: demo_cdn_task_def no_seed_def)
  let ?m = "file_metadata_of 5 demo_cdn_task"
  obtain d where "detectByReadFile demo_cdn ?id ?m (Some (Md5Hash, [])) s2 =
      Ret (Inr \<lparr>cr_BreakPoint = 3, cr_PieceMetaRecords = all_records demo_cdn 2 ?src, cr_FileMetadata = ?m\<rparr>, Some (Md5Hash, d), s2)"
    using truncated_file_accepted[OF su(1) _ t(2,1) r f(2), of ?m Md5Hash] by auto
  then show ?thesis using r by auto
qed

end
