(* ===== verification/Spec2Isabelle.thy ===== *)
theory Spec2Isabelle
  imports Scheduler_Properties Event_Properties Service_Properties Key_Locks Storage_Properties Cdn_Detect
begin

text \<open>
  Verification of Dragonfly2, a peer-to-peer file distribution system. The scheduler keeps a tree of peers per task and tells every
  peer which peers to download from; the CDN nodes download from the source and seed tasks; the client daemon stores the
  pieces it gets and serves them on. The library models the scheduler, the CDN node and the storage of the client.

  \<^bold>\<open>Foundations.\<close>
  \<^item> \<open>Go_Prelude\<close>: Go maps as association lists, \<open>outcome\<close> (return, panic, no return), words. \<open>Go_Text\<close>: strings and numbers as text.
    \<open>Go_Float\<close>, \<open>Go_Rounding\<close>: IEEE doubles with their rounding. \<open>Math_Utils\<close>: \<open>pkg/util/mathutils\<close>.
  \<^item> \<open>Containers\<close>: \<open>pkg/container\<close>, the sorted unique list as a refinement of a finite set.
  \<^item> \<open>Ids\<close>: \<open>pkg/idgen\<close>, digests and the verifying reader. \<open>Ranges\<close>, \<open>Byte_Units\<close>: range headers and sizes with their parsers.
  \<^item> \<open>Key_Locks\<close>: \<open>pkg/synclock\<close> and \<open>pkg/sync\<close> as step relations of the goroutines that lock and unlock.
  \<^item> \<open>Cache\<close>, \<open>Dynconfig\<close>: \<open>pkg/cache\<close>, \<open>internal/dynconfig\<close> and the configuration of the scheduler.
  \<^item> \<open>Files\<close>, \<open>File_Utils\<close>: a file system with inodes, hard and symbolic links, and \<open>pkg/util/fileutils\<close>; which system calls fail is a
    parameter, a function of the operation and the path.

  \<^bold>\<open>Scheduler.\<close> \<open>Supervisor_Model\<close> has hosts, peers and tasks (\<open>scheduler/supervisor\<close>) as records in a heap of references, with one
  definition per method; \<open>Supervisor\<close> and \<open>Supervisor_Managers\<close> have the invariant (peers form a forest, links agree, loads count
  children) and the registries with their collectors. \<open>Evaluator\<close> and \<open>Evaluator_Scores\<close> are \<open>core/evaluator\<close>; \<open>Basic_Scheduler\<close>,
  \<open>Basic_Scheduler_Facts\<close> and \<open>Scheduling\<close> are \<open>core/scheduler/basic\<close>; \<open>Events\<close> is \<open>core/events.go\<close> and \<open>worker.go\<close>, \<open>Scheduler_Service\<close> is
  \<open>core/service.go\<close> and the gRPC server, \<open>Cdn_Seeding\<close> the seeding client. \<open>Event_Invariants\<close> and \<open>Service_Invariants\<close> show that every event and
  every call of the service keeps the invariant. \<open>Scheduler_Properties\<close>, \<open>Event_Properties\<close> and \<open>Service_Properties\<close> hold the properties; \<open>Demo\<close> is a
  small state on which hypotheses are satisfied.

  \<^bold>\<open>Client.\<close> \<open>Local_Storage\<close> and \<open>Storage_Manager\<close> are \<open>client/daemon/storage\<close>: pieces, metadata, delivery, reclaim, index, collection and reload.
  \<open>Storage_Properties\<close> shows that tasks, index and marks stay consistent under all calls and all failures of the file system.

  \<^bold>\<open>CDN node.\<close>
  \<^item> \<open>Cdn_Records\<close>, \<open>Cdn_Disk\<close>, \<open>Cdn_Disk_Facts\<close>: the record of a piece and its line of text (\<open>storage.go\<close>), the local driver, the keys of a task and
    the disk storage. A call changes the file it names and no other; records survive the disk; a rewritten record file loses the next record.
  \<^item> \<open>Cdn_Tasks\<close>, \<open>Cdn_Task_Facts\<close>: \<open>supervisor/task\<close>, objects in a heap because \<open>Clone\<close> shares maps. Sizes at registration, success is final, what
    the collector takes.
  \<^item> \<open>Cdn_Progress\<close>: \<open>supervisor/progress\<close>; the goroutine of a subscriber with its condition variable as atomic steps. Delivery of every
    piece once, the lost wake-up, the closing of watchers.
  \<^item> \<open>Cdn_Cache\<close>: \<open>metadata_manager.go\<close>, \<open>cache_detector.go\<close>, \<open>reporter.go\<close>, \<open>cache_writer.go\<close>, \<open>downloader.go\<close> and \<open>manager.go\<close> of \<open>supervisor/cdn\<close>.
    The producer and the workers of the writer are atomic steps picked by a schedule, so a theorem for all schedules covers all interleavings.
  \<^item> \<open>Cdn_Writer\<close>, \<open>Cdn_Writer_Facts\<close>: the writing ends, and it stores the source, its records and its published pieces in every interleaving.
    \<open>Cdn_Seed\<close>: the first trigger of a task from detection to result, and that the next one is a full hit. \<open>Cdn_Detect\<close>: what detection wrongly accepts.

  \<^bold>\<open>Bounds.\<close> Loops over lists are structural. Ancestor loops, which a cycle would make endless, are \<open>partial_function (option)\<close>, and the properties state that
  they return on the states the service reaches. A call that did not return under a schedule has the outcome \<open>Diverge\<close>; a
  schedule needs at most \<open>8 n + routines + 1\<close> effective steps for \<open>n\<close> bytes, by a measure that every step decreases. Integers of 32 and 64 bits
  are words; where a property needs that no counter wraps, the bound is a hypothesis (\<open>source_ok\<close>: positions below \<open>2 ^ 63\<close>, piece numbers below \<open>2 ^ 31\<close>).

  \<^bold>\<open>Parameters.\<close> Hash functions, JSON, URL parsing, the source site, the manager service, disk usage, the clock and the outcome of system calls are arguments.
  Hypotheses about them are that decoding inverts encoding for the values that are written, that digests have their length, and what a source answers.

  \<^bold>\<open>Helpers.\<close> A definition that is one branch or loop of an operation is covered by the entry of that operation in the map.

  \<^bold>\<open>Not modelled.\<close> Servers, streams and command lines (I/O); the manager, which is a REST service over an ORM; the peer-task conductors of
  the client, which are goroutines over gRPC streams; the protocol clients of \<open>pkg/source\<close> and the generated code of \<open>pkg/rpc\<close>, which the code only calls;
  the storage collectors of the CDN and the hybrid storage, which depend on disk statistics and on a memory file system; the composition of the CDN managers
  in \<open>cdn/supervisor/service.go\<close>; logs, traces and metrics.
\<close>

end
